theory Spec2Isabelle
  imports Main
begin

section \<open>Path helpers of the Python library used by the commands\<close>

text \<open>
  \<^verbatim>\<open>str.rfind\<close>: the highest index at which the character occurs, \<open>-1\<close> when it does
  not occur.
\<close>

fun rfind :: "string \<Rightarrow> char \<Rightarrow> int" where
  "rfind [] c = - 1"
| "rfind (x # xs) c =
     (let r = rfind xs c
      in if 0 \<le> r then r + 1 else if x = c then 0 else - 1)"

text \<open>
  The loop of \<^verbatim>\<open>genericpath._splitext\<close> that skips the leading dots of the last path
  component. It answers whether some character in \<open>p[filenameIndex:dotIndex]\<close> is not a dot
  (the Python returns the split from inside the loop in that case).
\<close>

function splitext_loop :: "string \<Rightarrow> nat \<Rightarrow> nat \<Rightarrow> bool" where
  "splitext_loop p filenameIndex dotIndex =
     (if filenameIndex < dotIndex then
        (if p ! filenameIndex \<noteq> CHR ''.'' then True
         else splitext_loop p (filenameIndex + 1) dotIndex)
      else False)"
  by pat_completeness auto
termination
  by (relation "measure (\<lambda>(p, filenameIndex, dotIndex). dotIndex - filenameIndex)") auto

declare splitext_loop.simps [simp del]

text \<open>
  \<^verbatim>\<open>os.path.splitext\<close> on a POSIX system (separator \<open>/\<close>, no alternative separator,
  extension separator \<open>.\<close>):
  \<^verbatim>\<open>
    sepIndex = p.rfind(sep)
    dotIndex = p.rfind(extsep)
    if dotIndex > sepIndex:
        filenameIndex = sepIndex + 1
        while filenameIndex < dotIndex:
            if p[filenameIndex] != extsep:
                return p[:dotIndex], p[dotIndex:]
            filenameIndex += 1
    return p, ''
  \<close>
\<close>

definition splitext :: "string \<Rightarrow> string \<times> string" where
  "splitext p =
     (let sepIndex = rfind p CHR ''/'';
          dotIndex = rfind p CHR ''.''
      in if sepIndex < dotIndex \<and> splitext_loop p (nat (sepIndex + 1)) (nat dotIndex)
         then (take (nat dotIndex) p, drop (nat dotIndex) p)
         else (p, []))"

text \<open>
  \<^verbatim>\<open>os.path.join(a, b)\<close> on a POSIX system, for two arguments.
\<close>

definition path_join :: "string \<Rightarrow> string \<Rightarrow> string" where
  "path_join a b =
     (if b \<noteq> [] \<and> hd b = CHR ''/'' then b
      else if a = [] \<or> last a = CHR ''/'' then a @ b
      else a @ ''/'' @ b)"

text \<open>
  The key of the gzipped copy of an object, as both \<^verbatim>\<open>upload_s3\<close> and \<^verbatim>\<open>delete_s3\<close>
  compute it:
  \<^verbatim>\<open>
    gz_filename, gz_ext = os.path.splitext(file_key)
    ''.join([gz_filename, '.gz', gz_ext])
  \<close>
\<close>

definition gz_file_key :: "string \<Rightarrow> string" where
  "gz_file_key file_key =
     (let (gz_filename, gz_ext) = splitext file_key
      in gz_filename @ ''.gz'' @ gz_ext)"

section \<open>The S3 objects, the local files and the queue entries\<close>

text \<open>
  \<^verbatim>\<open>class S3File\<close>: the file information, the S3 file key and the action.
\<close>

record S3File =
  bucket_name :: string
  file_key :: string
  filename :: string
  delete :: bool

definition do_delete :: "S3File \<Rightarrow> bool" where
  "do_delete s3_file = delete s3_file"

definition do_upload :: "S3File \<Rightarrow> bool" where
  "do_upload s3_file = (\<not> delete s3_file)"

text \<open>
  An object held by a bucket: the string it was written with, its headers, whether
  \<^verbatim>\<open>make_public\<close> was applied, and its last-modified time. All times of the model (the
  parsed \<^verbatim>\<open>last_modified\<close> of a key, \<^verbatim>\<open>utcfromtimestamp(st_mtime)\<close> of a local file,
  the clock) are \<^verbatim>\<open>datetime\<close> values, written as microseconds since the epoch.
\<close>

record s3obj =
  contents :: string
  obj_headers :: "string \<rightharpoonup> string"
  is_public :: bool
  last_modified :: int

type_synonym bucket = "string \<rightharpoonup> s3obj"

record localfile =
  filedata :: string
  st_mtime :: int

text \<open>
  The exceptions that the execution of a job can raise in the model: the two boto
  exceptions, and the errors of opening (\<^verbatim>\<open>IOError\<close>) or inspecting (\<^verbatim>\<open>OSError\<close>) a
  local file that does not exist.
\<close>

datatype exn = S3CreateError | S3ResponseError | IOError | OSError

text \<open>
  What lies outside the worker: the local files, \<^verbatim>\<open>mimetypes.guess_type\<close>, the clock,
  \<^verbatim>\<open>email.Utils.formatdate\<close>, gzip compression, and the answer of the object store to a
  \<^verbatim>\<open>set_contents_from_string\<close> on a key (\<open>None\<close>: the write is accepted, \<open>Some e\<close>: the
  call raises \<open>e\<close> and nothing is written). The other store calls (\<^verbatim>\<open>get_key\<close>,
  \<^verbatim>\<open>delete_key\<close>, \<^verbatim>\<open>make_public\<close>) are taken to succeed; deleting an absent key is not
  an error.
\<close>

record env =
  files :: "string \<rightharpoonup> localfile"
  guess_type :: "string \<Rightarrow> string option"
  now :: int
  formatdate :: "int \<Rightarrow> string"
  compress :: "string \<Rightarrow> string"
  put_fault :: "string \<Rightarrow> exn option"

text \<open>The requests a worker sends to the object store, in the order it sends them.\<close>

datatype store_call =
    GetBucket string
  | CreateBucket string
  | GetKey string
  | DeleteKey string
  | SetContents string string "string \<rightharpoonup> string"
  | MakePublic string

text \<open>The lines a worker prints, one constructor for each \<^verbatim>\<open>print\<close> statement.\<close>

datatype printed =
    PrInit nat
  | PrConnected nat
  | PrDeleting string nat
  | PrDeletingGzip string nat
  | PrNotChanged string
  | PrUploading string nat
  | PrExpires string
  | PrCacheControl string
  | PrGzipped nat nat
  | PrSkippingGzip string
  | PrFailed exn
  | PrException exn
  | PrFinished nat
  | PrUploaded nat
  | PrSkipped nat
  | PrDeleted nat

section \<open>The worker\<close>

text \<open>
  \<^verbatim>\<open>class S3UploadWorker\<close>. The fields are those \<^verbatim>\<open>__init__\<close> assigns (the \<^verbatim>\<open>prefix\<close>
  argument is accepted and not stored); \<open>bucket\<close> is the content of the remote bucket that
  \<^verbatim>\<open>self.bucket\<close> refers to, \<open>calls\<close> the requests sent so far and \<open>out\<close> the lines
  printed so far.
\<close>

record worker =
  num :: nat
  aws_bucket :: string
  aws_access_key_id :: string
  aws_secret_key :: string
  verbosity :: nat
  do_gzip :: bool
  do_expires :: bool
  do_force :: bool
  dry_run :: bool
  bucket :: bucket
  upload_count :: nat
  skip_count :: nat
  delete_count :: nat
  calls :: "store_call list"
  out :: "printed list"

definition GZIP_CONTENT_TYPES :: "string list" where
  "GZIP_CONTENT_TYPES = [''text/css'', ''application/javascript'', ''application/x-javascript'']"

definition say :: "bool \<Rightarrow> printed \<Rightarrow> worker \<Rightarrow> worker" where
  "say cond line w = (if cond then w\<lparr>out := out w @ [line]\<rparr> else w)"

definition call :: "store_call \<Rightarrow> worker \<Rightarrow> worker" where
  "call c w = w\<lparr>calls := calls w @ [c]\<rparr>"

text \<open>
  \<^verbatim>\<open>__init__\<close>. The argument \<open>remote\<close> is the bucket named \<open>aws_bucket\<close> as the store has
  it: \<open>None\<close> when \<^verbatim>\<open>get_bucket\<close> raises \<^verbatim>\<open>S3ResponseError\<close>, in which case the bucket
  is created, empty.
\<close>

definition S3UploadWorker ::
  "nat \<Rightarrow> string \<Rightarrow> string \<Rightarrow> string \<Rightarrow> nat \<Rightarrow> string option \<Rightarrow> bool \<Rightarrow> bool \<Rightarrow> bool \<Rightarrow> bool
     \<Rightarrow> bucket option \<Rightarrow> worker" where
  "S3UploadWorker n a_bucket a_key_id a_secret verb prefix gz expires force dry remote =
     (let w = \<lparr>num = n, aws_bucket = a_bucket, aws_access_key_id = a_key_id,
               aws_secret_key = a_secret, verbosity = verb, do_gzip = gz, do_expires = expires,
               do_force = force, dry_run = dry, bucket = Map.empty,
               upload_count = 0, skip_count = 0, delete_count = 0, calls = [], out = []\<rparr>;
          w = say (1 < verb) (PrInit n) w;
          w = call (GetBucket a_bucket) w;
          w = (case remote of
                 Some b \<Rightarrow> w\<lparr>bucket := b\<rparr>
               | None \<Rightarrow> call (CreateBucket a_bucket) w);
          w = w\<lparr>upload_count := 0, skip_count := 0, delete_count := 0\<rparr>
      in say (0 < verb) (PrConnected n) w)"

text \<open>
  \<^verbatim>\<open>delete_s3\<close>:
  \<^verbatim>\<open>
    if not self.dry_run:
        self.bucket.delete_key(s3_file.file_key)
        gz_filename, gz_ext = os.path.splitext(s3_file.file_key)
        gz_file_key = ''.join([gz_filename, '.gz', gz_ext])
        if self.bucket.get_key(gz_file_key):
            self.bucket.delete_key(gz_file_key)
    self.delete_count += 1
  \<close>
\<close>

definition delete_key :: "string \<Rightarrow> worker \<Rightarrow> worker" where
  "delete_key k w = (call (DeleteKey k) w)\<lparr>bucket := (bucket w)(k := None)\<rparr>"

definition delete_s3 :: "worker \<Rightarrow> S3File \<Rightarrow> exn option \<times> worker" where
  "delete_s3 w s3_file =
     (let w = say (0 < verbosity w) (PrDeleting (file_key s3_file) (num w)) w;
          w = (if \<not> dry_run w then
                 (let w = delete_key (file_key s3_file) w;
                      gz = gz_file_key (file_key s3_file);
                      w = call (GetKey gz) w
                  in if bucket w gz \<noteq> None
                     then delete_key gz (say (0 < verbosity w) (PrDeletingGzip gz (num w)) w)
                     else w)
               else w)
      in (None, w\<lparr>delete_count := delete_count w + 1\<rparr>))"

text \<open>
  \<^verbatim>\<open>self.key.name = k; self.key.set_contents_from_string(data, headers, replace=True);
  self.key.make_public()\<close>. When the store refuses the write, the exception leaves the
  sequence before \<^verbatim>\<open>make_public\<close>.
\<close>

definition put_public ::
  "env \<Rightarrow> string \<Rightarrow> string \<Rightarrow> (string \<rightharpoonup> string) \<Rightarrow> worker \<Rightarrow> exn option \<times> worker" where
  "put_public e k data headers w =
     (let w = call (SetContents k data headers) w
      in case put_fault e k of
           Some x \<Rightarrow> (Some x, w)
         | None \<Rightarrow>
             (let w = w\<lparr>bucket := (bucket w)(k \<mapsto>
                        \<lparr>contents = data, obj_headers = headers, is_public = False,
                         last_modified = now e\<rparr>)\<rparr>;
                  w = call (MakePublic k) w
              in (None, w\<lparr>bucket := (bucket w)(k \<mapsto>
                        \<lparr>contents = data, obj_headers = headers, is_public = True,
                         last_modified = now e\<rparr>)\<rparr>)))"

definition in_gzip_types :: "string option \<Rightarrow> bool" where
  "in_gzip_types content_type =
     (case content_type of None \<Rightarrow> False | Some ct \<Rightarrow> ct \<in> set GZIP_CONTENT_TYPES)"

definition two_years :: int where
  "two_years = 365 * 2 * 86400 * 1000000"

text \<open>
  The header dictionary. It starts as
  \<^verbatim>\<open>
    headers = {}
    content_type = mimetypes.guess_type(filename)[0]
    if content_type:
        headers['Content-Type'] = content_type
  \<close>
  and, when \<^verbatim>\<open>do_expires\<close> is set, receives
  \<^verbatim>\<open>
    headers['Expires'] = "%s GMT" % (email.Utils.formatdate(
        time.mktime((datetime.datetime.now() + datetime.timedelta(days=365*2)).timetuple())))
    headers['Cache-Control'] = "max-age %d" % (3600 * 24 * 365 * 2)
  \<close>
\<close>

definition content_type_headers :: "string option \<Rightarrow> (string \<rightharpoonup> string)" where
  "content_type_headers content_type =
     (case content_type of
        None \<Rightarrow> Map.empty
      | Some ct \<Rightarrow> if ct \<noteq> [] then [''Content-Type'' \<mapsto> ct] else Map.empty)"

definition expires_value :: "env \<Rightarrow> string" where
  "expires_value e = formatdate e (now e + two_years) @ '' GMT''"

definition cache_control_value :: string where
  "cache_control_value = ''max-age 63072000''"

definition add_expires :: "env \<Rightarrow> bool \<Rightarrow> (string \<rightharpoonup> string) \<Rightarrow> (string \<rightharpoonup> string)" where
  "add_expires e expires headers =
     (if expires
      then headers(''Expires'' \<mapsto> expires_value e, ''Cache-Control'' \<mapsto> cache_control_value)
      else headers)"

text \<open>
  The body of the \<^verbatim>\<open>try\<close> statement of \<^verbatim>\<open>upload_s3\<close>:
  \<^verbatim>\<open>
    if not self.dry_run:
        self.key.name = file_key
        self.key.set_contents_from_string(filedata, headers, replace=True)
        self.key.make_public()
    if self.do_gzip and not self.dry_run:
        if file_size > 1024 and content_type in self.GZIP_CONTENT_TYPES:
            headers['Content-Encoding'] = 'gzip'
            gzip_filedata = self.compress_string(filedata)
            gz_filename, gz_ext = os.path.splitext(file_key)
            self.key.name = ''.join([gz_filename, '.gz', gz_ext])
            self.key.set_contents_from_string(gzip_filedata, headers, replace=True)
            self.key.make_public()
            if self.verbosity > 1: print "\tgzipped: ..."
        elif self.verbosity > 0 and file_size < 1024 and content_type in self.GZIP_CONTENT_TYPES:
            print "Skipping gzip on %s, less than 1k" % file_key
  \<close>
\<close>

definition upload_try ::
  "env \<Rightarrow> worker \<Rightarrow> string \<Rightarrow> string \<Rightarrow> string option \<Rightarrow> (string \<rightharpoonup> string)
     \<Rightarrow> exn option \<times> worker" where
  "upload_try e w key data content_type headers =
     (let file_size = length data;
          (x, w) = (if \<not> dry_run w then put_public e key data headers w else (None, w))
      in case x of
           Some err \<Rightarrow> (Some err, w)
         | None \<Rightarrow>
             if do_gzip w \<and> \<not> dry_run w then
               (if 1024 < file_size \<and> in_gzip_types content_type then
                  (let headers = headers(''Content-Encoding'' \<mapsto> ''gzip'');
                       gzip_filedata = compress e data;
                       (x, w) = put_public e (gz_file_key key) gzip_filedata headers w
                   in case x of
                        Some err \<Rightarrow> (Some err, w)
                      | None \<Rightarrow>
                          (None, say (1 < verbosity w)
                             (PrGzipped (file_size div 1024) (length gzip_filedata div 1024)) w))
                else
                  (None, say (0 < verbosity w \<and> file_size < 1024 \<and> in_gzip_types content_type)
                     (PrSkippingGzip key) w))
             else (None, w))"

text \<open>
  The clauses that follow the \<^verbatim>\<open>try\<close> body, applied to its result:
  \<^verbatim>\<open>
    except boto.s3.connection.S3CreateError, e:
        print "Failed: %s" % e
    except Exception, e:
        print e
        raise
    else:
        self.upload_count += 1
  \<close>
\<close>

definition upload_except :: "exn option \<times> worker \<Rightarrow> exn option \<times> worker" where
  "upload_except r =
     (case r of
        (None, w) \<Rightarrow> (None, w\<lparr>upload_count := upload_count w + 1\<rparr>)
      | (Some S3CreateError, w) \<Rightarrow> (None, say True (PrFailed S3CreateError) w)
      | (Some err, w) \<Rightarrow> (Some err, say True (PrException err) w))"

text \<open>
  The two lines printed with the expiry headers:
  \<^verbatim>\<open>
    if self.do_expires:
        ...
        if self.verbosity > 1:
            print "\texpires: %s" % (headers['Expires'])
            print "\tcache-control: %s" % (headers['Cache-Control'])
  \<close>
\<close>

definition print_expires :: "env \<Rightarrow> worker \<Rightarrow> worker" where
  "print_expires e w =
     say (do_expires w \<and> 1 < verbosity w) (PrCacheControl cache_control_value)
       (say (do_expires w \<and> 1 < verbosity w) (PrExpires (expires_value e)) w)"

text \<open>
  \<^verbatim>\<open>upload_s3\<close> from the line \<^verbatim>\<open>if self.verbosity > 0: print "Uploading ..."\<close> to its end:
  the file is opened and read (\<^verbatim>\<open>open\<close> raises \<^verbatim>\<open>IOError\<close> when there is no such file,
  before the \<^verbatim>\<open>try\<close> statement is entered), the expiry headers are added, the \<^verbatim>\<open>try\<close>
  body runs and its result goes through the clauses above.
\<close>

definition upload_write ::
  "env \<Rightarrow> worker \<Rightarrow> S3File \<Rightarrow> string option \<Rightarrow> (string \<rightharpoonup> string) \<Rightarrow> exn option \<times> worker" where
  "upload_write e w s3_file content_type headers =
     (let w = say (0 < verbosity w) (PrUploading (file_key s3_file) (num w)) w
      in case files e (filename s3_file) of
           None \<Rightarrow> (Some IOError, w)
         | Some f \<Rightarrow>
             upload_except
               (upload_try e (print_expires e w) (file_key s3_file) (filedata f) content_type
                  (add_expires e (do_expires w) headers)))"

text \<open>
  \<^verbatim>\<open>upload_s3\<close>: the content type, then
  \<^verbatim>\<open>
    # Check if file on S3 is older than local file, if so, upload
    if not self.do_force:
        s3_key = self.bucket.get_key(file_key)
        if s3_key:
            s3_datetime = datetime.datetime(*time.strptime(s3_key.last_modified, ...)[0:6])
            local_datetime = datetime.datetime.utcfromtimestamp(os.stat(filename).st_mtime)
            if local_datetime < s3_datetime:
                self.skip_count += 1
                if self.verbosity > 1: print "File %s hasn't changed since last uploade" % file_key
                return
  \<close>
  and then the rest of the method.
\<close>

definition upload_s3 :: "env \<Rightarrow> worker \<Rightarrow> S3File \<Rightarrow> exn option \<times> worker" where
  "upload_s3 e w s3_file =
     (let content_type = guess_type e (filename s3_file);
          headers = content_type_headers content_type
      in if \<not> do_force w then
           (let w = call (GetKey (file_key s3_file)) w
            in case bucket w (file_key s3_file) of
                 None \<Rightarrow> upload_write e w s3_file content_type headers
               | Some s3_key \<Rightarrow>
                   (case files e (filename s3_file) of
                      None \<Rightarrow> (Some OSError, w)
                    | Some f \<Rightarrow>
                        if st_mtime f < last_modified s3_key
                        then (None, say (1 < verbosity w) (PrNotChanged (file_key s3_file))
                                      (w\<lparr>skip_count := skip_count w + 1\<rparr>))
                        else upload_write e w s3_file content_type headers))
         else upload_write e w s3_file content_type headers)"

text \<open>
  \<^verbatim>\<open>run\<close>, for one worker and the entries it takes from the queue:
  \<^verbatim>\<open>
    while True:
        if get_queue().empty(): break
        try:
            s3_file = get_queue().get()
        except:
            break
        else:
            if s3_file.do_delete(): self.delete_s3(s3_file)
            else: self.upload_s3(s3_file)
  \<close>
  An exception raised by \<^verbatim>\<open>delete_s3\<close> or \<^verbatim>\<open>upload_s3\<close> is raised in the \<^verbatim>\<open>else\<close> branch,
  which no \<^verbatim>\<open>except\<close> clause covers: it leaves the loop and the method. The result is the
  exception if any, the worker, and the entries left in the queue.
\<close>

definition execute :: "env \<Rightarrow> worker \<Rightarrow> S3File \<Rightarrow> exn option \<times> worker" where
  "execute e w s3_file =
     (if do_delete s3_file then delete_s3 w s3_file else upload_s3 e w s3_file)"

fun run_loop :: "env \<Rightarrow> worker \<Rightarrow> S3File list \<Rightarrow> exn option \<times> worker \<times> S3File list" where
  "run_loop e w [] = (None, w, [])"
| "run_loop e w (s3_file # queue) =
     (case execute e w s3_file of
        (Some err, w') \<Rightarrow> (Some err, w', queue)
      | (None, w') \<Rightarrow> run_loop e w' queue)"

definition run :: "env \<Rightarrow> worker \<Rightarrow> S3File list \<Rightarrow> exn option \<times> worker \<times> S3File list" where
  "run e w queue =
     (case run_loop e w queue of
        (Some err, w, rest) \<Rightarrow> (Some err, w, rest)
      | (None, w, rest) \<Rightarrow>
          (let w = say (0 < verbosity w) (PrFinished (num w)) w;
               w = say (1 < verbosity w \<and> upload_count w \<noteq> 0) (PrUploaded (upload_count w)) w;
               w = say (1 < verbosity w \<and> skip_count w \<noteq> 0) (PrSkipped (skip_count w)) w;
               w = say (1 < verbosity w \<and> delete_count w \<noteq> 0) (PrDeleted (delete_count w)) w
           in (None, w, rest)))"

section \<open>The svn-sync command\<close>

text \<open>The values of pysvn that the command inspects.\<close>

datatype node_kind = nk_none | nk_file | nk_dir | nk_unknown

datatype diff_summarize_kind = ds_normal | ds_added | ds_modified | ds_delete

datatype wc_status_kind =
    st_none | st_unversioned | st_normal | st_added | st_missing | st_deleted | st_replaced
  | st_modified | st_merged | st_conflicted | st_ignored | st_obstructed | st_external
  | st_incomplete

record change =
  path :: string
  node_kind :: node_kind
  summarize_kind :: diff_summarize_kind

record repo_info =
  info_url :: string
  info_uuid :: string
  info_revision :: int

text \<open>
  The pysvn client: \<^verbatim>\<open>client.log(path)\<close> as the revision numbers of its entries in the
  order the client returns them, \<^verbatim>\<open>client.info(path)\<close>,
  \<^verbatim>\<open>client.diff_summarize(path1, revision1, path2, revision2)\<close>, and
  \<^verbatim>\<open>client.status(path)\<close> as the \<^verbatim>\<open>text_status\<close> of each entry of the returned list.
\<close>

record svn_client =
  client_log :: "string \<Rightarrow> int list"
  client_info :: "string \<Rightarrow> repo_info"
  client_diff_summarize :: "string \<Rightarrow> int \<Rightarrow> string \<Rightarrow> int \<Rightarrow> change list"
  client_status :: "string \<Rightarrow> wc_status_kind list"

text \<open>
  The Django settings (\<open>None\<close>: the attribute is missing) and the command options.
\<close>

record settings =
  AWS_ACCESS_KEY_ID :: "string option"
  AWS_SECRET_ACCESS_KEY :: "string option"
  AWS_BUCKET_NAME :: "string option"
  MEDIA_ROOT :: "string option"

record options =
  processes :: int
  dryrun :: bool
  verbose :: bool
  debug :: bool
  ignore_url :: bool
  gzip :: bool
  expires :: bool
  prefix :: "string option"

text \<open>
  The dictionary \<^verbatim>\<open>s3_revision\<close> that is stored as \<^verbatim>\<open>svn_revision.yaml\<close>.
\<close>

record s3_revision =
  url :: string
  revision :: int
  last_update :: "string option"
  uuid :: "string option"
  initial_revision :: "int option"

definition INITIAL_REVISION :: int where
  "INITIAL_REVISION = - 1"

text \<open>
  The configuration bucket (named after the bucket, with \<^verbatim>\<open>.svn\<close> appended) as the store
  has it: whether it exists, what the key \<^verbatim>\<open>svn_revision.yaml\<close> holds, and the
  \<^verbatim>\<open>set_contents_from_string\<close> requests received, in order.
\<close>

record conf_store =
  conf_bucket_exists :: bool
  conf_key :: "s3_revision option"
  conf_writes :: "s3_revision list"

datatype cmd_printed =
    PrConnecting
  | PrCreatingConf
  | PrStored int
  | PrPullingLogs
  | PrUsingRevision int
  | PrLocalRevision int
  | PrS3Revision int
  | PrRunningDiff
  | PrFoundChanges nat
  | PrOutOfSync
  | PrOutOfSyncFile string wc_status_kind
  | PrUpdating int
  | PrFinishedExit int

text \<open>
  The command object together with what it has changed outside itself:
  \<^verbatim>\<open>self.dryrun\<close>, \<^verbatim>\<open>self.verbosity\<close>, \<^verbatim>\<open>self.ignore_svn_url\<close>, the configuration
  bucket and the lines printed.
\<close>

record command =
  cmd_dryrun :: bool
  cmd_verbosity :: nat
  cmd_ignore_svn_url :: bool
  conf :: conf_store
  cmd_out :: "cmd_printed list"

definition cmd_say :: "bool \<Rightarrow> cmd_printed \<Rightarrow> command \<Rightarrow> command" where
  "cmd_say cond line c = (if cond then c\<lparr>cmd_out := cmd_out c @ [line]\<rparr> else c)"

text \<open>
  \<^verbatim>\<open>get_s3_svn_bucket\<close>: the bucket is looked up and created when the lookup fails.
\<close>

definition get_s3_svn_bucket :: "command \<Rightarrow> command" where
  "get_s3_svn_bucket c =
     (let c = cmd_say (1 < cmd_verbosity c) PrConnecting c
      in c\<lparr>conf := (conf c)\<lparr>conf_bucket_exists := True\<rparr>\<rparr>)"

text \<open>
  \<^verbatim>\<open>set_s3_revision(s3_revision, bucket_instance)\<close>; \<open>have_bucket\<close> says whether a bucket
  instance was passed.
  \<^verbatim>\<open>
    svn_bucket = bucket_instance or self.get_s3_svn_bucket()
    svn_key = svn_bucket.get_key(self.SVN_REVISION_CONF)
    if not svn_key:
        svn_key = boto.s3.key.Key(svn_bucket)
        svn_key.name = self.SVN_REVISION_CONF
        if self.verbosity > 0: print "Creating S3 SVN config file ..."
    yaml_data = yaml.dump(s3_revision, default_flow_style=False)
    if not self.dryrun:
        svn_key.set_contents_from_string(yaml_data)
    if self.verbosity > 1: print "Stored S3 SVN revision %s" % s3_revision['revision']
  \<close>
\<close>

definition set_s3_revision :: "command \<Rightarrow> s3_revision \<Rightarrow> bool \<Rightarrow> command" where
  "set_s3_revision c s3_rev have_bucket =
     (let c = (if have_bucket then c else get_s3_svn_bucket c);
          c = cmd_say (conf_key (conf c) = None \<and> 0 < cmd_verbosity c) PrCreatingConf c;
          c = (if \<not> cmd_dryrun c
               then c\<lparr>conf := (conf c)\<lparr>conf_key := Some s3_rev,
                                         conf_writes := conf_writes (conf c) @ [s3_rev]\<rparr>\<rparr>
               else c)
      in cmd_say (1 < cmd_verbosity c) (PrStored (revision s3_rev)) c)"

text \<open>
  \<^verbatim>\<open>get_s3_svn_revision\<close>:
  \<^verbatim>\<open>
    s3_revision = dict(url='', revision=INITIAL_REVISION, last_update=None, uuid=None)
    svn_bucket = self.get_s3_svn_bucket()
    svn_key = svn_bucket.get_key(self.SVN_REVISION_CONF)
    if not svn_key:
        self.set_s3_revision(s3_revision, svn_bucket)
    else:
        s3_revision.update(yaml.load(svn_key.read()))
    return s3_revision
  \<close>
\<close>

definition default_revision :: s3_revision where
  "default_revision =
     \<lparr>url = [], revision = INITIAL_REVISION, last_update = None, uuid = None,
      initial_revision = None\<rparr>"

definition get_s3_svn_revision :: "command \<Rightarrow> command \<times> s3_revision" where
  "get_s3_svn_revision c =
     (let c = get_s3_svn_bucket c
      in case conf_key (conf c) of
           None \<Rightarrow> (set_s3_revision c default_revision True, default_revision)
         | Some stored \<Rightarrow> (c, stored))"

text \<open>How \<^verbatim>\<open>handle\<close> can end.\<close>

datatype cmd_error = MissingKeys | MissingBucketName | MissingMediaRoot | RepoMismatch string string

datatype outcome = Returned | SystemExit int | CommandError cmd_error | IndexError

record result =
  outcome :: outcome
  final :: command
  queued :: "S3File list"
  started :: "worker list"

text \<open>The checks of the settings at the head of \<^verbatim>\<open>handle\<close>.\<close>

definition check_settings :: "settings \<Rightarrow> cmd_error option" where
  "check_settings st =
     (if AWS_ACCESS_KEY_ID st = None \<or> AWS_SECRET_ACCESS_KEY st = None then Some MissingKeys
      else if AWS_BUCKET_NAME st = None \<or> AWS_BUCKET_NAME st = Some [] then Some MissingBucketName
      else if MEDIA_ROOT st = None \<or> MEDIA_ROOT st = Some [] then Some MissingMediaRoot
      else None)"

definition processes_count :: "options \<Rightarrow> nat" where
  "processes_count opts = (if processes opts < 1 then 1 else nat (processes opts))"

definition verbosity_of :: "options \<Rightarrow> nat" where
  "verbosity_of opts = (if debug opts then 2 else if verbose opts then 1 else 0)"

text \<open>
  The first-upload step:
  \<^verbatim>\<open>
    if s3_svn_revision['revision'] == INITIAL_REVISION:
        history = client.log(settings.MEDIA_ROOT)
        first_entry = history[-1]
        s3_svn_revision['revision'] = first_entry.revision.number
        s3_svn_revision['initial_revision'] = s3_svn_revision['revision']
  \<close>
  \<^verbatim>\<open>history[-1]\<close> raises \<^verbatim>\<open>IndexError\<close> on an empty history.
\<close>

definition first_upload ::
  "svn_client \<Rightarrow> string \<Rightarrow> command \<Rightarrow> s3_revision \<Rightarrow> command \<times> s3_revision option" where
  "first_upload client media_root c s3_rev =
     (if revision s3_rev = INITIAL_REVISION then
        (let c = cmd_say (0 < cmd_verbosity c) PrPullingLogs c;
             history = client_log client media_root
         in if history = [] then (c, None)
            else
              (let s3_rev = s3_rev\<lparr>revision := last history\<rparr>;
                   s3_rev = s3_rev\<lparr>initial_revision := Some (revision s3_rev)\<rparr>
               in (cmd_say (0 < cmd_verbosity c) (PrUsingRevision (revision s3_rev)) c,
                   Some s3_rev)))
      else (c, Some s3_rev))"

text \<open>
  The loop over the changes:
  \<^verbatim>\<open>
    for change in changes:
        if change.node_kind in (pysvn.node_kind.file, pysvn.node_kind.dir,) and \
                change.summarize_kind != pysvn.diff_summarize_kind.normal:
            s3_file = S3File(settings.AWS_BUCKET_NAME, change.path,
                             os.path.join(settings.MEDIA_ROOT, change.path))
            if change.summarize_kind == pysvn.diff_summarize_kind.delete:
                s3_file.delete = True
            if change.node_kind == pysvn.node_kind.dir and \
                    change.summarize_kind != pysvn.diff_summarize_kind.delete:
                continue
            changed_files.append(s3_file)
  \<close>
\<close>

fun changed_files_of :: "string \<Rightarrow> string \<Rightarrow> change list \<Rightarrow> S3File list" where
  "changed_files_of bname media_root [] = []"
| "changed_files_of bname media_root (ch # changes) =
     (if (node_kind ch = nk_file \<or> node_kind ch = nk_dir) \<and> summarize_kind ch \<noteq> ds_normal then
        (let s3_file = \<lparr>bucket_name = bname, file_key = path ch,
                        filename = path_join media_root (path ch), delete = False\<rparr>;
             s3_file = (if summarize_kind ch = ds_delete then s3_file\<lparr>delete := True\<rparr>
                        else s3_file)
         in if node_kind ch = nk_dir \<and> summarize_kind ch \<noteq> ds_delete
            then changed_files_of bname media_root changes
            else s3_file # changed_files_of bname media_root changes)
      else changed_files_of bname media_root changes)"

text \<open>
  The loop over the changed files:
  \<^verbatim>\<open>
    for i, file in enumerate(changed_files):
        status_list = client.status(file.filename)
        if status_list:
            file_status = status_list[0]
            if file_status.text_status not in (pysvn.wc_status_kind.normal,):
                outofsync_files.append((file, file_status,))
  \<close>
\<close>

fun outofsync_files_of :: "svn_client \<Rightarrow> S3File list \<Rightarrow> (S3File \<times> wc_status_kind) list" where
  "outofsync_files_of client [] = []"
| "outofsync_files_of client (file # changed_files) =
     (case client_status client (filename file) of
        [] \<Rightarrow> outofsync_files_of client changed_files
      | file_status # _ \<Rightarrow>
          if file_status \<noteq> st_normal
          then (file, file_status) # outofsync_files_of client changed_files
          else outofsync_files_of client changed_files)"

text \<open>
  The worker objects are built one after the other by
  \<^verbatim>\<open>S3UploadWorker(num, *process_args)\<close>; the first one that finds no bucket creates it.
\<close>

fun make_workers :: "(nat \<Rightarrow> bucket option \<Rightarrow> worker) \<Rightarrow> nat list \<Rightarrow> bucket option \<Rightarrow> worker list" where
  "make_workers mk [] remote = []"
| "make_workers mk (n # ns) remote =
     (let w = mk n remote in w # make_workers mk ns (Some (bucket w)))"

text \<open>
  The end of \<^verbatim>\<open>handle\<close>, once no worker process is alive; \<open>exitcode n\<close> is the exit code
  of process \<open>n\<close> and \<open>ctime_now\<close> is \<^verbatim>\<open>datetime.now().ctime()\<close>.
  \<^verbatim>\<open>
    process_result = sum([ abs(worker.exitcode) for worker in processes ])
    if not process_result:
        s3_svn_revision['revision'] = local_repo_info.revision.number
        s3_svn_revision['last_update'] = datetime.now().ctime()
        self.set_s3_revision(s3_svn_revision)
        break
    else:
        sys.exit(process_result)
  \<close>
\<close>

definition process_result :: "(nat \<Rightarrow> int) \<Rightarrow> nat \<Rightarrow> int" where
  "process_result exitcode n = sum_list (map (\<lambda>k. \<bar>exitcode k\<bar>) [0..<n])"

definition finish ::
  "command \<Rightarrow> s3_revision \<Rightarrow> repo_info \<Rightarrow> string \<Rightarrow> int \<Rightarrow> outcome \<times> command" where
  "finish c s3_rev local_repo_info ctime_now presult =
     (if presult = 0 then
        (let c = cmd_say (0 < cmd_verbosity c) (PrUpdating (info_revision local_repo_info)) c;
             s3_rev = s3_rev\<lparr>revision := info_revision local_repo_info\<rparr>;
             s3_rev = s3_rev\<lparr>last_update := Some ctime_now\<rparr>;
             c = set_s3_revision c s3_rev False
         in (Returned, cmd_say (0 < cmd_verbosity c) (PrFinishedExit presult) c))
      else (SystemExit presult, c))"

text \<open>
  \<^verbatim>\<open>handle\<close> is modelled in two parts. The first part, \<open>resolve\<close>, runs from the checks
  of the settings to the list \<^verbatim>\<open>changed_files\<close>: it loads the stored revision, applies
  the first-upload step, compares the stored repository url with the local one and turns
  the summarized diff into queue entries. It returns how the command ended when it ended
  there, and otherwise the command, the dictionary, the local repository information and
  the changed files. \<open>cs\<close> is the configuration bucket before the run.
\<close>

definition load_revision ::
  "options \<Rightarrow> svn_client \<Rightarrow> string \<Rightarrow> conf_store \<Rightarrow> command \<times> s3_revision option" where
  "load_revision opts client media_root cs =
     (let c = \<lparr>cmd_dryrun = dryrun opts, cmd_verbosity = verbosity_of opts,
               cmd_ignore_svn_url = ignore_url opts, conf = cs, cmd_out = []\<rparr>;
          (c, s3_rev) = get_s3_svn_revision c
      in first_upload client media_root c s3_rev)"

definition resolve ::
  "settings \<Rightarrow> options \<Rightarrow> svn_client \<Rightarrow> conf_store
     \<Rightarrow> (outcome \<times> command) + (command \<times> s3_revision \<times> repo_info \<times> S3File list)" where
  "resolve st opts client cs =
     (case check_settings st of
        Some err \<Rightarrow>
          Inl (CommandError err,
               \<lparr>cmd_dryrun = False, cmd_verbosity = 0, cmd_ignore_svn_url = False,
                conf = cs, cmd_out = []\<rparr>)
      | None \<Rightarrow>
          (let bname = the (AWS_BUCKET_NAME st);
               media_root = the (MEDIA_ROOT st)
           in case load_revision opts client media_root cs of
                (c, None) \<Rightarrow> Inl (IndexError, c)
              | (c, Some s3_rev) \<Rightarrow>
                  (let local_repo_info = client_info client media_root
                   in if url s3_rev \<noteq> [] \<and> url s3_rev \<noteq> info_url local_repo_info
                           \<and> \<not> cmd_ignore_svn_url c
                      then Inl (CommandError
                                  (RepoMismatch (url s3_rev) (info_url local_repo_info)), c)
                      else
                        (let s3_rev = (if \<not> cmd_ignore_svn_url c
                                       then s3_rev\<lparr>url := info_url local_repo_info\<rparr>
                                       else s3_rev);
                             s3_rev = s3_rev\<lparr>uuid := Some (info_uuid local_repo_info)\<rparr>;
                             c = cmd_say (0 < cmd_verbosity c)
                                   (PrLocalRevision (info_revision local_repo_info)) c;
                             c = cmd_say (0 < cmd_verbosity c) (PrS3Revision (revision s3_rev)) c;
                             c = cmd_say (0 < cmd_verbosity c) PrRunningDiff c;
                             changes = client_diff_summarize client media_root (revision s3_rev)
                                         (info_url local_repo_info)
                                         (info_revision local_repo_info);
                             changed_files = changed_files_of bname media_root changes;
                             c = cmd_say (0 < cmd_verbosity c)
                                   (PrFoundChanges (length changed_files)) c
                         in Inr (c, s3_rev, local_repo_info, changed_files)))))"

text \<open>
  The second part, \<open>dispatch\<close>, runs from the out-of-sync check to the end: the check, the
  exit when nothing changed, the loading of the queue, the construction and start of the
  workers, and the end of the command once they have terminated. \<open>remote\<close> is the bucket
  of the settings as the store has it (\<open>None\<close>: there is none yet).
\<close>

definition print_outofsync :: "(S3File \<times> wc_status_kind) list \<Rightarrow> command \<Rightarrow> command" where
  "print_outofsync outofsync c =
     c\<lparr>cmd_out := cmd_out c @ PrOutOfSync #
          map (\<lambda>(file, file_status). PrOutOfSyncFile (filename file) file_status) outofsync\<rparr>"

definition process_args :: "settings \<Rightarrow> command \<Rightarrow> options \<Rightarrow> nat \<Rightarrow> bucket option \<Rightarrow> worker" where
  "process_args st c opts =
     (\<lambda>n. S3UploadWorker n (the (AWS_BUCKET_NAME st)) (the (AWS_ACCESS_KEY_ID st))
             (the (AWS_SECRET_ACCESS_KEY st)) (cmd_verbosity c) (prefix opts) (gzip opts)
             (expires opts) True (cmd_dryrun c))"

definition dispatch ::
  "settings \<Rightarrow> options \<Rightarrow> svn_client \<Rightarrow> string \<Rightarrow> (nat \<Rightarrow> int) \<Rightarrow> bucket option
     \<Rightarrow> command \<Rightarrow> s3_revision \<Rightarrow> repo_info \<Rightarrow> S3File list \<Rightarrow> result" where
  "dispatch st opts client ctime_now exitcode remote c s3_rev local_repo_info changed_files =
     (let outofsync_files = outofsync_files_of client changed_files
      in if outofsync_files \<noteq> [] then
           \<lparr>outcome = SystemExit 1, final = print_outofsync outofsync_files c,
            queued = [], started = []\<rparr>
         else if changed_files = [] then
           \<lparr>outcome = SystemExit 0, final = c, queued = [], started = []\<rparr>
         else
           (let workers = make_workers (process_args st c opts) [0..<processes_count opts] remote;
                (oc, c) = finish c s3_rev local_repo_info ctime_now
                            (process_result exitcode (processes_count opts))
            in \<lparr>outcome = oc, final = c, queued = changed_files, started = workers\<rparr>))"

text \<open>\<^verbatim>\<open>Command.handle\<close> of \<^verbatim>\<open>s3-svnsync\<close>.\<close>

definition handle ::
  "settings \<Rightarrow> options \<Rightarrow> svn_client \<Rightarrow> string \<Rightarrow> (nat \<Rightarrow> int) \<Rightarrow> bucket option \<Rightarrow> conf_store
     \<Rightarrow> result" where
  "handle st opts client ctime_now exitcode remote cs =
     (case resolve st opts client cs of
        Inl (oc, c) \<Rightarrow> \<lparr>outcome = oc, final = c, queued = [], started = []\<rparr>
      | Inr (c, s3_rev, local_repo_info, changed_files) \<Rightarrow>
          dispatch st opts client ctime_now exitcode remote c s3_rev local_repo_info
            changed_files)"

text \<open>
  The dictionary that a run reads from the configuration bucket: the stored one, and the
  default one, whose revision is \<^verbatim>\<open>INITIAL_REVISION\<close>, when the key is absent, as
  \<^verbatim>\<open>get_s3_svn_revision\<close> has it. When the key is absent and the run is not a dry run,
  reading it writes the default dictionary to the bucket.
\<close>

definition stored :: "conf_store \<Rightarrow> s3_revision" where
  "stored cs = (case conf_key cs of None \<Rightarrow> default_revision | Some r \<Rightarrow> r)"

definition stored_revision :: "conf_store \<Rightarrow> int" where
  "stored_revision cs = revision (stored cs)"

definition first_writes :: "conf_store \<Rightarrow> bool \<Rightarrow> s3_revision list" where
  "first_writes cs dry = (if conf_key cs = None \<and> \<not> dry then [default_revision] else [])"

text \<open>
  The revision that the diff starts from, and the changed files of a run: the entries made
  from the summarized diff between that revision of the media root and the current
  revision of the local repository.
\<close>

definition from_revision :: "svn_client \<Rightarrow> string \<Rightarrow> conf_store \<Rightarrow> int" where
  "from_revision client media_root cs =
     (if stored_revision cs = INITIAL_REVISION then last (client_log client media_root)
      else stored_revision cs)"

definition change_set :: "settings \<Rightarrow> svn_client \<Rightarrow> conf_store \<Rightarrow> S3File list" where
  "change_set st client cs =
     changed_files_of (the (AWS_BUCKET_NAME st)) (the (MEDIA_ROOT st))
       (client_diff_summarize client (the (MEDIA_ROOT st))
          (from_revision client (the (MEDIA_ROOT st)) cs)
          (info_url (client_info client (the (MEDIA_ROOT st))))
          (info_revision (client_info client (the (MEDIA_ROOT st)))))"

text \<open>
  Whether the out-of-sync check flags a changed file: \<^verbatim>\<open>client.status\<close> returns a
  non-empty list for it whose first entry has a \<^verbatim>\<open>text_status\<close> other than normal.
\<close>

definition outofsync :: "svn_client \<Rightarrow> S3File \<Rightarrow> bool" where
  "outofsync client file =
     (case client_status client (filename file) of
        [] \<Rightarrow> False
      | file_status # _ \<Rightarrow> file_status \<noteq> st_normal)"

section \<open>Notions used in the statements\<close>

text \<open>
  The requests that write an object.
\<close>

fun is_write :: "store_call \<Rightarrow> bool" where
  "is_write (SetContents k d h) = True"
| "is_write (MakePublic k) = True"
| "is_write c = False"

text \<open>
  The lookups that a worker without force sends for the upload jobs of a list.
\<close>

definition lookups :: "S3File list \<Rightarrow> store_call list" where
  "lookups q = map (\<lambda>f. GetKey (file_key f)) (filter (\<lambda>f. \<not> do_delete f) q)"

text \<open>
  Two workers have the same settings, respectively the same three counters.
\<close>

definition same_config :: "worker \<Rightarrow> worker \<Rightarrow> bool" where
  "same_config w w' =
     (num w' = num w \<and> verbosity w' = verbosity w \<and> do_gzip w' = do_gzip w
      \<and> do_expires w' = do_expires w \<and> do_force w' = do_force w \<and> dry_run w' = dry_run w)"

definition same_counts :: "worker \<Rightarrow> worker \<Rightarrow> bool" where
  "same_counts w w' =
     (upload_count w' = upload_count w \<and> skip_count w' = skip_count w
      \<and> delete_count w' = delete_count w)"

text \<open>
  The headers that the first write of an upload is sent with.
\<close>

definition upload_headers :: "env \<Rightarrow> worker \<Rightarrow> S3File \<Rightarrow> (string \<rightharpoonup> string)" where
  "upload_headers e w f =
     add_expires e (do_expires w) (content_type_headers (guess_type e (filename f)))"

section \<open>Concrete inputs\<close>

text \<open>
  A stylesheet \<^verbatim>\<open>app.css\<close> under the media root \<^verbatim>\<open>/media\<close>, with \<open>n\<close> bytes and
  modification time \<open>t\<close>; \<open>fault\<close> is the answer of the store to writes.
\<close>

definition accept_all :: "string \<Rightarrow> exn option" where
  "accept_all k = None"

definition refuse_all :: "exn \<Rightarrow> string \<Rightarrow> exn option" where
  "refuse_all err k = Some err"

definition ex_env :: "nat \<Rightarrow> int \<Rightarrow> (string \<Rightarrow> exn option) \<Rightarrow> env" where
  "ex_env n t fault =
     \<lparr>files = [''/media/app.css'' \<mapsto> \<lparr>filedata = replicate n CHR ''a'', st_mtime = t\<rparr>],
      guess_type = (\<lambda>name. Some ''text/css''),
      now = 5000,
      formatdate = (\<lambda>t. ''Thu, 01 Jan 2026 00:00:00''),
      compress = (\<lambda>data. take 20 data),
      put_fault = fault\<rparr>"

text \<open>A bucket that holds \<^verbatim>\<open>app.css\<close>, last modified at \<open>t\<close>, and the empty bucket.\<close>

definition ex_bucket :: "int \<Rightarrow> bucket" where
  "ex_bucket t =
     [''app.css'' \<mapsto> \<lparr>contents = ''old'', obj_headers = Map.empty, is_public = True,
                        last_modified = t\<rparr>]"

definition no_objects :: bucket where
  "no_objects = Map.empty"


text \<open>
  A worker with gzip enabled and verbosity 1, connected to a bucket with content \<open>b\<close>.
\<close>

definition ex_worker :: "bool \<Rightarrow> bool \<Rightarrow> bucket \<Rightarrow> worker" where
  "ex_worker force dry b =
     S3UploadWorker 0 ''media'' ''id'' ''secret'' 1 None True False force dry (Some b)"

definition ex_upload :: S3File where
  "ex_upload =
     \<lparr>bucket_name = ''media'', file_key = ''app.css'', filename = ''/media/app.css'',
      delete = False\<rparr>"

definition ex_missing :: S3File where
  "ex_missing =
     \<lparr>bucket_name = ''media'', file_key = ''gone.js'', filename = ''/media/gone.js'',
      delete = False\<rparr>"

definition ex_delete :: S3File where
  "ex_delete =
     \<lparr>bucket_name = ''media'', file_key = ''old/c.css'', filename = ''/media/old/c.css'',
      delete = True\<rparr>"

text \<open>
  The scenario of the specification: the local repository is at revision 40, the stored
  revision is \<open>n\<close>, and the diff from revision 37 shows \<^verbatim>\<open>a.css\<close> added, \<^verbatim>\<open>b.js\<close>
  modified, \<^verbatim>\<open>old/c.png\<close> deleted (and a directory added). The log of the repository
  runs from revision 40 back to revision 12, from which the diff also shows \<^verbatim>\<open>first.css\<close>
  added. \<open>s\<close> is the working-copy status of \<^verbatim>\<open>b.js\<close>; the other files are normal.
\<close>

definition ex_settings :: settings where
  "ex_settings =
     \<lparr>AWS_ACCESS_KEY_ID = Some ''id'', AWS_SECRET_ACCESS_KEY = Some ''secret'',
      AWS_BUCKET_NAME = Some ''media'', MEDIA_ROOT = Some ''/media''\<rparr>"

definition ex_options :: "bool \<Rightarrow> options" where
  "ex_options dry =
     \<lparr>processes = 2, dryrun = dry, verbose = False, debug = False, ignore_url = False,
      gzip = True, expires = False, prefix = None\<rparr>"

definition ex_changes :: "change list" where
  "ex_changes =
     [\<lparr>path = ''a.css'', node_kind = nk_file, summarize_kind = ds_added\<rparr>,
      \<lparr>path = ''b.js'', node_kind = nk_file, summarize_kind = ds_modified\<rparr>,
      \<lparr>path = ''img'', node_kind = nk_dir, summarize_kind = ds_added\<rparr>,
      \<lparr>path = ''old/c.png'', node_kind = nk_file, summarize_kind = ds_delete\<rparr>]"

definition ex_client :: "wc_status_kind \<Rightarrow> svn_client" where
  "ex_client s =
     \<lparr>client_log = (\<lambda>p. [40, 38, 37, 12]),
      client_info = (\<lambda>p. \<lparr>info_url = ''file:///repo'', info_uuid = ''u-1'', info_revision = 40\<rparr>),
      client_diff_summarize =
        (\<lambda>p1 r1 p2 r2.
           if r1 = 37 \<and> r2 = 40 then ex_changes
           else if r1 = 12 \<and> r2 = 40
           then \<lparr>path = ''first.css'', node_kind = nk_file, summarize_kind = ds_added\<rparr> # ex_changes
           else []),
      client_status = (\<lambda>p. if p = ''/media/b.js'' then [s] else [st_normal])\<rparr>"

definition ex_stored :: "int \<Rightarrow> s3_revision" where
  "ex_stored n =
     \<lparr>url = ''file:///repo'', revision = n, last_update = Some ''Mon Nov  2 10:00:00 2026'',
      uuid = Some ''u-1'', initial_revision = None\<rparr>"

definition ex_conf :: "int \<Rightarrow> conf_store" where
  "ex_conf n =
     \<lparr>conf_bucket_exists = True, conf_key = Some (ex_stored n), conf_writes = []\<rparr>"

definition ex_new_conf :: conf_store where
  "ex_new_conf = \<lparr>conf_bucket_exists = False, conf_key = None, conf_writes = []\<rparr>"

definition ex_jobs :: "S3File list" where
  "ex_jobs =
     [\<lparr>bucket_name = ''media'', file_key = ''a.css'', filename = ''/media/a.css'', delete = False\<rparr>,
      \<lparr>bucket_name = ''media'', file_key = ''b.js'', filename = ''/media/b.js'', delete = False\<rparr>,
      \<lparr>bucket_name = ''media'', file_key = ''old/c.png'', filename = ''/media/old/c.png'',
        delete = True\<rparr>]"

definition all_clean :: "nat \<Rightarrow> int" where
  "all_clean k = 0"

definition second_fails :: "nat \<Rightarrow> int" where
  "second_fails k = (if k = 1 then 1 else 0)"

section \<open>Properties of the path helpers\<close>

lemma rfind_bounds: "- 1 \<le> rfind p c \<and> rfind p c < int (length p)"
  by (induction p) (auto simp: Let_def)

lemma rfind_hit: "0 \<le> rfind p c \<Longrightarrow> p ! nat (rfind p c) = c"
proof (induction p)
  case Nil
  then show ?case by simp
next
  case (Cons x xs)
  show ?case
  proof (cases "0 \<le> rfind xs c")
    case True
    then have "nat (rfind xs c + 1) = Suc (nat (rfind xs c))" by simp
    with True Cons.IH show ?thesis by (simp add: Let_def)
  next
    case False
    with Cons.prems show ?thesis by (simp add: Let_def split: if_splits)
  qed
qed

lemma rfind_miss: "rfind p c < 0 \<Longrightarrow> c \<notin> set p"
  by (induction p) (auto simp: Let_def split: if_splits)

lemma rfind_last: "0 \<le> rfind p c \<Longrightarrow> c \<notin> set (drop (Suc (nat (rfind p c))) p)"
proof (induction p)
  case Nil
  then show ?case by simp
next
  case (Cons x xs)
  show ?case
  proof (cases "0 \<le> rfind xs c")
    case True
    then have "nat (rfind xs c + 1) = Suc (nat (rfind xs c))" by simp
    with True Cons.IH show ?thesis by (simp add: Let_def)
  next
    case False
    then have "c \<notin> set xs" by (simp add: rfind_miss)
    with False Cons.prems show ?thesis by (simp add: Let_def split: if_splits)
  qed
qed

text \<open>
  What \<open>splitext\<close> returns: the two parts concatenate to the path, and the extension is
  empty or is a dot followed by characters none of which is a dot.
\<close>

lemma splitext_parts:
  assumes "splitext p = (r, e)"
  shows "p = r @ e" and "e = [] \<or> (\<exists>t. e = CHR ''.'' # t \<and> CHR ''.'' \<notin> set t)"
proof -
  let ?d = "rfind p CHR ''.''"
  let ?s = "rfind p CHR ''/''"
  show "p = r @ e"
    using assms by (auto simp: splitext_def Let_def split: if_splits)
  show "e = [] \<or> (\<exists>t. e = CHR ''.'' # t \<and> CHR ''.'' \<notin> set t)"
  proof (cases "?s < ?d \<and> splitext_loop p (nat (?s + 1)) (nat ?d)")
    case False
    with assms show ?thesis by (auto simp: splitext_def Let_def)
  next
    case True
    with assms have e: "e = drop (nat ?d) p" by (auto simp: splitext_def Let_def)
    from True rfind_bounds [of p "CHR ''/''"] have d0: "0 \<le> ?d" by linarith
    from rfind_bounds [of p "CHR ''.''"] d0 have lt: "nat ?d < length p" by linarith
    have "drop (nat ?d) p = p ! nat ?d # drop (Suc (nat ?d)) p"
      using lt by (rule Cons_nth_drop_Suc [symmetric])
    with e rfind_hit [OF d0] rfind_last [OF d0] show ?thesis by simp
  qed
qed

lemma dot_suffix_unique:
  assumes "a @ CHR ''.'' # s = b @ CHR ''.'' # t"
    and "CHR ''.'' \<notin> set s" and "CHR ''.'' \<notin> set t"
  shows "a = b \<and> s = t"
  using assms
proof (induction a arbitrary: b)
  case Nil
  then show ?case by (cases b) auto
next
  case (Cons x a)
  then show ?case by (cases b) auto
qed

lemma gz_file_key_inj:
  assumes "gz_file_key k1 = gz_file_key k2"
  shows "k1 = k2"
proof -
  obtain r1 e1 where s1: "splitext k1 = (r1, e1)" by (cases "splitext k1")
  obtain r2 e2 where s2: "splitext k2 = (r2, e2)" by (cases "splitext k2")
  note p1 = splitext_parts [OF s1] and p2 = splitext_parts [OF s2]
  from assms s1 s2 have eq: "r1 @ ''.gz'' @ e1 = r2 @ ''.gz'' @ e2"
    by (simp add: gz_file_key_def)
  have gz: "CHR ''.'' \<notin> set ''gz''" by simp
  show ?thesis
  proof (cases "e1 = []")
    case e1: True
    show ?thesis
    proof (cases "e2 = []")
      case True
      with e1 eq p1(1) p2(1) show ?thesis by simp
    next
      case False
      with p2(2) obtain t where t: "e2 = CHR ''.'' # t" "CHR ''.'' \<notin> set t" by blast
      from eq e1 t have "r1 @ CHR ''.'' # ''gz'' = (r2 @ ''.gz'') @ CHR ''.'' # t" by simp
      from dot_suffix_unique [OF this gz t(2)] have "r1 = r2 @ ''.gz''" "t = ''gz''" by simp_all
      with e1 t p1(1) p2(1) show ?thesis by simp
    qed
  next
    case ne1: False
    with p1(2) obtain s where s: "e1 = CHR ''.'' # s" "CHR ''.'' \<notin> set s" by blast
    show ?thesis
    proof (cases "e2 = []")
      case True
      with eq s have "(r1 @ ''.gz'') @ CHR ''.'' # s = r2 @ CHR ''.'' # ''gz''" by simp
      from dot_suffix_unique [OF this s(2) gz] have "r2 = r1 @ ''.gz''" "s = ''gz''" by simp_all
      with True s p1(1) p2(1) show ?thesis by simp
    next
      case False
      with p2(2) obtain t where t: "e2 = CHR ''.'' # t" "CHR ''.'' \<notin> set t" by blast
      from eq s t have "(r1 @ ''.gz'') @ CHR ''.'' # s = (r2 @ ''.gz'') @ CHR ''.'' # t" by simp
      from dot_suffix_unique [OF this s(2) t(2)] have "r1 = r2" "s = t" by simp_all
      with s t p1(1) p2(1) show ?thesis by simp
    qed
  qed
qed

lemma gz_file_key_length: "length (gz_file_key k) = length k + 3"
proof -
  obtain r e where s: "splitext k = (r, e)" by (cases "splitext k")
  from splitext_parts(1) [OF s] s show ?thesis by (simp add: gz_file_key_def)
qed

lemma gz_file_key_neq: "gz_file_key k \<noteq> k"
  using gz_file_key_length [of k] by (metis add_cancel_right_right num.simps(8) numeral_eq_iff zero_neq_numeral)

section \<open>The worker's fields under the elementary steps\<close>

lemma say_simps [simp]:
  "bucket (say b l w) = bucket w" "calls (say b l w) = calls w"
  "upload_count (say b l w) = upload_count w" "skip_count (say b l w) = skip_count w"
  "delete_count (say b l w) = delete_count w" "dry_run (say b l w) = dry_run w"
  "do_force (say b l w) = do_force w" "do_gzip (say b l w) = do_gzip w"
  "do_expires (say b l w) = do_expires w" "verbosity (say b l w) = verbosity w"
  "num (say b l w) = num w"
  "out (say b l w) = (if b then out w @ [l] else out w)"
  by (simp_all add: say_def)

lemma call_simps [simp]:
  "bucket (call c w) = bucket w" "calls (call c w) = calls w @ [c]"
  "upload_count (call c w) = upload_count w" "skip_count (call c w) = skip_count w"
  "delete_count (call c w) = delete_count w" "dry_run (call c w) = dry_run w"
  "do_force (call c w) = do_force w" "do_gzip (call c w) = do_gzip w"
  "do_expires (call c w) = do_expires w" "verbosity (call c w) = verbosity w"
  "num (call c w) = num w" "out (call c w) = out w"
  by (simp_all add: call_def)

lemma delete_key_simps [simp]:
  "bucket (delete_key k w) = (bucket w)(k := None)"
  "calls (delete_key k w) = calls w @ [DeleteKey k]"
  "upload_count (delete_key k w) = upload_count w" "skip_count (delete_key k w) = skip_count w"
  "delete_count (delete_key k w) = delete_count w" "dry_run (delete_key k w) = dry_run w"
  "do_force (delete_key k w) = do_force w" "do_gzip (delete_key k w) = do_gzip w"
  "do_expires (delete_key k w) = do_expires w" "verbosity (delete_key k w) = verbosity w"
  "num (delete_key k w) = num w" "out (delete_key k w) = out w"
  by (simp_all add: delete_key_def)

lemma ex_worker_simps [simp]:
  "dry_run (ex_worker force dry b) = dry" "do_force (ex_worker force dry b) = force"
  "do_gzip (ex_worker force dry b) = True" "do_expires (ex_worker force dry b) = False"
  "verbosity (ex_worker force dry b) = 1" "num (ex_worker force dry b) = 0"
  "bucket (ex_worker force dry b) = b" "calls (ex_worker force dry b) = [GetBucket ''media'']"
  "upload_count (ex_worker force dry b) = 0" "skip_count (ex_worker force dry b) = 0"
  "delete_count (ex_worker force dry b) = 0" "out (ex_worker force dry b) = [PrConnected 0]"
  by (simp_all add: ex_worker_def S3UploadWorker_def Let_def)

lemma ex_keys [simp]:
  "gz_file_key ''app.css'' = ''app.gz.css''" "gz_file_key ''old/c.css'' = ''old/c.gz.css''"
  by (simp_all add: gz_file_key_def splitext_def splitext_loop.simps)

lemma ex_env_simps [simp]:
  "files (ex_env n t fault) = [''/media/app.css'' \<mapsto> \<lparr>filedata = replicate n CHR ''a'', st_mtime = t\<rparr>]"
  "guess_type (ex_env n t fault) = (\<lambda>name. Some ''text/css'')"
  "now (ex_env n t fault) = 5000"
  "compress (ex_env n t fault) = (\<lambda>data. take 20 data)"
  "put_fault (ex_env n t fault) = fault"
  by (simp_all add: ex_env_def)

lemma ex_file_simps [simp]:
  "file_key ex_upload = ''app.css''" "filename ex_upload = ''/media/app.css''"
  "do_delete ex_upload = False"
  "file_key ex_missing = ''gone.js''" "filename ex_missing = ''/media/gone.js''"
  "do_delete ex_missing = False"
  "file_key ex_delete = ''old/c.css''" "filename ex_delete = ''/media/old/c.css''"
  "do_delete ex_delete = True"
  by (simp_all add: ex_upload_def ex_missing_def ex_delete_def do_delete_def)

lemma ex_types [simp]: "in_gzip_types (Some ''text/css'')"
  "content_type_headers (Some ''text/css'') = [''Content-Type'' \<mapsto> ''text/css'']"
  by (simp_all add: in_gzip_types_def GZIP_CONTENT_TYPES_def content_type_headers_def)

lemma ex_fault_simps [simp]: "accept_all k = None" "refuse_all err k = Some err"
  by (simp_all add: accept_all_def refuse_all_def)

lemma ex_bucket_simps [simp]:
  "ex_bucket t ''app.css'' = Some \<lparr>contents = ''old'', obj_headers = Map.empty, is_public = True,
                        last_modified = t\<rparr>"
  "k \<noteq> ''app.css'' \<Longrightarrow> ex_bucket t k = None" "no_objects k = None"
  by (simp_all add: ex_bucket_def no_objects_def)

section \<open>The steps of an upload\<close>

lemma same_config_simps [simp]:
  "same_config w w" "same_config w (say b l w') = same_config w w'"
  "same_config w (call c w') = same_config w w'"
  "same_config (say b l w) w' = same_config w w'"
  "same_config (call c w) w' = same_config w w'"
  by (auto simp: same_config_def)

lemma same_config_update [simp]:
  "same_config w (w'\<lparr>upload_count := n\<rparr>) = same_config w w'"
  "same_config w (w'\<lparr>skip_count := n\<rparr>) = same_config w w'"
  "same_config w (w'\<lparr>delete_count := n\<rparr>) = same_config w w'"
  "same_config w (w'\<lparr>bucket := b\<rparr>) = same_config w w'"
  by (simp_all add: same_config_def)

lemma same_counts_simps [simp]:
  "same_counts w w" "same_counts w (say b l w') = same_counts w w'"
  "same_counts w (call c w') = same_counts w w'"
  "same_counts (say b l w) w' = same_counts w w'"
  "same_counts (call c w) w' = same_counts w w'"
  by (auto simp: same_counts_def)

lemma put_public_accepted:
  assumes "put_fault e k = None"
  shows "\<exists>w'. put_public e k d h w = (None, w')
     \<and> calls w' = calls w @ [SetContents k d h, MakePublic k]
     \<and> bucket w' = (bucket w)(k \<mapsto> \<lparr>contents = d, obj_headers = h, is_public = True,
                                  last_modified = now e\<rparr>)
     \<and> out w' = out w \<and> same_counts w w' \<and> same_config w w'"
  using assms by (simp add: put_public_def Let_def same_counts_def same_config_def)

lemma put_public_refused:
  assumes "put_fault e k = Some err"
  shows "\<exists>w'. put_public e k d h w = (Some err, w')
     \<and> calls w' = calls w @ [SetContents k d h] \<and> bucket w' = bucket w
     \<and> out w' = out w \<and> same_counts w w' \<and> same_config w w'"
  using assms by (simp add: put_public_def Let_def same_counts_def same_config_def)

lemma upload_try_dry:
  "dry_run w \<Longrightarrow> upload_try e w key d ct h = (None, w)"
  by (simp add: upload_try_def Let_def)

lemma upload_try_refused:
  assumes "\<not> dry_run w" "put_fault e key = Some err"
  shows "\<exists>w'. upload_try e w key d ct h = (Some err, w')
     \<and> calls w' = calls w @ [SetContents key d h] \<and> bucket w' = bucket w
     \<and> out w' = out w \<and> same_counts w w' \<and> same_config w w'"
proof -
  from put_public_refused [OF assms(2), of d h w] obtain w1 where
    "put_public e key d h w = (Some err, w1)"
    "calls w1 = calls w @ [SetContents key d h]" "bucket w1 = bucket w"
    "out w1 = out w" "same_counts w w1" "same_config w w1" by blast
  with assms(1) show ?thesis by (simp add: upload_try_def Let_def)
qed

lemma upload_try_plain:
  assumes "\<not> dry_run w" "put_fault e key = None"
    and "\<not> (do_gzip w \<and> 1024 < length d \<and> in_gzip_types ct)"
  shows "\<exists>w'. upload_try e w key d ct h = (None, w')
     \<and> calls w' = calls w @ [SetContents key d h, MakePublic key]
     \<and> bucket w' = (bucket w)(key \<mapsto> \<lparr>contents = d, obj_headers = h, is_public = True,
                                    last_modified = now e\<rparr>)
     \<and> same_counts w w' \<and> same_config w w'"
proof -
  from put_public_accepted [OF assms(2), of d h w] obtain w1 where w1:
    "put_public e key d h w = (None, w1)"
    "calls w1 = calls w @ [SetContents key d h, MakePublic key]"
    "bucket w1 = (bucket w)(key \<mapsto> \<lparr>contents = d, obj_headers = h, is_public = True,
                                    last_modified = now e\<rparr>)"
    "same_counts w w1" "same_config w w1" by blast
  from w1(5) have cfg: "do_gzip w1 = do_gzip w" "dry_run w1 = dry_run w"
    by (simp_all add: same_config_def)
  from assms(1,3) w1 cfg show ?thesis by (auto simp: upload_try_def Let_def)
qed

lemma upload_try_gzip:
  assumes "\<not> dry_run w" "put_fault e key = None"
    and "do_gzip w" "1024 < length d" "in_gzip_types ct"
    and "put_fault e (gz_file_key key) = None"
  shows "\<exists>w'. upload_try e w key d ct h = (None, w')
     \<and> calls w' = calls w @ [SetContents key d h, MakePublic key,
          SetContents (gz_file_key key) (compress e d) (h(''Content-Encoding'' \<mapsto> ''gzip'')),
          MakePublic (gz_file_key key)]
     \<and> bucket w' = (bucket w)
          (key \<mapsto> \<lparr>contents = d, obj_headers = h, is_public = True, last_modified = now e\<rparr>,
           gz_file_key key \<mapsto> \<lparr>contents = compress e d,
              obj_headers = h(''Content-Encoding'' \<mapsto> ''gzip''), is_public = True,
              last_modified = now e\<rparr>)
     \<and> same_counts w w' \<and> same_config w w'"
proof -
  let ?g = "gz_file_key key" and ?h = "h(''Content-Encoding'' \<mapsto> ''gzip'')"
  from put_public_accepted [OF assms(2), of d h w] obtain w1 where w1:
    "put_public e key d h w = (None, w1)"
    "calls w1 = calls w @ [SetContents key d h, MakePublic key]"
    "bucket w1 = (bucket w)(key \<mapsto> \<lparr>contents = d, obj_headers = h, is_public = True,
                                    last_modified = now e\<rparr>)"
    "same_counts w w1" "same_config w w1" by blast
  from put_public_accepted [OF assms(6), of "compress e d" ?h w1] obtain w2 where w2:
    "put_public e ?g (compress e d) ?h w1 = (None, w2)"
    "calls w2 = calls w1 @ [SetContents ?g (compress e d) ?h, MakePublic ?g]"
    "bucket w2 = (bucket w1)(?g \<mapsto> \<lparr>contents = compress e d, obj_headers = ?h,
                                     is_public = True, last_modified = now e\<rparr>)"
    "same_counts w1 w2" "same_config w1 w2" by blast
  from w1(5) have cfg: "do_gzip w1 = do_gzip w" "dry_run w1 = dry_run w"
    by (simp_all add: same_config_def)
  from w1(4,5) w2(4,5) have "same_counts w w2" "same_config w w2"
    by (simp_all add: same_counts_def same_config_def)
  with assms(1,3,4,5) w1 w2 cfg show ?thesis by (simp add: upload_try_def Let_def)
qed

lemma upload_try_gzip_refused:
  assumes "\<not> dry_run w" "put_fault e key = None"
    and "do_gzip w" "1024 < length d" "in_gzip_types ct"
    and "put_fault e (gz_file_key key) = Some err"
  shows "\<exists>w'. upload_try e w key d ct h = (Some err, w')
     \<and> calls w' = calls w @ [SetContents key d h, MakePublic key,
          SetContents (gz_file_key key) (compress e d) (h(''Content-Encoding'' \<mapsto> ''gzip''))]
     \<and> bucket w' = (bucket w)
          (key \<mapsto> \<lparr>contents = d, obj_headers = h, is_public = True, last_modified = now e\<rparr>)
     \<and> same_counts w w' \<and> same_config w w'"
proof -
  let ?g = "gz_file_key key" and ?h = "h(''Content-Encoding'' \<mapsto> ''gzip'')"
  from put_public_accepted [OF assms(2), of d h w] obtain w1 where w1:
    "put_public e key d h w = (None, w1)"
    "calls w1 = calls w @ [SetContents key d h, MakePublic key]"
    "bucket w1 = (bucket w)(key \<mapsto> \<lparr>contents = d, obj_headers = h, is_public = True,
                                    last_modified = now e\<rparr>)"
    "same_counts w w1" "same_config w w1" by blast
  from put_public_refused [OF assms(6), of "compress e d" ?h w1] obtain w2 where w2:
    "put_public e ?g (compress e d) ?h w1 = (Some err, w2)"
    "calls w2 = calls w1 @ [SetContents ?g (compress e d) ?h]"
    "bucket w2 = bucket w1"
    "same_counts w1 w2" "same_config w1 w2" by blast
  from w1(5) have cfg: "do_gzip w1 = do_gzip w" "dry_run w1 = dry_run w"
    by (simp_all add: same_config_def)
  from w1(4,5) w2(4,5) have "same_counts w w2" "same_config w w2"
    by (simp_all add: same_counts_def same_config_def)
  with assms(1,3,4,5) w1 w2 cfg show ?thesis by (simp add: upload_try_def Let_def)
qed

lemma print_expires_simps [simp]:
  "bucket (print_expires e w) = bucket w" "calls (print_expires e w) = calls w"
  "same_config w' (print_expires e w) = same_config w' w"
  "same_counts w' (print_expires e w) = same_counts w' w"
  "same_config (print_expires e w) w' = same_config w w'"
  "same_counts (print_expires e w) w' = same_counts w w'"
  "dry_run (print_expires e w) = dry_run w" "do_gzip (print_expires e w) = do_gzip w"
  "do_force (print_expires e w) = do_force w" "do_expires (print_expires e w) = do_expires w"
  "verbosity (print_expires e w) = verbosity w" "num (print_expires e w) = num w"
  "upload_count (print_expires e w) = upload_count w"
  "skip_count (print_expires e w) = skip_count w"
  "delete_count (print_expires e w) = delete_count w"
  by (simp_all add: print_expires_def)

lemma upload_except_None:
  "upload_except (None, w) = (None, w\<lparr>upload_count := upload_count w + 1\<rparr>)"
  by (simp add: upload_except_def)

lemma upload_except_Some:
  "upload_except (Some err, w) =
     (if err = S3CreateError then None else Some err,
      say True (if err = S3CreateError then PrFailed err else PrException err) w)"
  by (cases err) (simp_all add: upload_except_def)

lemma upload_write_present:
  "files e (filename f) = Some lf \<Longrightarrow>
   upload_write e w f ct h =
     upload_except (upload_try e
        (print_expires e (say (0 < verbosity w) (PrUploading (file_key f) (num w)) w))
        (file_key f) (filedata lf) ct (add_expires e (do_expires w) h))"
  by (simp add: upload_write_def Let_def)

lemma upload_write_missing:
  assumes "files e (filename f) = None"
  shows "upload_write e w f ct h =
           (Some IOError, say (0 < verbosity w) (PrUploading (file_key f) (num w)) w)"
  using assms by (simp add: upload_write_def Let_def)

lemma upload_write_dry:
  assumes "files e (filename f) = Some lf" "dry_run w"
  shows "\<exists>w'. upload_write e w f ct h = (None, w')
     \<and> calls w' = calls w \<and> bucket w' = bucket w
     \<and> upload_count w' = upload_count w + 1 \<and> skip_count w' = skip_count w
     \<and> delete_count w' = delete_count w \<and> same_config w w'"
  using assms
  by (simp add: upload_write_present upload_try_dry upload_except_None same_config_def
        print_expires_def)

lemma upload_write_refused:
  assumes "files e (filename f) = Some lf" "\<not> dry_run w" "put_fault e (file_key f) = Some err"
  shows "\<exists>w'. upload_write e w f ct h = (if err = S3CreateError then None else Some err, w')
     \<and> calls w' = calls w @ [SetContents (file_key f) (filedata lf) (add_expires e (do_expires w) h)]
     \<and> bucket w' = bucket w \<and> same_counts w w' \<and> same_config w w'
     \<and> last (out w') = (if err = S3CreateError then PrFailed err else PrException err)"
proof -
  let ?w1 = "print_expires e (say (0 < verbosity w) (PrUploading (file_key f) (num w)) w)"
  have d: "\<not> dry_run ?w1" using assms(2) by simp
  from upload_try_refused [OF d assms(3), of "filedata lf" ct "add_expires e (do_expires w) h"]
  obtain w2 where w2:
    "upload_try e ?w1 (file_key f) (filedata lf) ct (add_expires e (do_expires w) h) = (Some err, w2)"
    "calls w2 = calls ?w1 @ [SetContents (file_key f) (filedata lf) (add_expires e (do_expires w) h)]"
    "bucket w2 = bucket ?w1" "same_counts ?w1 w2" "same_config ?w1 w2" by blast
  from w2 assms(1) show ?thesis
    by (simp add: upload_write_present upload_except_Some)
qed

lemma upload_write_plain:
  assumes "files e (filename f) = Some lf" "\<not> dry_run w" "put_fault e (file_key f) = None"
    and "\<not> (do_gzip w \<and> 1024 < length (filedata lf) \<and> in_gzip_types ct)"
  shows "\<exists>w'. upload_write e w f ct h = (None, w')
     \<and> calls w' = calls w @ [SetContents (file_key f) (filedata lf) (add_expires e (do_expires w) h),
                              MakePublic (file_key f)]
     \<and> bucket w' = (bucket w)(file_key f \<mapsto> \<lparr>contents = filedata lf,
            obj_headers = add_expires e (do_expires w) h, is_public = True, last_modified = now e\<rparr>)
     \<and> upload_count w' = upload_count w + 1 \<and> skip_count w' = skip_count w
     \<and> delete_count w' = delete_count w \<and> same_config w w'"
proof -
  let ?w1 = "print_expires e (say (0 < verbosity w) (PrUploading (file_key f) (num w)) w)"
  have d: "\<not> dry_run ?w1" using assms(2) by simp
  have g: "\<not> (do_gzip ?w1 \<and> 1024 < length (filedata lf) \<and> in_gzip_types ct)"
    using assms(4) by simp
  from upload_try_plain [OF d assms(3) g, of "add_expires e (do_expires w) h"]
  obtain w2 where w2:
    "upload_try e ?w1 (file_key f) (filedata lf) ct (add_expires e (do_expires w) h) = (None, w2)"
    "calls w2 = calls ?w1 @ [SetContents (file_key f) (filedata lf) (add_expires e (do_expires w) h),
                             MakePublic (file_key f)]"
    "bucket w2 = (bucket ?w1)(file_key f \<mapsto> \<lparr>contents = filedata lf,
            obj_headers = add_expires e (do_expires w) h, is_public = True, last_modified = now e\<rparr>)"
    "same_counts ?w1 w2" "same_config ?w1 w2" by blast
  from w2 assms(1) show ?thesis
    by (simp add: upload_write_present upload_except_None same_counts_def same_config_def)
qed

lemma upload_write_gzip:
  assumes "files e (filename f) = Some lf" "\<not> dry_run w" "put_fault e (file_key f) = None"
    and "do_gzip w" "1024 < length (filedata lf)" "in_gzip_types ct"
    and "put_fault e (gz_file_key (file_key f)) = None"
  shows "\<exists>w'. upload_write e w f ct h = (None, w')
     \<and> calls w' = calls w @ [SetContents (file_key f) (filedata lf) (add_expires e (do_expires w) h),
          MakePublic (file_key f),
          SetContents (gz_file_key (file_key f)) (compress e (filedata lf))
            ((add_expires e (do_expires w) h)(''Content-Encoding'' \<mapsto> ''gzip'')),
          MakePublic (gz_file_key (file_key f))]
     \<and> bucket w' = (bucket w)
          (file_key f \<mapsto> \<lparr>contents = filedata lf, obj_headers = add_expires e (do_expires w) h,
              is_public = True, last_modified = now e\<rparr>,
           gz_file_key (file_key f) \<mapsto> \<lparr>contents = compress e (filedata lf),
              obj_headers = (add_expires e (do_expires w) h)(''Content-Encoding'' \<mapsto> ''gzip''),
              is_public = True, last_modified = now e\<rparr>)
     \<and> upload_count w' = upload_count w + 1 \<and> skip_count w' = skip_count w
     \<and> delete_count w' = delete_count w \<and> same_config w w'"
proof -
  let ?w1 = "print_expires e (say (0 < verbosity w) (PrUploading (file_key f) (num w)) w)"
  have d: "\<not> dry_run ?w1" using assms(2) by simp
  have g: "do_gzip ?w1" using assms(4) by simp
  from upload_try_gzip [OF d assms(3) g assms(5,6,7), of "add_expires e (do_expires w) h"]
  obtain w2 where w2:
    "upload_try e ?w1 (file_key f) (filedata lf) ct (add_expires e (do_expires w) h) = (None, w2)"
    "calls w2 = calls ?w1 @ [SetContents (file_key f) (filedata lf) (add_expires e (do_expires w) h),
          MakePublic (file_key f),
          SetContents (gz_file_key (file_key f)) (compress e (filedata lf))
            ((add_expires e (do_expires w) h)(''Content-Encoding'' \<mapsto> ''gzip'')),
          MakePublic (gz_file_key (file_key f))]"
    "bucket w2 = (bucket ?w1)
          (file_key f \<mapsto> \<lparr>contents = filedata lf, obj_headers = add_expires e (do_expires w) h,
              is_public = True, last_modified = now e\<rparr>,
           gz_file_key (file_key f) \<mapsto> \<lparr>contents = compress e (filedata lf),
              obj_headers = (add_expires e (do_expires w) h)(''Content-Encoding'' \<mapsto> ''gzip''),
              is_public = True, last_modified = now e\<rparr>)"
    "same_counts ?w1 w2" "same_config ?w1 w2" by blast
  from w2 assms(1) show ?thesis
    by (simp add: upload_write_present upload_except_None same_counts_def same_config_def)
qed

lemma upload_write_gzip_refused:
  assumes "files e (filename f) = Some lf" "\<not> dry_run w" "put_fault e (file_key f) = None"
    and "do_gzip w" "1024 < length (filedata lf)" "in_gzip_types ct"
    and "put_fault e (gz_file_key (file_key f)) = Some err"
  shows "\<exists>w'. upload_write e w f ct h = (if err = S3CreateError then None else Some err, w')
     \<and> calls w' = calls w @ [SetContents (file_key f) (filedata lf) (add_expires e (do_expires w) h),
          MakePublic (file_key f),
          SetContents (gz_file_key (file_key f)) (compress e (filedata lf))
            ((add_expires e (do_expires w) h)(''Content-Encoding'' \<mapsto> ''gzip''))]
     \<and> bucket w' = (bucket w)
          (file_key f \<mapsto> \<lparr>contents = filedata lf, obj_headers = add_expires e (do_expires w) h,
              is_public = True, last_modified = now e\<rparr>)
     \<and> same_counts w w' \<and> same_config w w'
     \<and> last (out w') = (if err = S3CreateError then PrFailed err else PrException err)"
proof -
  let ?w1 = "print_expires e (say (0 < verbosity w) (PrUploading (file_key f) (num w)) w)"
  have d: "\<not> dry_run ?w1" using assms(2) by simp
  have g: "do_gzip ?w1" using assms(4) by simp
  from upload_try_gzip_refused [OF d assms(3) g assms(5,6,7), of "add_expires e (do_expires w) h"]
  obtain w2 where w2:
    "upload_try e ?w1 (file_key f) (filedata lf) ct (add_expires e (do_expires w) h) = (Some err, w2)"
    "calls w2 = calls ?w1 @ [SetContents (file_key f) (filedata lf) (add_expires e (do_expires w) h),
          MakePublic (file_key f),
          SetContents (gz_file_key (file_key f)) (compress e (filedata lf))
            ((add_expires e (do_expires w) h)(''Content-Encoding'' \<mapsto> ''gzip''))]"
    "bucket w2 = (bucket ?w1)
          (file_key f \<mapsto> \<lparr>contents = filedata lf, obj_headers = add_expires e (do_expires w) h,
              is_public = True, last_modified = now e\<rparr>)"
    "same_counts ?w1 w2" "same_config ?w1 w2" by blast
  from w2 assms(1) show ?thesis
    by (simp add: upload_write_present upload_except_Some)
qed

lemma same_config_trans: "same_config a b \<Longrightarrow> same_config b c \<Longrightarrow> same_config a c"
  by (simp add: same_config_def)

lemma same_counts_trans: "same_counts a b \<Longrightarrow> same_counts b c \<Longrightarrow> same_counts a c"
  by (simp add: same_counts_def)

lemma put_public_frame:
  "put_public e k d h w = (x, w') \<Longrightarrow> same_config w w' \<and> same_counts w w'"
  by (cases "put_fault e k")
     (auto simp: put_public_def Let_def same_config_def same_counts_def)

lemma upload_try_frame:
  assumes "upload_try e w key d ct h = (x, w')"
  shows "same_config w w' \<and> same_counts w w'"
proof (cases "dry_run w")
  case True
  with assms show ?thesis by (simp add: upload_try_dry)
next
  case False
  obtain x1 w1 where p1: "put_public e key d h w = (x1, w1)" by (cases "put_public e key d h w")
  note f1 = put_public_frame [OF p1]
  then have cfg: "do_gzip w1 = do_gzip w" "dry_run w1 = dry_run w" by (simp_all add: same_config_def)
  obtain x2 w2 where p2: "put_public e (gz_file_key key) (compress e d)
      (h(''Content-Encoding'' \<mapsto> ''gzip'')) w1 = (x2, w2)"
    by (cases "put_public e (gz_file_key key) (compress e d) (h(''Content-Encoding'' \<mapsto> ''gzip'')) w1")
  note f2 = put_public_frame [OF p2]
  from f1 f2 have f12: "same_config w w2 \<and> same_counts w w2"
    by (simp add: same_config_def same_counts_def)
  from assms False p1 p2 cfg f1 f12 show ?thesis
    by (auto simp: upload_try_def Let_def split: option.splits if_splits)
qed

lemma upload_write_frame:
  assumes "upload_write e w f ct h = (x, w')"
  shows "same_config w w' \<and> skip_count w' = skip_count w \<and> delete_count w' = delete_count w"
proof (cases "files e (filename f)")
  case None
  with assms show ?thesis by (auto simp: upload_write_missing)
next
  case (Some lf)
  let ?w1 = "print_expires e (say (0 < verbosity w) (PrUploading (file_key f) (num w)) w)"
  obtain x2 w2 where t: "upload_try e ?w1 (file_key f) (filedata lf) ct
       (add_expires e (do_expires w) h) = (x2, w2)"
    by (cases "upload_try e ?w1 (file_key f) (filedata lf) ct (add_expires e (do_expires w) h)")
  from upload_try_frame [OF t] have fr: "same_config w w2" "same_counts w w2" by simp_all
  from fr(2) have cnt: "skip_count w2 = skip_count w" "delete_count w2 = delete_count w"
    by (simp_all add: same_counts_def)
  from Some t have uw: "upload_write e w f ct h = upload_except (x2, w2)"
    by (simp add: upload_write_present)
  show ?thesis
  proof (cases x2)
    case None
    with uw assms have "w' = w2\<lparr>upload_count := upload_count w2 + 1\<rparr>"
      by (simp add: upload_except_None)
    with fr(1) cnt show ?thesis by simp
  next
    case (Some err)
    with uw assms have
      "w' = say True (if err = S3CreateError then PrFailed err else PrException err) w2"
      by (simp add: upload_except_Some)
    with fr(1) cnt show ?thesis by simp
  qed
qed

lemma upload_s3_cases:
  "upload_s3 e w f =
     (if do_force w then
        upload_write e w f (guess_type e (filename f)) (content_type_headers (guess_type e (filename f)))
      else case bucket w (file_key f) of
        None \<Rightarrow> upload_write e (call (GetKey (file_key f)) w) f (guess_type e (filename f))
                  (content_type_headers (guess_type e (filename f)))
      | Some k \<Rightarrow>
         (case files e (filename f) of
            None \<Rightarrow> (Some OSError, call (GetKey (file_key f)) w)
          | Some lf \<Rightarrow>
              if st_mtime lf < last_modified k
              then (None, say (1 < verbosity w) (PrNotChanged (file_key f))
                      ((call (GetKey (file_key f)) w)\<lparr>skip_count := skip_count w + 1\<rparr>))
              else upload_write e (call (GetKey (file_key f)) w) f (guess_type e (filename f))
                  (content_type_headers (guess_type e (filename f)))))"
  by (simp add: upload_s3_def Let_def split: option.splits)

lemma upload_s3_frame:
  assumes "upload_s3 e w f = (x, w')"
  shows "same_config w w' \<and> delete_count w' = delete_count w"
  using assms upload_write_frame [of e w f _ _ x w']
    upload_write_frame [of e "call (GetKey (file_key f)) w" f _ _ x w']
  by (auto simp: upload_s3_cases same_config_def split: if_splits option.splits)

lemma upload_s3_force:
  assumes "do_force w" "upload_s3 e w f = (x, w')"
  shows "skip_count w' = skip_count w"
  using assms upload_write_frame [of e w f _ _ x w'] by (simp add: upload_s3_cases)

lemma delete_s3_frame:
  assumes "delete_s3 w f = (x, w')"
  shows "x = None \<and> same_config w w' \<and> skip_count w' = skip_count w
     \<and> upload_count w' = upload_count w \<and> delete_count w' = delete_count w + 1"
  using assms by (auto simp: delete_s3_def Let_def same_config_def split: if_splits)

lemma upload_s3_write:
  assumes "files e (filename f) = Some lf"
    and "do_force w \<or> (\<forall>k. bucket w (file_key f) = Some k \<longrightarrow> last_modified k \<le> st_mtime lf)"
  shows "upload_s3 e w f =
      upload_write e (if do_force w then w else call (GetKey (file_key f)) w) f
        (guess_type e (filename f)) (content_type_headers (guess_type e (filename f)))"
  using assms by (auto simp: upload_s3_cases split: option.splits)

lemma upload_skip_strict:
  assumes "\<not> do_force w" "bucket w (file_key f) = Some k" "files e (filename f) = Some lf"
    "st_mtime lf < last_modified k" "upload_s3 e w f = (x, w')"
  shows "x = None \<and> skip_count w' = skip_count w + 1 \<and> upload_count w' = upload_count w
    \<and> calls w' = calls w @ [GetKey (file_key f)] \<and> bucket w' = bucket w"
  using assms by (auto simp: upload_s3_cases)

lemma upload_try_sends:
  assumes "\<not> dry_run w" "upload_try e w key d ct h = (x, w')"
  shows "\<exists>rest. calls w' = calls w @ SetContents key d h # rest"
proof (cases "put_fault e key")
  case (Some err)
  from upload_try_refused [OF assms(1) Some, of d ct h] assms(2) show ?thesis by auto
next
  case None
  show ?thesis
  proof (cases "do_gzip w \<and> 1024 < length d \<and> in_gzip_types ct")
    case False
    from upload_try_plain [OF assms(1) None False, of h] assms(2) show ?thesis by auto
  next
    case True
    then have g: "do_gzip w" "1024 < length d" "in_gzip_types ct" by simp_all
    show ?thesis
    proof (cases "put_fault e (gz_file_key key)")
      case None
      from upload_try_gzip [OF assms(1) \<open>put_fault e key = None\<close> g None, of h] assms(2)
      show ?thesis by auto
    next
      case (Some err)
      from upload_try_gzip_refused [OF assms(1) \<open>put_fault e key = None\<close> g Some, of h] assms(2)
      show ?thesis by auto
    qed
  qed
qed

lemma upload_write_sends:
  assumes "files e (filename f) = Some lf" "\<not> dry_run w" "upload_write e w f ct h = (x, w')"
  shows "\<exists>rest. calls w' = calls w @
           SetContents (file_key f) (filedata lf) (add_expires e (do_expires w) h) # rest"
proof -
  let ?w1 = "print_expires e (say (0 < verbosity w) (PrUploading (file_key f) (num w)) w)"
  obtain x2 w2 where t: "upload_try e ?w1 (file_key f) (filedata lf) ct
       (add_expires e (do_expires w) h) = (x2, w2)"
    by (cases "upload_try e ?w1 (file_key f) (filedata lf) ct (add_expires e (do_expires w) h)")
  have "\<not> dry_run ?w1" using assms(2) by simp
  from upload_try_sends [OF this t] obtain rest where
    c: "calls w2 = calls w @ SetContents (file_key f) (filedata lf)
           (add_expires e (do_expires w) h) # rest" by auto
  from assms(1) t have uw: "upload_write e w f ct h = upload_except (x2, w2)"
    by (simp add: upload_write_present)
  show ?thesis
  proof (cases x2)
    case None
    with uw assms(3) c show ?thesis by (auto simp: upload_except_None)
  next
    case (Some err)
    with uw assms(3) c show ?thesis by (auto simp: upload_except_Some)
  qed
qed

lemma upload_s3_missing:
  assumes "files e (filename f) = None"
  shows "\<exists>err w'. upload_s3 e w f = (Some err, w') \<and> (err = IOError \<or> err = OSError)
     \<and> same_counts w w' \<and> bucket w' = bucket w
     \<and> out w' = out w @ (if 0 < verbosity w \<and> err = IOError
                          then [PrUploading (file_key f) (num w)] else [])"
  using assms
  by (cases "bucket w (file_key f)")
     (auto simp: upload_s3_cases upload_write_missing)

section \<open>The loop of a worker\<close>

lemma execute_frame:
  assumes "execute e w f = (x, w')"
  shows "same_config w w'"
  using assms upload_s3_frame [of e w f x w'] delete_s3_frame [of w f x w']
  by (simp add: execute_def split: if_splits)

lemma run_loop_step:
  "execute e w f = (None, w') \<Longrightarrow> run_loop e w (f # q) = run_loop e w' q"
  "execute e w f = (Some err, w') \<Longrightarrow> run_loop e w (f # q) = (Some err, w', q)"
  by simp_all

lemma run_step:
  "execute e w f = (None, w') \<Longrightarrow> run e w (f # q) = run e w' q"
  "execute e w f = (Some err, w') \<Longrightarrow> run e w (f # q) = (Some err, w', q)"
  by (simp_all add: run_def)

lemma run_loop_frame:
  "run_loop e w q = (x, w', rest) \<Longrightarrow> same_config w w' \<and> length rest \<le> length q"
proof (induction q arbitrary: w)
  case Nil
  then show ?case by simp
next
  case (Cons f q)
  obtain x1 w1 where ex: "execute e w f = (x1, w1)" by (cases "execute e w f")
  note fr = execute_frame [OF ex]
  show ?case
  proof (cases x1)
    case None
    with ex Cons.prems have "run_loop e w1 q = (x, w', rest)" by simp
    from Cons.IH [OF this] fr show ?thesis by (auto intro: same_config_trans)
  next
    case (Some err)
    with ex Cons.prems fr show ?thesis by simp
  qed
qed

lemma run_frame:
  assumes "run e w q = (x, w', rest)"
  shows "same_config w w' \<and> length rest \<le> length q"
proof -
  obtain x1 w1 r1 where rl: "run_loop e w q = (x1, w1, r1)" by (cases "run_loop e w q") auto
  note fr = run_loop_frame [OF rl]
  from rl assms fr show ?thesis
    by (cases x1) (auto simp: run_def Let_def)
qed

lemma run_fields:
  assumes "run_loop e w q = (x, w', rest)"
  shows "\<exists>w''. run e w q = (x, w'', rest) \<and> calls w'' = calls w' \<and> bucket w'' = bucket w'
     \<and> same_counts w' w'' \<and> same_config w' w''"
  using assms by (cases x) (auto simp: run_def Let_def)

section \<open>The requests of a job and of a run\<close>

lemma upload_try_writes:
  assumes "upload_try e w key d ct h = (x, w')"
  shows "\<exists>rest. calls w' = calls w @ rest \<and> list_all is_write rest
     \<and> (dry_run w \<longrightarrow> rest = [] \<and> bucket w' = bucket w)"
proof (cases "dry_run w")
  case True
  with assms show ?thesis by (simp add: upload_try_dry)
next
  case dry: False
  show ?thesis
  proof (cases "put_fault e key")
    case (Some err)
    from upload_try_refused [OF dry Some, of d ct h] assms dry show ?thesis by auto
  next
    case None
    show ?thesis
    proof (cases "do_gzip w \<and> 1024 < length d \<and> in_gzip_types ct")
      case False
      from upload_try_plain [OF dry None False, of h] assms dry show ?thesis by auto
    next
      case True
      then have g: "do_gzip w" "1024 < length d" "in_gzip_types ct" by simp_all
      show ?thesis
      proof (cases "put_fault e (gz_file_key key)")
        case None
        from upload_try_gzip [OF dry \<open>put_fault e key = None\<close> g None, of h] assms dry
        show ?thesis by auto
      next
        case (Some err)
        from upload_try_gzip_refused [OF dry \<open>put_fault e key = None\<close> g Some, of h] assms dry
        show ?thesis by auto
      qed
    qed
  qed
qed

lemma upload_write_writes:
  assumes "upload_write e w f ct h = (x, w')"
  shows "\<exists>rest. calls w' = calls w @ rest \<and> list_all is_write rest
     \<and> (dry_run w \<longrightarrow> rest = [] \<and> bucket w' = bucket w)"
proof (cases "files e (filename f)")
  case None
  with assms show ?thesis by (auto simp: upload_write_missing)
next
  case (Some lf)
  let ?w1 = "print_expires e (say (0 < verbosity w) (PrUploading (file_key f) (num w)) w)"
  obtain x2 w2 where t: "upload_try e ?w1 (file_key f) (filedata lf) ct
       (add_expires e (do_expires w) h) = (x2, w2)"
    by (cases "upload_try e ?w1 (file_key f) (filedata lf) ct (add_expires e (do_expires w) h)")
  from upload_try_writes [OF t] obtain rest where r: "calls w2 = calls w @ rest"
    "list_all is_write rest" "dry_run w \<longrightarrow> rest = [] \<and> bucket w2 = bucket w" by auto
  from Some t have uw: "upload_write e w f ct h = upload_except (x2, w2)"
    by (simp add: upload_write_present)
  show ?thesis
  proof (cases x2)
    case None
    with uw assms r show ?thesis by (auto simp: upload_except_None)
  next
    case (Some err)
    with uw assms r show ?thesis by (auto simp: upload_except_Some)
  qed
qed

lemma upload_s3_calls:
  assumes "upload_s3 e w f = (x, w')"
  shows "\<exists>rest. calls w' = calls w @ (if do_force w then [] else [GetKey (file_key f)]) @ rest
     \<and> list_all is_write rest \<and> (dry_run w \<longrightarrow> rest = [] \<and> bucket w' = bucket w)"
proof -
  let ?ct = "guess_type e (filename f)"
  let ?w0 = "if do_force w then w else call (GetKey (file_key f)) w"
  have w0: "calls ?w0 = calls w @ (if do_force w then [] else [GetKey (file_key f)])"
    "bucket ?w0 = bucket w" "dry_run ?w0 = dry_run w" by simp_all
  show ?thesis
  proof (cases "upload_s3 e w f = upload_write e ?w0 f ?ct (content_type_headers ?ct)")
    case True
    with assms have "upload_write e ?w0 f ?ct (content_type_headers ?ct) = (x, w')" by simp
    from upload_write_writes [OF this] w0 show ?thesis by auto
  next
    case False
    then have nf: "\<not> do_force w" by (auto simp: upload_s3_cases)
    with False obtain k where k: "bucket w (file_key f) = Some k"
      by (cases "bucket w (file_key f)") (auto simp: upload_s3_cases)
    show ?thesis
    proof (cases "files e (filename f)")
      case None
      with nf k assms show ?thesis by (auto simp: upload_s3_cases)
    next
      case (Some lf)
      with nf k False have "st_mtime lf < last_modified k"
        by (auto simp: upload_s3_cases split: if_splits)
      with nf k Some assms show ?thesis by (auto simp: upload_s3_cases)
    qed
  qed
qed

lemma lookups_simps [simp]:
  "lookups [] = []"
  "lookups (f # q) = (if do_delete f then lookups q else GetKey (file_key f) # lookups q)"
  by (simp_all add: lookups_def)

lemma execute_dry:
  assumes "dry_run w" "execute e w f = (x, w')"
  shows "bucket w' = bucket w \<and> calls w' = calls w @ (if do_force w then [] else lookups [f])"
proof (cases "do_delete f")
  case True
  with assms show ?thesis by (auto simp: execute_def delete_s3_def Let_def)
next
  case False
  with assms have "upload_s3 e w f = (x, w')" by (simp add: execute_def)
  from upload_s3_calls [OF this] assms(1) False show ?thesis by auto
qed

lemma run_loop_dry:
  "dry_run w \<Longrightarrow> run_loop e w q = (x, w', rest) \<Longrightarrow>
     bucket w' = bucket w
     \<and> calls w' = calls w @ (if do_force w then [] else lookups (take (length q - length rest) q))"
proof (induction q arbitrary: w)
  case Nil
  then show ?case by simp
next
  case (Cons f q)
  obtain x1 w1 where ex: "execute e w f = (x1, w1)" by (cases "execute e w f")
  from execute_frame [OF ex] Cons.prems(1) have cfg: "dry_run w1" "do_force w1 = do_force w"
    by (simp_all add: same_config_def)
  note d = execute_dry [OF Cons.prems(1) ex]
  show ?case
  proof (cases x1)
    case (Some err)
    with ex Cons.prems(2) d show ?thesis by auto
  next
    case None
    with ex Cons.prems(2) have rl: "run_loop e w1 q = (x, w', rest)" by simp
    from run_loop_frame [OF rl] have "length rest \<le> length q" by simp
    then have "length (f # q) - length rest = Suc (length q - length rest)" by simp
    with Cons.IH [OF cfg(1) rl] d cfg(2) show ?thesis by auto
  qed
qed

lemma execute_force:
  assumes "do_force w" "execute e w f = (x, w')"
  shows "skip_count w' = skip_count w
     \<and> (\<forall>k. GetKey k \<in> set (calls w') \<longrightarrow>
            GetKey k \<in> set (calls w) \<or> (do_delete f \<and> k = gz_file_key (file_key f)))"
proof (cases "do_delete f")
  case True
  with assms(2) show ?thesis by (auto simp: execute_def delete_s3_def Let_def split: if_splits)
next
  case False
  with assms have u: "upload_s3 e w f = (x, w')" by (simp add: execute_def)
  from upload_s3_calls [OF u] assms(1) obtain rest where
    r: "calls w' = calls w @ rest" "list_all is_write rest" by auto
  have "GetKey k \<notin> set rest" for k
    using r(2) by (auto simp: list_all_iff)
  with r(1) upload_s3_force [OF assms(1) u] show ?thesis by auto
qed

lemma run_loop_force:
  "do_force w \<Longrightarrow> run_loop e w q = (x, w', rest) \<Longrightarrow>
     skip_count w' = skip_count w
     \<and> (\<forall>k. GetKey k \<in> set (calls w') \<longrightarrow>
            GetKey k \<in> set (calls w) \<or> (\<exists>f\<in>set q. do_delete f \<and> k = gz_file_key (file_key f)))"
proof (induction q arbitrary: w)
  case Nil
  then show ?case by simp
next
  case (Cons f q)
  obtain x1 w1 where ex: "execute e w f = (x1, w1)" by (cases "execute e w f")
  from execute_frame [OF ex] Cons.prems(1) have cfg: "do_force w1" by (simp add: same_config_def)
  note d = execute_force [OF Cons.prems(1) ex]
  show ?case
  proof (cases x1)
    case (Some err)
    with ex Cons.prems(2) d show ?thesis by auto
  next
    case None
    with ex Cons.prems(2) have rl: "run_loop e w1 q = (x, w', rest)" by simp
    from Cons.IH [OF cfg rl] d show ?thesis by auto
  qed
qed

lemma execute_appends:
  assumes "execute e w f = (x, w')"
  shows "\<exists>more. calls w' = calls w @ more"
proof (cases "do_delete f")
  case True
  with assms show ?thesis by (auto simp: execute_def delete_s3_def Let_def split: if_splits)
next
  case False
  with assms have "upload_s3 e w f = (x, w')" by (simp add: execute_def)
  from upload_s3_calls [OF this] show ?thesis by auto
qed

lemma run_loop_appends:
  "run_loop e w q = (x, w', rest) \<Longrightarrow> \<exists>more. calls w' = calls w @ more"
proof (induction q arbitrary: w)
  case Nil
  then show ?case by simp
next
  case (Cons f q)
  obtain x1 w1 where ex: "execute e w f = (x1, w1)" by (cases "execute e w f")
  from execute_appends [OF ex] obtain m1 where m1: "calls w1 = calls w @ m1" by blast
  show ?case
  proof (cases x1)
    case (Some err)
    with ex Cons.prems m1 show ?thesis by auto
  next
    case None
    with ex Cons.prems have rl: "run_loop e w1 q = (x, w', rest)" by simp
    from Cons.IH [OF rl] m1 show ?thesis by auto
  qed
qed

lemma run_loop_returns:
  "run_loop e w q = (None, w', rest) \<Longrightarrow> rest = []"
proof (induction q arbitrary: w)
  case Nil
  then show ?case by simp
next
  case (Cons f q)
  obtain x1 w1 where ex: "execute e w f = (x1, w1)" by (cases "execute e w f")
  with Cons.prems have "x1 = None" by (cases x1) auto
  with ex Cons.prems have "run_loop e w1 q = (None, w', rest)" by simp
  from Cons.IH [OF this] show ?case .
qed

lemma execute_force_put:
  assumes "do_force w" "\<not> dry_run w" "\<not> do_delete f" "files e (filename f) = Some lf"
    and "execute e w f = (x, w')"
  shows "SetContents (file_key f) (filedata lf) (upload_headers e w f) \<in> set (calls w')"
proof -
  from assms(1,3,5) have uw: "upload_write e w f (guess_type e (filename f))
      (content_type_headers (guess_type e (filename f))) = (x, w')"
    by (simp add: execute_def upload_s3_cases)
  from upload_write_sends [OF assms(4,2) uw] show ?thesis
    by (auto simp: upload_headers_def)
qed

lemma upload_headers_cong:
  "same_config w w1 \<Longrightarrow> upload_headers e w1 f = upload_headers e w f"
  by (simp add: upload_headers_def same_config_def)

lemma run_loop_force_puts:
  "do_force w \<Longrightarrow> \<not> dry_run w \<Longrightarrow> run_loop e w q = (x, w', rest) \<Longrightarrow>
     \<forall>f\<in>set (take (length q - length rest) q). \<not> do_delete f \<longrightarrow>
        (\<forall>lf. files e (filename f) = Some lf \<longrightarrow>
           SetContents (file_key f) (filedata lf) (upload_headers e w f) \<in> set (calls w'))"
proof (induction q arbitrary: w)
  case Nil
  then show ?case by simp
next
  case (Cons f q)
  obtain x1 w1 where ex: "execute e w f = (x1, w1)" by (cases "execute e w f")
  note fr = execute_frame [OF ex]
  from fr Cons.prems(1,2) have cfg: "do_force w1" "\<not> dry_run w1"
    by (simp_all add: same_config_def)
  have here: "\<not> do_delete f \<longrightarrow> (\<forall>lf. files e (filename f) = Some lf \<longrightarrow>
      SetContents (file_key f) (filedata lf) (upload_headers e w f) \<in> set (calls w1))"
    using execute_force_put [OF Cons.prems(1,2) _ _ ex] by blast
  show ?case
  proof (cases x1)
    case (Some err)
    with ex Cons.prems(3) have "w' = w1" "rest = q" by simp_all
    with here show ?thesis by simp
  next
    case None
    with ex Cons.prems(3) have rl: "run_loop e w1 q = (x, w', rest)" by simp
    from run_loop_frame [OF rl] have "length rest \<le> length q" by simp
    then have len: "length (f # q) - length rest = Suc (length q - length rest)" by simp
    from run_loop_appends [OF rl] obtain more where more: "calls w' = calls w1 @ more" by blast
    from Cons.IH [OF cfg rl] upload_headers_cong [OF fr]
    have tl: "\<forall>g\<in>set (take (length q - length rest) q). \<not> do_delete g \<longrightarrow>
        (\<forall>lf. files e (filename g) = Some lf \<longrightarrow>
           SetContents (file_key g) (filedata lf) (upload_headers e w g) \<in> set (calls w'))"
      by simp
    from here more have hd: "\<not> do_delete f \<longrightarrow> (\<forall>lf. files e (filename f) = Some lf \<longrightarrow>
      SetContents (file_key f) (filedata lf) (upload_headers e w f) \<in> set (calls w'))" by simp
    from hd tl len show ?thesis by simp
  qed
qed

lemma execute_force_clean:
  assumes "do_force w" and "\<not> do_delete f \<longrightarrow> files e (filename f) \<noteq> None"
    and "dry_run w \<or> (\<forall>k. put_fault e k = None)"
  shows "\<exists>w'. execute e w f = (None, w')
     \<and> upload_count w' = upload_count w + (if do_delete f then 0 else 1)
     \<and> delete_count w' = delete_count w + (if do_delete f then 1 else 0)"
proof (cases "do_delete f")
  case True
  obtain x w' where d: "delete_s3 w f = (x, w')" by (cases "delete_s3 w f")
  from delete_s3_frame [OF d] d True show ?thesis by (simp add: execute_def)
next
  case False
  with assms(2) obtain lf where lf: "files e (filename f) = Some lf" by auto
  let ?ct = "guess_type e (filename f)"
  from assms(1) False have ex: "execute e w f = upload_write e w f ?ct (content_type_headers ?ct)"
    by (simp add: execute_def upload_s3_cases)
  show ?thesis
  proof (cases "dry_run w")
    case True
    from upload_write_dry [OF lf True, of ?ct "content_type_headers ?ct"] ex False
    show ?thesis by auto
  next
    case dry: False
    with assms(3) have nf: "put_fault e (file_key f) = None"
      "put_fault e (gz_file_key (file_key f)) = None" by simp_all
    show ?thesis
    proof (cases "do_gzip w \<and> 1024 < length (filedata lf) \<and> in_gzip_types ?ct")
      case True
      then have g: "do_gzip w" "1024 < length (filedata lf)" "in_gzip_types ?ct" by simp_all
      from upload_write_gzip [OF lf dry nf(1) g nf(2), of "content_type_headers ?ct"] ex False
      show ?thesis by auto
    next
      case ng: False
      from upload_write_plain [OF lf dry nf(1) ng, of "content_type_headers ?ct"] ex False
      show ?thesis by auto
    qed
  qed
qed

lemma run_loop_force_clean:
  "do_force w \<Longrightarrow> \<forall>f\<in>set q. \<not> do_delete f \<longrightarrow> files e (filename f) \<noteq> None \<Longrightarrow>
   dry_run w \<or> (\<forall>k. put_fault e k = None) \<Longrightarrow>
   \<exists>w'. run_loop e w q = (None, w', [])
     \<and> upload_count w' = upload_count w + length (filter (\<lambda>f. \<not> do_delete f) q)
     \<and> delete_count w' = delete_count w + length (filter do_delete q)"
proof (induction q arbitrary: w)
  case Nil
  then show ?case by simp
next
  case (Cons f q)
  from Cons.prems(2) have f: "\<not> do_delete f \<longrightarrow> files e (filename f) \<noteq> None"
    and q: "\<forall>f\<in>set q. \<not> do_delete f \<longrightarrow> files e (filename f) \<noteq> None" by simp_all
  from execute_force_clean [OF Cons.prems(1) f Cons.prems(3)] obtain w1 where
    ex: "execute e w f = (None, w1)"
    and c: "upload_count w1 = upload_count w + (if do_delete f then 0 else 1)"
      "delete_count w1 = delete_count w + (if do_delete f then 1 else 0)" by blast
  from execute_frame [OF ex] Cons.prems(1,3) have cfg: "do_force w1"
    "dry_run w1 \<or> (\<forall>k. put_fault e k = None)" by (auto simp: same_config_def)
  from Cons.IH [OF cfg(1) q cfg(2)] obtain w' where
    "run_loop e w1 q = (None, w', [])"
    "upload_count w' = upload_count w1 + length (filter (\<lambda>f. \<not> do_delete f) q)"
    "delete_count w' = delete_count w1 + length (filter do_delete q)" by blast
  with ex c show ?case by auto
qed

lemma run_dry_force:
  assumes "dry_run w" "do_force w"
  shows "calls (fst (snd (run e w q))) = calls w \<and> bucket (fst (snd (run e w q))) = bucket w"
proof -
  obtain x1 w1 r1 where rl: "run_loop e w q = (x1, w1, r1)" by (cases "run_loop e w q") auto
  from run_fields [OF rl] obtain w2 where r: "run e w q = (x1, w2, r1)"
    "calls w2 = calls w1" "bucket w2 = bucket w1" by blast
  from run_loop_dry [OF assms(1) rl] assms(2) r show ?thesis by simp
qed

section \<open>The steps of the command\<close>

lemma cmd_say_simps [simp]:
  "conf (cmd_say b l c) = conf c" "cmd_dryrun (cmd_say b l c) = cmd_dryrun c"
  "cmd_verbosity (cmd_say b l c) = cmd_verbosity c"
  "cmd_ignore_svn_url (cmd_say b l c) = cmd_ignore_svn_url c"
  "cmd_out (cmd_say b l c) = (if b then cmd_out c @ [l] else cmd_out c)"
  by (simp_all add: cmd_say_def)

lemma get_s3_svn_bucket_simps [simp]:
  "conf_key (conf (get_s3_svn_bucket c)) = conf_key (conf c)"
  "conf_writes (conf (get_s3_svn_bucket c)) = conf_writes (conf c)"
  "cmd_dryrun (get_s3_svn_bucket c) = cmd_dryrun c"
  "cmd_verbosity (get_s3_svn_bucket c) = cmd_verbosity c"
  "cmd_ignore_svn_url (get_s3_svn_bucket c) = cmd_ignore_svn_url c"
  by (simp_all add: get_s3_svn_bucket_def Let_def)

lemma set_s3_revision_simps [simp]:
  "conf_key (conf (set_s3_revision c r hb)) = (if cmd_dryrun c then conf_key (conf c) else Some r)"
  "conf_writes (conf (set_s3_revision c r hb)) =
     conf_writes (conf c) @ (if cmd_dryrun c then [] else [r])"
  "cmd_dryrun (set_s3_revision c r hb) = cmd_dryrun c"
  "cmd_verbosity (set_s3_revision c r hb) = cmd_verbosity c"
  "cmd_ignore_svn_url (set_s3_revision c r hb) = cmd_ignore_svn_url c"
  by (simp_all add: set_s3_revision_def Let_def)

lemma get_s3_svn_revision_props:
  assumes "get_s3_svn_revision c = (c', r)"
  shows "r = stored (conf c)"
    and "conf_key (conf c') = (if cmd_dryrun c then conf_key (conf c) else Some (stored (conf c)))"
    and "conf_writes (conf c') = conf_writes (conf c) @ first_writes (conf c) (cmd_dryrun c)"
    and "cmd_dryrun c' = cmd_dryrun c" "cmd_verbosity c' = cmd_verbosity c"
      "cmd_ignore_svn_url c' = cmd_ignore_svn_url c"
  using assms
  by (auto simp: get_s3_svn_revision_def Let_def stored_def first_writes_def split: option.splits)

lemma first_upload_props:
  assumes "first_upload client mr c r = (c', ro)"
  shows "conf c' = conf c" "cmd_dryrun c' = cmd_dryrun c" "cmd_verbosity c' = cmd_verbosity c"
      "cmd_ignore_svn_url c' = cmd_ignore_svn_url c"
    and "ro = (if revision r = INITIAL_REVISION
               then (if client_log client mr = [] then None
                     else Some (r\<lparr>revision := last (client_log client mr),
                                  initial_revision := Some (last (client_log client mr))\<rparr>))
               else Some r)"
  using assms by (auto simp: first_upload_def Let_def split: if_splits)

lemma load_revision_props:
  assumes "load_revision opts client mr cs = (c, ro)"
  shows "conf_key (conf c) = (if dryrun opts then conf_key cs else Some (stored cs))"
    and "conf_writes (conf c) = conf_writes cs @ first_writes cs (dryrun opts)"
    and "cmd_dryrun c = dryrun opts" "cmd_verbosity c = verbosity_of opts"
      "cmd_ignore_svn_url c = ignore_url opts"
    and "ro = (if stored_revision cs = INITIAL_REVISION
               then (if client_log client mr = [] then None
                     else Some ((stored cs)\<lparr>revision := last (client_log client mr),
                                  initial_revision := Some (last (client_log client mr))\<rparr>))
               else Some (stored cs))"
proof -
  let ?c0 = "\<lparr>cmd_dryrun = dryrun opts, cmd_verbosity = verbosity_of opts,
               cmd_ignore_svn_url = ignore_url opts, conf = cs, cmd_out = []\<rparr>"
  obtain c1 r1 where g: "get_s3_svn_revision ?c0 = (c1, r1)" by (cases "get_s3_svn_revision ?c0")
  with assms have f: "first_upload client mr c1 r1 = (c, ro)" by (simp add: load_revision_def)
  note gp = get_s3_svn_revision_props [OF g] and fp = first_upload_props [OF f]
  from gp fp show "conf_key (conf c) = (if dryrun opts then conf_key cs else Some (stored cs))"
    by simp
  from gp fp show "conf_writes (conf c) = conf_writes cs @ first_writes cs (dryrun opts)" by simp
  from gp fp show "cmd_dryrun c = dryrun opts" "cmd_verbosity c = verbosity_of opts"
      "cmd_ignore_svn_url c = ignore_url opts" by simp_all
  from gp(1) fp(5) show "ro = (if stored_revision cs = INITIAL_REVISION
               then (if client_log client mr = [] then None
                     else Some ((stored cs)\<lparr>revision := last (client_log client mr),
                                  initial_revision := Some (last (client_log client mr))\<rparr>))
               else Some (stored cs))"
    by (simp add: stored_revision_def)
qed

lemma stored_after_load:
  "conf_key cs' = (if dry then conf_key cs else Some (stored cs)) \<Longrightarrow> stored cs' = stored cs"
  by (simp add: stored_def split: option.splits)

lemma resolve_unfold:
  assumes "check_settings st = None"
    and "load_revision opts client (the (MEDIA_ROOT st)) cs = (c0, ro)"
  shows "resolve st opts client cs =
     (case ro of
        None \<Rightarrow> Inl (IndexError, c0)
      | Some r \<Rightarrow>
          if url r \<noteq> [] \<and> url r \<noteq> info_url (client_info client (the (MEDIA_ROOT st)))
               \<and> \<not> ignore_url opts
          then Inl (CommandError (RepoMismatch (url r)
                      (info_url (client_info client (the (MEDIA_ROOT st))))), c0)
          else
            (let info = client_info client (the (MEDIA_ROOT st));
                 r' = (if \<not> ignore_url opts then r\<lparr>url := info_url info\<rparr> else r)
                        \<lparr>uuid := Some (info_uuid info)\<rparr>;
                 changed = changed_files_of (the (AWS_BUCKET_NAME st)) (the (MEDIA_ROOT st))
                    (client_diff_summarize client (the (MEDIA_ROOT st)) (revision r)
                       (info_url info) (info_revision info));
                 c = cmd_say (0 < verbosity_of opts) (PrFoundChanges (length changed))
                      (cmd_say (0 < verbosity_of opts) PrRunningDiff
                        (cmd_say (0 < verbosity_of opts) (PrS3Revision (revision r))
                          (cmd_say (0 < verbosity_of opts) (PrLocalRevision (info_revision info))
                             c0)))
             in Inr (c, r', info, changed)))"
  using assms load_revision_props(3,4,5) [OF assms(2)]
  by (cases ro) (simp_all add: resolve_def Let_def)

lemma resolve_Inr:
  assumes "resolve st opts client cs = Inr (c, r, info, changed)"
  shows "check_settings st = None"
    and "info = client_info client (the (MEDIA_ROOT st))"
    and "revision r = from_revision client (the (MEDIA_ROOT st)) cs"
    and "changed = change_set st client cs"
    and "stored_revision cs = INITIAL_REVISION \<longrightarrow>
           client_log client (the (MEDIA_ROOT st)) \<noteq> []
           \<and> initial_revision r = Some (last (client_log client (the (MEDIA_ROOT st))))"
    and "conf_key (conf c) = (if dryrun opts then conf_key cs else Some (stored cs))"
    and "conf_writes (conf c) = conf_writes cs @ first_writes cs (dryrun opts)"
    and "cmd_dryrun c = dryrun opts" "cmd_verbosity c = verbosity_of opts"
proof -
  show cs: "check_settings st = None"
    using assms by (cases "check_settings st") (simp_all add: resolve_def)
  obtain c0 ro where l: "load_revision opts client (the (MEDIA_ROOT st)) cs = (c0, ro)"
    by (cases "load_revision opts client (the (MEDIA_ROOT st)) cs")
  note lp = load_revision_props [OF l]
  note u = resolve_unfold [OF cs l]
  from assms u obtain r0 where r0: "ro = Some r0" by (cases ro) auto
  from assms u r0 have ok: "\<not> (url r0 \<noteq> [] \<and>
      url r0 \<noteq> info_url (client_info client (the (MEDIA_ROOT st))) \<and> \<not> ignore_url opts)"
    by (auto split: if_splits)
  from assms u r0 ok have eqs:
    "info = client_info client (the (MEDIA_ROOT st))"
    "r = (if \<not> ignore_url opts then r0\<lparr>url := info_url info\<rparr> else r0)
            \<lparr>uuid := Some (info_uuid info)\<rparr>"
    "changed = changed_files_of (the (AWS_BUCKET_NAME st)) (the (MEDIA_ROOT st))
        (client_diff_summarize client (the (MEDIA_ROOT st)) (revision r0)
           (info_url info) (info_revision info))"
    "conf c = conf c0" "cmd_dryrun c = cmd_dryrun c0" "cmd_verbosity c = cmd_verbosity c0"
    by (auto simp: Let_def)
  from eqs(1) show "info = client_info client (the (MEDIA_ROOT st))" .
  from lp(6) r0 have rev0: "revision r0 = from_revision client (the (MEDIA_ROOT st)) cs"
    by (auto simp: from_revision_def stored_revision_def split: if_splits)
  with eqs(2) show "revision r = from_revision client (the (MEDIA_ROOT st)) cs" by simp
  from eqs(1,3) rev0 show "changed = change_set st client cs" by (simp add: change_set_def)
  from lp(6) r0 eqs(2) show "stored_revision cs = INITIAL_REVISION \<longrightarrow>
           client_log client (the (MEDIA_ROOT st)) \<noteq> []
           \<and> initial_revision r = Some (last (client_log client (the (MEDIA_ROOT st))))"
    by (auto split: if_splits)
  from lp(1) eqs(4) show "conf_key (conf c) = (if dryrun opts then conf_key cs else Some (stored cs))"
    by simp
  from lp(2) eqs(4) show "conf_writes (conf c) = conf_writes cs @ first_writes cs (dryrun opts)"
    by simp
  from lp(3,4) eqs(5,6) show "cmd_dryrun c = dryrun opts" "cmd_verbosity c = verbosity_of opts"
    by simp_all
qed

lemma resolve_Inl:
  assumes "resolve st opts client cs = Inl (oc, c)"
  shows "conf_key (conf c) = conf_key cs \<or> conf_key (conf c) = Some (stored cs)"
    and "dryrun opts \<longrightarrow> conf_key (conf c) = conf_key cs \<and> conf_writes (conf c) = conf_writes cs"
proof -
  have "(conf_key (conf c) = conf_key cs \<or> conf_key (conf c) = Some (stored cs))
      \<and> (dryrun opts \<longrightarrow> conf_key (conf c) = conf_key cs \<and> conf_writes (conf c) = conf_writes cs)"
  proof (cases "check_settings st")
    case (Some err)
    with assms show ?thesis by (auto simp: resolve_def)
  next
    case None
    obtain c0 ro where l: "load_revision opts client (the (MEDIA_ROOT st)) cs = (c0, ro)"
      by (cases "load_revision opts client (the (MEDIA_ROOT st)) cs")
    note lp = load_revision_props [OF l]
    from assms resolve_unfold [OF None l] have "c = c0"
      by (cases ro) (auto simp: Let_def split: if_splits)
    with lp(1,2) show ?thesis by (auto simp: first_writes_def)
  qed
  then show "conf_key (conf c) = conf_key cs \<or> conf_key (conf c) = Some (stored cs)"
    and "dryrun opts \<longrightarrow> conf_key (conf c) = conf_key cs \<and> conf_writes (conf c) = conf_writes cs"
    by simp_all
qed

lemma resolve_succeeds:
  assumes "check_settings st = None"
    and "stored_revision cs = INITIAL_REVISION \<longrightarrow> client_log client (the (MEDIA_ROOT st)) \<noteq> []"
    and "url (stored cs) = [] \<or> url (stored cs) = info_url (client_info client (the (MEDIA_ROOT st)))
           \<or> ignore_url opts"
  shows "\<exists>c r. resolve st opts client cs =
           Inr (c, r, client_info client (the (MEDIA_ROOT st)), change_set st client cs)"
proof -
  obtain c0 ro where l: "load_revision opts client (the (MEDIA_ROOT st)) cs = (c0, ro)"
    by (cases "load_revision opts client (the (MEDIA_ROOT st)) cs")
  note lp = load_revision_props [OF l]
  from lp(6) assms(2) obtain r0 where r0: "ro = Some r0" "url r0 = url (stored cs)"
    by (auto split: if_splits)
  from resolve_unfold [OF assms(1) l] r0 assms(3)
  obtain c r info changed where res: "resolve st opts client cs = Inr (c, r, info, changed)"
    by (auto simp: Let_def)
  from resolve_Inr(2,4) [OF res] res show ?thesis by auto
qed

lemma process_result_zero:
  "process_result exitcode n = 0 \<longleftrightarrow> (\<forall>k<n. exitcode k = 0)"
proof -
  have "sum_list (map (\<lambda>k. \<bar>exitcode k\<bar>) [0..<n]) = 0
      \<longleftrightarrow> (\<forall>x\<in>set (map (\<lambda>k. \<bar>exitcode k\<bar>) [0..<n]). x = 0)"
    by (rule sum_list_nonneg_eq_0_iff) auto
  then show ?thesis by (auto simp: process_result_def)
qed

lemma finish_failed:
  "p \<noteq> 0 \<Longrightarrow> finish c r info ct p = (SystemExit p, c)"
  by (simp add: finish_def)

lemma finish_clean:
  assumes "finish c r info ct 0 = (oc, c')"
  shows "oc = Returned"
    and "conf_key (conf c') = (if cmd_dryrun c then conf_key (conf c)
           else Some (r\<lparr>revision := info_revision info, last_update := Some ct\<rparr>))"
    and "conf_writes (conf c') = conf_writes (conf c) @
           (if cmd_dryrun c then [] else [r\<lparr>revision := info_revision info, last_update := Some ct\<rparr>])"
  using assms by (auto simp: finish_def Let_def)

lemma outofsync_files_of_eq:
  "outofsync_files_of client fs =
     map (\<lambda>f. (f, hd (client_status client (filename f)))) (filter (outofsync client) fs)"
  by (induction fs) (auto simp: outofsync_def split: list.splits)

lemma outofsync_files_of_Nil:
  "outofsync_files_of client fs = [] \<longleftrightarrow> (\<forall>f\<in>set fs. \<not> outofsync client f)"
  by (simp add: outofsync_files_of_eq filter_empty_conv)

lemma dispatch_outofsync:
  assumes "\<exists>f\<in>set changed. outofsync client f"
  shows "dispatch st opts client ct exitcode remote c r info changed =
     \<lparr>outcome = SystemExit 1, final = print_outofsync (outofsync_files_of client changed) c,
      queued = [], started = []\<rparr>"
  using assms outofsync_files_of_Nil [of client changed] by (auto simp: dispatch_def Let_def)

lemma dispatch_nothing:
  "dispatch st opts client ct exitcode remote c r info [] =
     \<lparr>outcome = SystemExit 0, final = c, queued = [], started = []\<rparr>"
  by (simp add: dispatch_def)

lemma dispatch_workers:
  assumes "\<forall>f\<in>set changed. \<not> outofsync client f" "changed \<noteq> []"
  shows "dispatch st opts client ct exitcode remote c r info changed =
     \<lparr>outcome = fst (finish c r info ct (process_result exitcode (processes_count opts))),
      final = snd (finish c r info ct (process_result exitcode (processes_count opts))),
      queued = changed,
      started = make_workers (process_args st c opts) [0..<processes_count opts] remote\<rparr>"
  using assms outofsync_files_of_Nil [of client changed]
  by (simp add: dispatch_def Let_def case_prod_beta)

lemma make_workers_length: "length (make_workers mk ns remote) = length ns"
  by (induction ns arbitrary: remote) (simp_all add: Let_def)

lemma make_workers_mem:
  "w \<in> set (make_workers mk ns remote) \<Longrightarrow> \<exists>n r. w = mk n r"
  by (induction ns arbitrary: remote) (auto simp: Let_def)

lemma processes_count_pos: "0 < processes_count opts"
  by (simp add: processes_count_def)

lemma handle_Inr:
  "resolve st opts client cs = Inr (c, r, info, changed) \<Longrightarrow>
   handle st opts client ct exitcode remote cs =
     dispatch st opts client ct exitcode remote c r info changed"
  by (simp add: handle_def)

lemma handle_Inl:
  "resolve st opts client cs = Inl (oc, c) \<Longrightarrow>
   handle st opts client ct exitcode remote cs =
     \<lparr>outcome = oc, final = c, queued = [], started = []\<rparr>"
  by (simp add: handle_def)

lemma handle_started:
  assumes "started (handle st opts client ct exitcode remote cs) \<noteq> []"
  shows "\<exists>c r info changed.
      resolve st opts client cs = Inr (c, r, info, changed)
    \<and> (\<forall>f\<in>set changed. \<not> outofsync client f) \<and> changed \<noteq> []"
proof (cases "resolve st opts client cs")
  case (Inl a)
  with assms show ?thesis by (cases a) (simp add: handle_Inl)
next
  case (Inr b)
  then obtain c r info changed where res: "resolve st opts client cs = Inr (c, r, info, changed)"
    by (cases b) auto
  have "\<forall>f\<in>set changed. \<not> outofsync client f"
  proof (rule ccontr)
    assume "\<not> (\<forall>f\<in>set changed. \<not> outofsync client f)"
    then have "\<exists>f\<in>set changed. outofsync client f" by simp
    from dispatch_outofsync [OF this] handle_Inr [OF res] assms show False by simp
  qed
  moreover have "changed \<noteq> []"
    using assms handle_Inr [OF res] by (auto simp: dispatch_nothing)
  ultimately show ?thesis using res by blast
qed

lemma handle_dispatches:
  assumes "check_settings st = None"
    and "stored_revision cs = INITIAL_REVISION \<longrightarrow> client_log client (the (MEDIA_ROOT st)) \<noteq> []"
    and "url (stored cs) = [] \<or> url (stored cs) = info_url (client_info client (the (MEDIA_ROOT st)))
           \<or> ignore_url opts"
    and "\<forall>f\<in>set (change_set st client cs). \<not> outofsync client f"
    and "change_set st client cs \<noteq> []"
  shows "started (handle st opts client ct exitcode remote cs) \<noteq> []"
    and "queued (handle st opts client ct exitcode remote cs) = change_set st client cs"
proof -
  from resolve_succeeds [OF assms(1,2,3)] obtain c r where
    res: "resolve st opts client cs =
            Inr (c, r, client_info client (the (MEDIA_ROOT st)), change_set st client cs)" by blast
  from handle_Inr [OF res] dispatch_workers [OF assms(4,5)]
  have h: "started (handle st opts client ct exitcode remote cs) =
      make_workers (process_args st c opts) [0..<processes_count opts] remote"
    "queued (handle st opts client ct exitcode remote cs) = change_set st client cs" by simp_all
  from h(2) show "queued (handle st opts client ct exitcode remote cs) = change_set st client cs" .
  have "length (started (handle st opts client ct exitcode remote cs)) = processes_count opts"
    by (simp add: h(1) make_workers_length)
  with processes_count_pos [of opts]
  show "started (handle st opts client ct exitcode remote cs) \<noteq> []" by auto
qed

lemma handle_outcome:
  assumes "started (handle st opts client ct exitcode remote cs) \<noteq> []"
  shows "outcome (handle st opts client ct exitcode remote cs) =
     (if process_result exitcode (processes_count opts) = 0 then Returned
      else SystemExit (process_result exitcode (processes_count opts)))"
proof -
  from handle_started [OF assms] obtain c r info changed where
    res: "resolve st opts client cs = Inr (c, r, info, changed)"
    and ok: "\<forall>f\<in>set changed. \<not> outofsync client f" "changed \<noteq> []" by blast
  from handle_Inr [OF res] dispatch_workers [OF ok]
  have "outcome (handle st opts client ct exitcode remote cs) =
      fst (finish c r info ct (process_result exitcode (processes_count opts)))" by simp
  then show ?thesis by (simp add: finish_def Let_def)
qed

lemma handle_dry_conf:
  assumes "dryrun opts"
  shows "conf_key (conf (final (handle st opts client ct exitcode remote cs))) = conf_key cs
     \<and> conf_writes (conf (final (handle st opts client ct exitcode remote cs))) = conf_writes cs"
proof (cases "resolve st opts client cs")
  case (Inl a)
  obtain oc c where a: "a = (oc, c)" by (cases a)
  with Inl have res: "resolve st opts client cs = Inl (oc, c)" by simp
  from handle_Inl [OF res] resolve_Inl(2) [OF res] assms show ?thesis by simp
next
  case (Inr b)
  then obtain c r info changed where res: "resolve st opts client cs = Inr (c, r, info, changed)"
    by (cases b) auto
  note rp = resolve_Inr [OF res]
  from rp(6,7,8) assms have c: "conf_key (conf c) = conf_key cs" "conf_writes (conf c) = conf_writes cs"
    "cmd_dryrun c" by (simp_all add: first_writes_def)
  note h = handle_Inr [OF res, of ct exitcode remote]
  show ?thesis
  proof (cases "\<exists>f\<in>set changed. outofsync client f")
    case True
    from dispatch_outofsync [OF True] h c show ?thesis by (simp add: print_outofsync_def)
  next
    case False
    then have ok: "\<forall>f\<in>set changed. \<not> outofsync client f" by simp
    show ?thesis
    proof (cases "changed = []")
      case True
      with h c show ?thesis by (simp add: dispatch_nothing)
    next
      case False
      let ?p = "process_result exitcode (processes_count opts)"
      from dispatch_workers [OF ok False] h
      have f: "final (handle st opts client ct exitcode remote cs) = snd (finish c r info ct ?p)"
        by simp
      show ?thesis
      proof (cases "?p = 0")
        case True
        obtain oc c' where fin: "finish c r info ct 0 = (oc, c')" by (cases "finish c r info ct 0")
        from finish_clean(2,3) [OF fin] f True fin c show ?thesis by simp
      next
        case False
        with f c show ?thesis by (simp add: finish_failed)
      qed
    qed
  qed
qed

lemma S3UploadWorker_fields:
  "do_force (S3UploadWorker n b k s v p g x f d r) = f"
  "dry_run (S3UploadWorker n b k s v p g x f d r) = d"
  "do_gzip (S3UploadWorker n b k s v p g x f d r) = g"
  "do_expires (S3UploadWorker n b k s v p g x f d r) = x"
  "skip_count (S3UploadWorker n b k s v p g x f d r) = 0"
  "upload_count (S3UploadWorker n b k s v p g x f d r) = 0"
  "delete_count (S3UploadWorker n b k s v p g x f d r) = 0"
  "calls (S3UploadWorker n b k s v p g x f d r) =
     GetBucket b # (case r of None \<Rightarrow> [CreateBucket b] | Some held \<Rightarrow> [])"
  by (simp_all add: S3UploadWorker_def Let_def split: option.splits)

lemma started_worker:
  assumes "w \<in> set (started (handle st opts client ct exitcode remote cs))"
  shows "do_force w" "skip_count w = 0" "dry_run w = dryrun opts"
    "do_gzip w = gzip opts" "do_expires w = expires opts"
    "\<forall>k. GetKey k \<notin> set (calls w)"
    "upload_count w = 0" "delete_count w = 0"
proof -
  from assms have ne: "started (handle st opts client ct exitcode remote cs) \<noteq> []" by auto
  from handle_started [OF ne] obtain c r info changed where
    res: "resolve st opts client cs = Inr (c, r, info, changed)"
    and ok: "\<forall>f\<in>set changed. \<not> outofsync client f" "changed \<noteq> []" by blast
  from handle_Inr [OF res] dispatch_workers [OF ok] assms
  have "w \<in> set (make_workers (process_args st c opts) [0..<processes_count opts] remote)"
    by simp
  from make_workers_mem [OF this] obtain n rb where w: "w = process_args st c opts n rb" by blast
  note d = resolve_Inr(8) [OF res]
  from w d show "do_force w" "skip_count w = 0" "dry_run w = dryrun opts"
    "do_gzip w = gzip opts" "do_expires w = expires opts"
    by (simp_all add: process_args_def S3UploadWorker_fields)
  from w show "\<forall>k. GetKey k \<notin> set (calls w)"
    by (cases rb) (simp_all add: process_args_def S3UploadWorker_fields)
  from w show "upload_count w = 0" "delete_count w = 0"
    by (simp_all add: process_args_def S3UploadWorker_fields)
qed

lemma last_Min_descending:
  fixes xs :: "int list"
  assumes "xs \<noteq> []" "sorted (rev xs)"
  shows "last xs = Min (set xs)"
proof -
  from assms(1) have ne: "rev xs \<noteq> []" by simp
  have "Min (set (rev xs)) = hd (rev xs)"
    using assms(2) ne by (cases "rev xs") (auto intro!: Min_eqI)
  with assms(1) show ?thesis by (simp add: hd_rev)
qed

lemma handle_outofsync:
  assumes "check_settings st = None"
    and "stored_revision cs = INITIAL_REVISION \<longrightarrow> client_log client (the (MEDIA_ROOT st)) \<noteq> []"
    and "url (stored cs) = [] \<or> url (stored cs) = info_url (client_info client (the (MEDIA_ROOT st)))
           \<or> ignore_url opts"
    and "\<exists>file\<in>set (change_set st client cs). outofsync client file"
  shows "\<exists>c. handle st opts client ct exitcode remote cs =
           \<lparr>outcome = SystemExit 1,
            final = print_outofsync (outofsync_files_of client (change_set st client cs)) c,
            queued = [], started = []\<rparr>
         \<and> conf_writes (conf c) = conf_writes cs @ first_writes cs (dryrun opts)"
proof -
  from resolve_succeeds [OF assms(1,2,3)] obtain c r where
    res: "resolve st opts client cs =
            Inr (c, r, client_info client (the (MEDIA_ROOT st)), change_set st client cs)" by blast
  from handle_Inr [OF res] dispatch_outofsync [OF assms(4)] resolve_Inr(7) [OF res]
  show ?thesis by auto
qed

lemma started_first:
  assumes "started (handle st opts client ct exitcode remote cs) \<noteq> []"
  shows "calls (hd (started (handle st opts client ct exitcode remote cs))) =
     GetBucket (the (AWS_BUCKET_NAME st)) #
       (case remote of None \<Rightarrow> [CreateBucket (the (AWS_BUCKET_NAME st))] | Some held \<Rightarrow> [])"
proof -
  from handle_started [OF assms] obtain c r info changed where
    res: "resolve st opts client cs = Inr (c, r, info, changed)"
    and ok: "\<forall>f\<in>set changed. \<not> outofsync client f" "changed \<noteq> []" by blast
  from handle_Inr [OF res] dispatch_workers [OF ok]
  have st: "started (handle st opts client ct exitcode remote cs) =
      make_workers (process_args st c opts) [0..<processes_count opts] remote" by simp
  from processes_count_pos [of opts]
  have "[0..<processes_count opts] = 0 # [Suc 0..<processes_count opts]" by (simp add: upt_rec)
  with st have "hd (started (handle st opts client ct exitcode remote cs)) =
      process_args st c opts 0 remote" by (simp add: Let_def)
  then show ?thesis by (simp add: process_args_def S3UploadWorker_fields)
qed

section \<open>The scenario\<close>

lemma ex_settings_simps [simp]:
  "check_settings ex_settings = None" "the (MEDIA_ROOT ex_settings) = ''/media''"
  "the (AWS_BUCKET_NAME ex_settings) = ''media''"
  "the (AWS_ACCESS_KEY_ID ex_settings) = ''id''"
  "the (AWS_SECRET_ACCESS_KEY ex_settings) = ''secret''"
  by (simp_all add: ex_settings_def check_settings_def)

lemma ex_options_simps [simp]:
  "dryrun (ex_options dry) = dry" "ignore_url (ex_options dry) = False"
  "processes_count (ex_options dry) = 2" "verbosity_of (ex_options dry) = 0"
  "gzip (ex_options dry) = True" "expires (ex_options dry) = False"
  "prefix (ex_options dry) = None"
  by (simp_all add: ex_options_def processes_count_def verbosity_of_def)

lemma ex_client_simps [simp]:
  "client_log (ex_client s) p = [40, 38, 37, 12]"
  "client_info (ex_client s) p = \<lparr>info_url = ''file:///repo'', info_uuid = ''u-1'', info_revision = 40\<rparr>"
  "client_diff_summarize (ex_client s) p1 37 p2 40 = ex_changes"
  "client_diff_summarize (ex_client s) p1 12 p2 40
     = \<lparr>path = ''first.css'', node_kind = nk_file, summarize_kind = ds_added\<rparr> # ex_changes"
  "client_status (ex_client s) p = (if p = ''/media/b.js'' then [s] else [st_normal])"
  by (simp_all add: ex_client_def)

lemma ex_conf_simps [simp]:
  "conf_key (ex_conf n) = Some (ex_stored n)" "conf_writes (ex_conf n) = []"
  "stored (ex_conf n) = ex_stored n" "stored_revision (ex_conf n) = n"
  "url (ex_stored n) = ''file:///repo''" "revision (ex_stored n) = n"
  "conf_key ex_new_conf = None" "conf_writes ex_new_conf = []"
  "stored ex_new_conf = default_revision" "stored_revision ex_new_conf = INITIAL_REVISION"
  "url default_revision = []" "revision default_revision = INITIAL_REVISION"
  by (simp_all add: ex_conf_def ex_stored_def ex_new_conf_def stored_def stored_revision_def
        default_revision_def)

lemma ex_change_set [simp]:
  "change_set ex_settings (ex_client s) (ex_conf 37) = ex_jobs"
  "change_set ex_settings (ex_client s) ex_new_conf
     = \<lparr>bucket_name = ''media'', file_key = ''first.css'', filename = ''/media/first.css'',
         delete = False\<rparr> # ex_jobs"
  by (simp_all add: change_set_def from_revision_def INITIAL_REVISION_def ex_changes_def
        ex_jobs_def path_join_def)

lemma ex_outofsync [simp]:
  "outofsync (ex_client s) f = (filename f = ''/media/b.js'' \<and> s \<noteq> st_normal)"
  by (simp add: outofsync_def)

lemma ex_exit_simps [simp]:
  "process_result all_clean 2 = 0" "process_result second_fails 2 = 1"
  "all_clean k = 0" "second_fails 1 = 1" "second_fails (Suc 0) = 1"
  by (simp_all add: process_result_def all_clean_def second_fails_def upt_rec)

lemma ex_dispatches [simp]:
  "started (handle ex_settings (ex_options dry) (ex_client st_normal) ct exitcode remote
              (ex_conf 37)) \<noteq> []"
  "queued (handle ex_settings (ex_options dry) (ex_client st_normal) ct exitcode remote
              (ex_conf 37)) = ex_jobs"
proof -
  have a: "check_settings ex_settings = None"
    "stored_revision (ex_conf 37) = INITIAL_REVISION \<longrightarrow>
       client_log (ex_client st_normal) (the (MEDIA_ROOT ex_settings)) \<noteq> []"
    "url (stored (ex_conf 37)) = [] \<or> url (stored (ex_conf 37)) =
       info_url (client_info (ex_client st_normal) (the (MEDIA_ROOT ex_settings)))
       \<or> ignore_url (ex_options dry)"
    "\<forall>f\<in>set (change_set ex_settings (ex_client st_normal) (ex_conf 37)).
       \<not> outofsync (ex_client st_normal) f"
    "change_set ex_settings (ex_client st_normal) (ex_conf 37) \<noteq> []"
    by (simp_all add: ex_jobs_def)
  from handle_dispatches(1) [OF a]
  show "started (handle ex_settings (ex_options dry) (ex_client st_normal) ct exitcode remote
              (ex_conf 37)) \<noteq> []" .
  from handle_dispatches(2) [OF a]
  show "queued (handle ex_settings (ex_options dry) (ex_client st_normal) ct exitcode remote
              (ex_conf 37)) = ex_jobs" by simp
qed

section \<open>The gzip-variant key\<close>

text \<open>
  Claim C8, as amended. The claim has two parts. The first holds: the transform that
  inserts \<^verbatim>\<open>.gz\<close> before the final extension maps distinct keys to distinct keys. The
  second does not: a key can be the transformed key of another key (see the
  counterexample below). What holds instead is that the transformed key of a key is never
  that key itself.
\<close>

theorem C8_gz_key_injective:
  "k1 \<noteq> k2 \<Longrightarrow> gz_file_key k1 \<noteq> gz_file_key k2 \<and> gz_file_key k1 \<noteq> k1"
  using gz_file_key_inj [of k1 k2] gz_file_key_neq [of k1] by blast

theorem C8_gz_key_injective_witness:
  "''app.css'' \<noteq> ''old/c.css'' \<and> gz_file_key ''app.css'' \<noteq> gz_file_key ''old/c.css''
     \<and> gz_file_key ''app.css'' \<noteq> ''app.css''"
  using C8_gz_key_injective [of "''app.css''" "''old/c.css''"] by simp

text \<open>
  Counterexample to claim C8 as stated: the primary key \<^verbatim>\<open>app.gz.js\<close> equals the
  transformed key of the different primary key \<^verbatim>\<open>app.js\<close>.
\<close>

theorem C8_primary_equals_variant:
  "''app.gz.js'' \<noteq> ''app.js'' \<and> ''app.gz.js'' = gz_file_key ''app.js''"
  by (simp add: gz_file_key_def splitext_def splitext_loop.simps)

section \<open>Deleting\<close>



section \<open>The timestamp check of an upload\<close>

text \<open>
  Claim C3, at the input where the code departs from it. The claim has an upload with
  \<^verbatim>\<open>force=false\<close> skipped whenever the remote object exists and its last-modified time is
  greater than \<^emph>\<open>or equal to\<close> the modification time of the local file, which is also what
  the comment above the check says (``Check if file on S3 is older than local file, if so,
  upload''). The check is \<^verbatim>\<open>local_datetime < s3_datetime\<close>: when the two times are equal
  the upload is not skipped. The skip counter stays as it was and, outside dry-run mode,
  the write of the object follows the lookup of the key. (When the remote time is
  strictly greater the upload is skipped, see \<open>upload_skip_strict\<close>.)
\<close>

theorem C3_equal_timestamps_not_skipped:
  assumes "\<not> do_force w" and "bucket w (file_key f) = Some k"
    and "files e (filename f) = Some lf" and "last_modified k = st_mtime lf"
    and "\<not> dry_run w" and "upload_s3 e w f = (x, w')"
  shows "skip_count w' = skip_count w
     \<and> (\<exists>rest. calls w' = calls w @ GetKey (file_key f)
            # SetContents (file_key f) (filedata lf) (upload_headers e w f) # rest)"
proof -
  let ?ct = "guess_type e (filename f)"
  let ?w0 = "call (GetKey (file_key f)) w"
  from assms(2,4) have "do_force w \<or> (\<forall>k. bucket w (file_key f) = Some k \<longrightarrow>
      last_modified k \<le> st_mtime lf)" by simp
  from upload_s3_write [OF assms(3) this] assms(1,6)
  have uw: "upload_write e ?w0 f ?ct (content_type_headers ?ct) = (x, w')" by simp
  have d: "\<not> dry_run ?w0" using assms(5) by simp
  from upload_write_frame [OF uw] have "skip_count w' = skip_count w" by simp
  moreover from upload_write_sends [OF assms(3) d uw]
  have "\<exists>rest. calls w' = calls w @ GetKey (file_key f)
            # SetContents (file_key f) (filedata lf) (upload_headers e w f) # rest"
    by (simp add: upload_headers_def)
  ultimately show ?thesis by simp
qed

text \<open>
  The theorem at a worker without force whose bucket holds \<^verbatim>\<open>app.css\<close> last modified at
  time 100, the modification time of the local file.
\<close>

theorem C3_equal_timestamps_not_skipped_witness:
  "\<not> do_force (ex_worker False False (ex_bucket 100))
   \<and> bucket (ex_worker False False (ex_bucket 100)) (file_key ex_upload) = Some (the (ex_bucket 100 ''app.css''))
   \<and> files (ex_env 10 100 accept_all) (filename ex_upload)
        = Some \<lparr>filedata = replicate 10 CHR ''a'', st_mtime = 100\<rparr>
   \<and> last_modified (the (ex_bucket 100 ''app.css'')) = 100
   \<and> \<not> dry_run (ex_worker False False (ex_bucket 100))
   \<and> skip_count (snd (upload_s3 (ex_env 10 100 accept_all)
                         (ex_worker False False (ex_bucket 100)) ex_upload)) = 0
   \<and> take 3 (calls (snd (upload_s3 (ex_env 10 100 accept_all)
                         (ex_worker False False (ex_bucket 100)) ex_upload)))
       = [GetBucket ''media'', GetKey ''app.css'',
          SetContents ''app.css'' (replicate 10 CHR ''a'') [''Content-Type'' \<mapsto> ''text/css'']]"
  using C3_equal_timestamps_not_skipped
    [of "ex_worker False False (ex_bucket 100)" ex_upload "the (ex_bucket 100 ''app.css'')"
        "ex_env 10 100 accept_all" "\<lparr>filedata = replicate 10 CHR ''a'', st_mtime = 100\<rparr>"
        "fst (upload_s3 (ex_env 10 100 accept_all) (ex_worker False False (ex_bucket 100)) ex_upload)"
        "snd (upload_s3 (ex_env 10 100 accept_all) (ex_worker False False (ex_bucket 100)) ex_upload)"]
  by (auto simp: upload_headers_def add_expires_def)

section \<open>The gzip variant of an upload\<close>

text \<open>
  Claim C5, as amended. For an upload job executed with gzip enabled, outside dry-run
  mode, of a file whose content type is in the whitelist, that is \<^emph>\<open>not skipped by the
  timestamp check\<close> (force is set, or the bucket has no object under the key, or the object
  is not newer than the local file) and whose first write the store accepts: if the file
  has 1024 bytes or fewer, the object and nothing else is written, nothing is raised and
  the gzip-variant key is left as it was; if it has more than 1024 bytes and the store
  accepts the second write too, the compressed data is written under the gzip-variant key
  with the headers of the first write plus \<^verbatim>\<open>Content-Encoding: gzip\<close>, and made public.
\<close>

theorem C5_gzip_variant_threshold:
  assumes "do_gzip w" and "\<not> dry_run w" and "in_gzip_types (guess_type e (filename f))"
    and "files e (filename f) = Some lf"
    and "do_force w \<or> (\<forall>k. bucket w (file_key f) = Some k \<longrightarrow> last_modified k \<le> st_mtime lf)"
    and "put_fault e (file_key f) = None"
    and "upload_s3 e w f = (x, w')"
  shows "(length (filedata lf) \<le> 1024 \<longrightarrow>
            x = None
          \<and> calls w' = calls w @ (if do_force w then [] else [GetKey (file_key f)])
                @ [SetContents (file_key f) (filedata lf) (upload_headers e w f),
                   MakePublic (file_key f)]
          \<and> bucket w' (gz_file_key (file_key f)) = bucket w (gz_file_key (file_key f)))
       \<and> (1024 < length (filedata lf) \<and> put_fault e (gz_file_key (file_key f)) = None \<longrightarrow>
            x = None
          \<and> calls w' = calls w @ (if do_force w then [] else [GetKey (file_key f)])
                @ [SetContents (file_key f) (filedata lf) (upload_headers e w f),
                   MakePublic (file_key f),
                   SetContents (gz_file_key (file_key f)) (compress e (filedata lf))
                     ((upload_headers e w f)(''Content-Encoding'' \<mapsto> ''gzip'')),
                   MakePublic (gz_file_key (file_key f))]
          \<and> bucket w' (gz_file_key (file_key f)) =
               Some \<lparr>contents = compress e (filedata lf),
                     obj_headers = (upload_headers e w f)(''Content-Encoding'' \<mapsto> ''gzip''),
                     is_public = True, last_modified = now e\<rparr>)"
proof -
  let ?w0 = "if do_force w then w else call (GetKey (file_key f)) w"
  let ?ct = "guess_type e (filename f)"
  have w0: "\<not> dry_run ?w0" "do_gzip ?w0" "do_expires ?w0 = do_expires w"
    "calls ?w0 = calls w @ (if do_force w then [] else [GetKey (file_key f)])"
    "bucket ?w0 = bucket w"
    using assms(1,2) by simp_all
  from upload_s3_write [OF assms(4,5)] assms(7)
  have uw: "upload_write e ?w0 f ?ct (content_type_headers ?ct) = (x, w')" by simp
  have neq: "gz_file_key (file_key f) \<noteq> file_key f" by (rule gz_file_key_neq)
  show ?thesis
  proof (intro conjI impI)
    assume small: "length (filedata lf) \<le> 1024"
    then have "\<not> (do_gzip ?w0 \<and> 1024 < length (filedata lf) \<and> in_gzip_types ?ct)" by simp
    from upload_write_plain [OF assms(4) w0(1) assms(6) this, of "content_type_headers ?ct"] uw w0(3,4,5)
    have r: "x = None"
      "calls w' = calls w @ (if do_force w then [] else [GetKey (file_key f)])
         @ [SetContents (file_key f) (filedata lf) (upload_headers e w f), MakePublic (file_key f)]"
      "bucket w' = (bucket w)(file_key f \<mapsto> \<lparr>contents = filedata lf,
            obj_headers = upload_headers e w f, is_public = True, last_modified = now e\<rparr>)"
      by (auto simp: upload_headers_def)
    from r(1) show "x = None" .
    from r(2) show "calls w' = calls w @ (if do_force w then [] else [GetKey (file_key f)])
         @ [SetContents (file_key f) (filedata lf) (upload_headers e w f), MakePublic (file_key f)]" .
    from r(3) neq show "bucket w' (gz_file_key (file_key f)) = bucket w (gz_file_key (file_key f))"
      by simp
  next
    assume big: "1024 < length (filedata lf) \<and> put_fault e (gz_file_key (file_key f)) = None"
    from upload_write_gzip [OF assms(4) w0(1) assms(6) w0(2) _ assms(3), of "content_type_headers ?ct"]
      big uw w0(3,4,5)
    have r: "x = None"
      "calls w' = calls w @ (if do_force w then [] else [GetKey (file_key f)])
         @ [SetContents (file_key f) (filedata lf) (upload_headers e w f), MakePublic (file_key f),
            SetContents (gz_file_key (file_key f)) (compress e (filedata lf))
              ((upload_headers e w f)(''Content-Encoding'' \<mapsto> ''gzip'')),
            MakePublic (gz_file_key (file_key f))]"
      "bucket w' = (bucket w)
          (file_key f \<mapsto> \<lparr>contents = filedata lf, obj_headers = upload_headers e w f,
              is_public = True, last_modified = now e\<rparr>,
           gz_file_key (file_key f) \<mapsto> \<lparr>contents = compress e (filedata lf),
              obj_headers = (upload_headers e w f)(''Content-Encoding'' \<mapsto> ''gzip''),
              is_public = True, last_modified = now e\<rparr>)"
      by (auto simp: upload_headers_def)
    from r(1) show "x = None" .
    from r(2) show "calls w' = calls w @ (if do_force w then [] else [GetKey (file_key f)])
         @ [SetContents (file_key f) (filedata lf) (upload_headers e w f), MakePublic (file_key f),
            SetContents (gz_file_key (file_key f)) (compress e (filedata lf))
              ((upload_headers e w f)(''Content-Encoding'' \<mapsto> ''gzip'')),
            MakePublic (gz_file_key (file_key f))]" .
    from r(3) show "bucket w' (gz_file_key (file_key f)) =
               Some \<lparr>contents = compress e (filedata lf),
                     obj_headers = (upload_headers e w f)(''Content-Encoding'' \<mapsto> ''gzip''),
                     is_public = True, last_modified = now e\<rparr>" by simp
  qed
qed

text \<open>
  The theorem at a stylesheet of exactly 1024 bytes (no variant) and at one of 1025 bytes
  (the variant \<^verbatim>\<open>app.gz.css\<close> is written).
\<close>

theorem C5_gzip_variant_threshold_witness:
  "do_gzip (ex_worker True False no_objects) \<and> \<not> dry_run (ex_worker True False no_objects)
   \<and> in_gzip_types (guess_type (ex_env 1024 100 accept_all) (filename ex_upload))
   \<and> files (ex_env 1024 100 accept_all) (filename ex_upload)
        = Some \<lparr>filedata = replicate 1024 CHR ''a'', st_mtime = 100\<rparr>
   \<and> files (ex_env 1025 100 accept_all) (filename ex_upload)
        = Some \<lparr>filedata = replicate 1025 CHR ''a'', st_mtime = 100\<rparr>
   \<and> do_force (ex_worker True False no_objects)
   \<and> put_fault (ex_env 1024 100 accept_all) ''app.css'' = None
   \<and> put_fault (ex_env 1025 100 accept_all) ''app.gz.css'' = None
   \<and> bucket (snd (upload_s3 (ex_env 1024 100 accept_all) (ex_worker True False no_objects)
                     ex_upload)) ''app.gz.css'' = None
   \<and> calls (snd (upload_s3 (ex_env 1024 100 accept_all) (ex_worker True False no_objects)
                     ex_upload))
       = [GetBucket ''media'',
          SetContents ''app.css'' (replicate 1024 CHR ''a'') [''Content-Type'' \<mapsto> ''text/css''],
          MakePublic ''app.css'']
   \<and> bucket (snd (upload_s3 (ex_env 1025 100 accept_all) (ex_worker True False no_objects)
                     ex_upload)) ''app.gz.css'' =
         Some \<lparr>contents = replicate 20 CHR ''a'',
               obj_headers = [''Content-Type'' \<mapsto> ''text/css'', ''Content-Encoding'' \<mapsto> ''gzip''],
               is_public = True, last_modified = 5000\<rparr>"
  using C5_gzip_variant_threshold
    [of "ex_worker True False no_objects" "ex_env 1024 100 accept_all" ex_upload
        "\<lparr>filedata = replicate 1024 CHR ''a'', st_mtime = 100\<rparr>"
        "fst (upload_s3 (ex_env 1024 100 accept_all) (ex_worker True False no_objects) ex_upload)"
        "snd (upload_s3 (ex_env 1024 100 accept_all) (ex_worker True False no_objects) ex_upload)"]
    C5_gzip_variant_threshold
    [of "ex_worker True False no_objects" "ex_env 1025 100 accept_all" ex_upload
        "\<lparr>filedata = replicate 1025 CHR ''a'', st_mtime = 100\<rparr>"
        "fst (upload_s3 (ex_env 1025 100 accept_all) (ex_worker True False no_objects) ex_upload)"
        "snd (upload_s3 (ex_env 1025 100 accept_all) (ex_worker True False no_objects) ex_upload)"]
  by (simp add: upload_headers_def add_expires_def)

text \<open>
  Counterexample to claim C5 as stated: an upload job with gzip enabled, not in dry-run
  mode, of a stylesheet of 2000 bytes, executed without force when the bucket holds a
  newer object under the key. The job is skipped: the lookup of the key is the only
  request, and no object is written under the gzip-variant key.
\<close>

theorem C5_skipped_upload_writes_no_variant:
  "do_gzip (ex_worker False False (ex_bucket 200))
   \<and> \<not> dry_run (ex_worker False False (ex_bucket 200))
   \<and> in_gzip_types (guess_type (ex_env 2000 100 accept_all) (filename ex_upload))
   \<and> 1024 < length (filedata (the (files (ex_env 2000 100 accept_all) (filename ex_upload))))
   \<and> upload_s3 (ex_env 2000 100 accept_all) (ex_worker False False (ex_bucket 200)) ex_upload
      = (None, (ex_worker False False (ex_bucket 200))
                 \<lparr>skip_count := 1, calls := [GetBucket ''media'', GetKey ''app.css'']\<rparr>)
   \<and> bucket (snd (upload_s3 (ex_env 2000 100 accept_all) (ex_worker False False (ex_bucket 200))
                     ex_upload)) ''app.gz.css'' = None"
  by (simp add: upload_s3_cases call_def say_def)

section \<open>Errors while a job is executed\<close>

text \<open>
  Claim C4, as amended. Of the exceptions that the execution of a job can raise, a worker
  survives exactly one: an \<^verbatim>\<open>S3CreateError\<close> raised by the write of an upload is caught,
  \<^verbatim>\<open>Failed\<close> is printed, the counters stay as they were, and the worker goes on with the
  rest of the queue. Any other exception raised by the write (an \<^verbatim>\<open>S3ResponseError\<close>, say)
  is printed and raised again; it leaves \<^verbatim>\<open>run\<close>, so the worker ends with that exception
  and the rest of the queue stays where it is. The same holds for an error that is not the
  store's: when the local file of an upload job does not exist, \<^verbatim>\<open>os.stat\<close> or \<^verbatim>\<open>open\<close>
  raises outside the \<^verbatim>\<open>try\<close> statement, the worker prints nothing about it and ends, and
  the rest of the queue stays where it is.
\<close>

theorem C4_errors_in_a_job:
  "(\<not> do_delete f \<and> \<not> dry_run w \<and> files e (filename f) = Some lf
      \<and> (do_force w \<or> (\<forall>k. bucket w (file_key f) = Some k \<longrightarrow> last_modified k \<le> st_mtime lf))
      \<and> put_fault e (file_key f) = Some S3CreateError
    \<longrightarrow> (\<exists>w'. execute e w f = (None, w') \<and> same_counts w w'
            \<and> last (out w') = PrFailed S3CreateError
            \<and> run e w (f # q) = run e w' q))
   \<and> (\<not> do_delete f \<and> \<not> dry_run w \<and> files e (filename f) = Some lf
      \<and> (do_force w \<or> (\<forall>k. bucket w (file_key f) = Some k \<longrightarrow> last_modified k \<le> st_mtime lf))
      \<and> put_fault e (file_key f) = Some err \<and> err \<noteq> S3CreateError
    \<longrightarrow> (\<exists>w'. execute e w f = (Some err, w') \<and> same_counts w w'
            \<and> last (out w') = PrException err
            \<and> run e w (f # q) = (Some err, w', q)))
   \<and> (\<not> do_delete f \<and> files e (filename f) = None
    \<longrightarrow> (\<exists>err' w'. execute e w f = (Some err', w') \<and> (err' = IOError \<or> err' = OSError)
            \<and> same_counts w w'
            \<and> out w' = out w @ (if 0 < verbosity w \<and> err' = IOError
                                 then [PrUploading (file_key f) (num w)] else [])
            \<and> run e w (f # q) = (Some err', w', q)))"
proof (intro conjI impI)
  assume a: "\<not> do_delete f \<and> \<not> dry_run w \<and> files e (filename f) = Some lf
      \<and> (do_force w \<or> (\<forall>k. bucket w (file_key f) = Some k \<longrightarrow> last_modified k \<le> st_mtime lf))
      \<and> put_fault e (file_key f) = Some S3CreateError"
  let ?w0 = "if do_force w then w else call (GetKey (file_key f)) w"
  let ?ct = "guess_type e (filename f)"
  from a have fl: "files e (filename f) = Some lf" and d: "\<not> dry_run ?w0"
    and pf: "put_fault e (file_key f) = Some S3CreateError" by simp_all
  from a have "do_force w \<or> (\<forall>k. bucket w (file_key f) = Some k \<longrightarrow> last_modified k \<le> st_mtime lf)"
    by simp
  from upload_s3_write [OF fl this]
  have us: "upload_s3 e w f = upload_write e ?w0 f ?ct (content_type_headers ?ct)" .
  from upload_write_refused [OF fl d pf, of ?ct "content_type_headers ?ct"] us a
  obtain w' where w': "execute e w f = (None, w')" "same_counts w w'"
    "last (out w') = PrFailed S3CreateError"
    by (auto simp: execute_def split: if_splits)
  from run_step(1) [OF w'(1)] w'
  show "\<exists>w'. execute e w f = (None, w') \<and> same_counts w w'
            \<and> last (out w') = PrFailed S3CreateError
            \<and> run e w (f # q) = run e w' q" by blast
next
  assume a: "\<not> do_delete f \<and> \<not> dry_run w \<and> files e (filename f) = Some lf
      \<and> (do_force w \<or> (\<forall>k. bucket w (file_key f) = Some k \<longrightarrow> last_modified k \<le> st_mtime lf))
      \<and> put_fault e (file_key f) = Some err \<and> err \<noteq> S3CreateError"
  let ?w0 = "if do_force w then w else call (GetKey (file_key f)) w"
  let ?ct = "guess_type e (filename f)"
  from a have fl: "files e (filename f) = Some lf" and d: "\<not> dry_run ?w0"
    and pf: "put_fault e (file_key f) = Some err" by simp_all
  from a have "do_force w \<or> (\<forall>k. bucket w (file_key f) = Some k \<longrightarrow> last_modified k \<le> st_mtime lf)"
    by simp
  from upload_s3_write [OF fl this]
  have us: "upload_s3 e w f = upload_write e ?w0 f ?ct (content_type_headers ?ct)" .
  from upload_write_refused [OF fl d pf, of ?ct "content_type_headers ?ct"] us a
  obtain w' where w': "execute e w f = (Some err, w')" "same_counts w w'"
    "last (out w') = PrException err"
    by (auto simp: execute_def split: if_splits)
  from run_step(2) [OF w'(1)] w'
  show "\<exists>w'. execute e w f = (Some err, w') \<and> same_counts w w'
            \<and> last (out w') = PrException err
            \<and> run e w (f # q) = (Some err, w', q)" by blast
next
  assume a: "\<not> do_delete f \<and> files e (filename f) = None"
  then have "files e (filename f) = None" by simp
  from upload_s3_missing [OF this, of w] a
  obtain err' w' where w': "execute e w f = (Some err', w')" "err' = IOError \<or> err' = OSError"
    "same_counts w w'"
    "out w' = out w @ (if 0 < verbosity w \<and> err' = IOError
                                 then [PrUploading (file_key f) (num w)] else [])"
    by (auto simp: execute_def)
  from run_step(2) [OF w'(1)] w'
  show "\<exists>err' w'. execute e w f = (Some err', w') \<and> (err' = IOError \<or> err' = OSError)
            \<and> same_counts w w'
            \<and> out w' = out w @ (if 0 < verbosity w \<and> err' = IOError
                                 then [PrUploading (file_key f) (num w)] else [])
            \<and> run e w (f # q) = (Some err', w', q)" by blast
qed

text \<open>
  The theorem at a worker with force set and the queue of an upload followed by a delete,
  when the store refuses writes with \<^verbatim>\<open>S3CreateError\<close> and with \<^verbatim>\<open>S3ResponseError\<close>, and
  at the queue of an upload whose local file is missing followed by another upload.
\<close>

theorem C4_errors_in_a_job_witness:
  "\<not> do_delete ex_upload \<and> \<not> dry_run (ex_worker True False no_objects)
   \<and> files (ex_env 10 100 (refuse_all S3CreateError)) (filename ex_upload)
        = Some \<lparr>filedata = replicate 10 CHR ''a'', st_mtime = 100\<rparr>
   \<and> do_force (ex_worker True False no_objects)
   \<and> put_fault (ex_env 10 100 (refuse_all S3CreateError)) (file_key ex_upload) = Some S3CreateError
   \<and> fst (execute (ex_env 10 100 (refuse_all S3CreateError)) (ex_worker True False no_objects)
             ex_upload) = None
   \<and> upload_count (snd (execute (ex_env 10 100 (refuse_all S3CreateError))
                            (ex_worker True False no_objects) ex_upload)) = 0
   \<and> run (ex_env 10 100 (refuse_all S3CreateError)) (ex_worker True False no_objects)
         [ex_upload, ex_delete]
       = run (ex_env 10 100 (refuse_all S3CreateError))
           (snd (execute (ex_env 10 100 (refuse_all S3CreateError))
                   (ex_worker True False no_objects) ex_upload)) [ex_delete]
   \<and> put_fault (ex_env 10 100 (refuse_all S3ResponseError)) (file_key ex_upload)
        = Some S3ResponseError
   \<and> S3ResponseError \<noteq> S3CreateError
   \<and> fst (run (ex_env 10 100 (refuse_all S3ResponseError)) (ex_worker True False no_objects)
             [ex_upload, ex_delete]) = Some S3ResponseError
   \<and> snd (snd (run (ex_env 10 100 (refuse_all S3ResponseError)) (ex_worker True False no_objects)
             [ex_upload, ex_delete])) = [ex_delete]
   \<and> files (ex_env 10 100 accept_all) (filename ex_missing) = None
   \<and> fst (run (ex_env 10 100 accept_all) (ex_worker True False no_objects)
             [ex_missing, ex_upload]) \<noteq> None
   \<and> snd (snd (run (ex_env 10 100 accept_all) (ex_worker True False no_objects)
             [ex_missing, ex_upload])) = [ex_upload]"
  using C4_errors_in_a_job
    [where f = ex_upload and w = "ex_worker True False no_objects"
       and e = "ex_env 10 100 (refuse_all S3CreateError)"
       and lf = "\<lparr>filedata = replicate 10 CHR ''a'', st_mtime = 100\<rparr>"
       and err = S3ResponseError and q = "[ex_delete]"]
    C4_errors_in_a_job
    [where f = ex_upload and w = "ex_worker True False no_objects"
       and e = "ex_env 10 100 (refuse_all S3ResponseError)"
       and lf = "\<lparr>filedata = replicate 10 CHR ''a'', st_mtime = 100\<rparr>"
       and err = S3ResponseError and q = "[ex_delete]"]
    C4_errors_in_a_job
    [where f = ex_missing and w = "ex_worker True False no_objects"
       and e = "ex_env 10 100 accept_all"
       and lf = "\<lparr>filedata = replicate 10 CHR ''a'', st_mtime = 100\<rparr>"
       and err = S3ResponseError and q = "[ex_upload]"]
  by (auto simp: same_counts_def)

text \<open>
  Counterexample to claim C4 as stated. A worker whose first job is the upload of a file
  that does not exist locally ends with \<^verbatim>\<open>IOError\<close>: it has printed the ``Uploading''
  line only, and the second job is still in the queue. A worker whose write is refused
  with \<^verbatim>\<open>S3ResponseError\<close> ends with that exception, and the delete job that follows is
  still in the queue and has not been executed.
\<close>

theorem C4_worker_stops_at_exception:
  "run (ex_env 10 100 accept_all) (ex_worker True False no_objects) [ex_missing, ex_upload]
     = (Some IOError,
        (ex_worker True False no_objects)\<lparr>out := [PrConnected 0, PrUploading ''gone.js'' 0]\<rparr>,
        [ex_upload])
   \<and> fst (run (ex_env 10 100 (refuse_all S3ResponseError)) (ex_worker True False no_objects)
             [ex_upload, ex_delete]) = Some S3ResponseError
   \<and> snd (snd (run (ex_env 10 100 (refuse_all S3ResponseError)) (ex_worker True False no_objects)
             [ex_upload, ex_delete])) = [ex_delete]
   \<and> delete_count (fst (snd (run (ex_env 10 100 (refuse_all S3ResponseError))
             (ex_worker True False no_objects) [ex_upload, ex_delete]))) = 0"
  by (simp add: run_def execute_def upload_s3_cases upload_write_missing upload_write_present
        upload_try_def put_public_def upload_except_Some Let_def say_def call_def)

section \<open>The out-of-sync check\<close>

text \<open>
  Claim C2, as amended. Take a run that gets as far as its change set: the settings are
  complete, the log is not empty when the stored revision is the initial one, and the
  stored url is empty, equal to the local one, or ignored. If the check flags at least one
  file of the change set (the first entry of its working-copy status is not normal), the
  command prints the notice followed by one line for each flagged file, in order, and
  exits with code 1. Nothing has been put into the queue and no worker has been
  constructed or started, so nothing is uploaded or deleted; the configuration bucket has
  received nothing but the write that creates a missing revision file when the run began.
  The code 1 is not zero, but it is \<^emph>\<open>not a code of its own\<close>: any run that has started its
  workers and whose exit codes add up to 1 in absolute value exits with 1 as well.
\<close>

theorem C2_out_of_sync_abort:
  assumes "check_settings st = None"
    and "stored_revision cs = INITIAL_REVISION \<longrightarrow> client_log client (the (MEDIA_ROOT st)) \<noteq> []"
    and "url (stored cs) = [] \<or> url (stored cs) = info_url (client_info client (the (MEDIA_ROOT st)))
           \<or> ignore_url opts"
    and "\<exists>file\<in>set (change_set st client cs). outofsync client file"
  shows "outcome (handle st opts client ctime_now exitcode remote cs) = SystemExit 1
     \<and> queued (handle st opts client ctime_now exitcode remote cs) = []
     \<and> started (handle st opts client ctime_now exitcode remote cs) = []
     \<and> (\<exists>before. cmd_out (final (handle st opts client ctime_now exitcode remote cs)) =
           before @ PrOutOfSync #
             map (\<lambda>file. PrOutOfSyncFile (filename file) (hd (client_status client (filename file))))
               (filter (outofsync client) (change_set st client cs)))
     \<and> conf_writes (conf (final (handle st opts client ctime_now exitcode remote cs))) =
           conf_writes cs @ first_writes cs (dryrun opts)
     \<and> (started (handle st2 opts2 client2 ctime_now2 exitcode2 remote2 cs2) \<noteq> []
          \<and> process_result exitcode2 (processes_count opts2) = 1 \<longrightarrow>
           outcome (handle st2 opts2 client2 ctime_now2 exitcode2 remote2 cs2) = SystemExit 1)"
proof -
  from handle_outofsync [OF assms] obtain c where
    h: "handle st opts client ctime_now exitcode remote cs =
     \<lparr>outcome = SystemExit 1,
      final = print_outofsync (outofsync_files_of client (change_set st client cs)) c,
      queued = [], started = []\<rparr>"
    and w: "conf_writes (conf c) = conf_writes cs @ first_writes cs (dryrun opts)" by blast
  have other: "started (handle st2 opts2 client2 ctime_now2 exitcode2 remote2 cs2) \<noteq> []
          \<and> process_result exitcode2 (processes_count opts2) = 1 \<longrightarrow>
           outcome (handle st2 opts2 client2 ctime_now2 exitcode2 remote2 cs2) = SystemExit 1"
    using handle_outcome [of st2 opts2 client2 ctime_now2 exitcode2 remote2 cs2] by simp
  from h w other show ?thesis
    by (simp add: print_outofsync_def outofsync_files_of_eq comp_def)
qed

text \<open>
  The theorem in the scenario, with \<^verbatim>\<open>b.js\<close> modified in the working copy, and with a
  clean working copy and a failing second worker.
\<close>

theorem C2_out_of_sync_abort_witness:
  "check_settings ex_settings = None
   \<and> stored_revision (ex_conf 37) \<noteq> INITIAL_REVISION
   \<and> url (stored (ex_conf 37)) = info_url (client_info (ex_client st_modified) ''/media'')
   \<and> outofsync (ex_client st_modified) (ex_jobs ! 1)
   \<and> ex_jobs ! 1 \<in> set (change_set ex_settings (ex_client st_modified) (ex_conf 37))
   \<and> outcome (handle ex_settings (ex_options False) (ex_client st_modified) ''now'' all_clean
                None (ex_conf 37)) = SystemExit 1
   \<and> queued (handle ex_settings (ex_options False) (ex_client st_modified) ''now'' all_clean
                None (ex_conf 37)) = []
   \<and> started (handle ex_settings (ex_options False) (ex_client st_modified) ''now'' all_clean
                None (ex_conf 37)) = []
   \<and> conf_writes (conf (final (handle ex_settings (ex_options False) (ex_client st_modified)
                ''now'' all_clean None (ex_conf 37)))) = []
   \<and> started (handle ex_settings (ex_options False) (ex_client st_normal) ''now'' second_fails
                None (ex_conf 37)) \<noteq> []
   \<and> process_result second_fails (processes_count (ex_options False)) = 1
   \<and> outcome (handle ex_settings (ex_options False) (ex_client st_normal) ''now'' second_fails
                None (ex_conf 37)) = SystemExit 1"
  using C2_out_of_sync_abort [where st = ex_settings and cs = "ex_conf 37"
      and client = "ex_client st_modified" and opts = "ex_options False"
      and ctime_now = "''now''" and exitcode = all_clean and remote = None
      and ?st2.0 = ex_settings and ?opts2.0 = "ex_options False"
      and ?client2.0 = "ex_client st_normal" and ?ctime_now2.0 = "''now''"
      and ?exitcode2.0 = second_fails and ?remote2.0 = None and ?cs2.0 = "ex_conf 37"]
  by (auto simp: INITIAL_REVISION_def first_writes_def ex_jobs_def)

text \<open>
  Counterexample to claim C2 as stated: the exit code of the abort is not distinct. In the
  scenario with \<^verbatim>\<open>b.js\<close> modified in the working copy the command stops at the check
  and exits with 1 without a worker. With a clean working copy, where the check flags no
  file, and a second worker that ends with exit code 1, the command starts its workers
  and exits with 1 too.
\<close>

theorem C2_exit_code_not_distinct:
  "outofsync (ex_client st_modified) (ex_jobs ! 1)
   \<and> started (handle ex_settings (ex_options False) (ex_client st_modified) ''now'' all_clean
                None (ex_conf 37)) = []
   \<and> outcome (handle ex_settings (ex_options False) (ex_client st_modified) ''now'' all_clean
                None (ex_conf 37)) = SystemExit 1
   \<and> filter (outofsync (ex_client st_normal))
        (change_set ex_settings (ex_client st_normal) (ex_conf 37)) = []
   \<and> started (handle ex_settings (ex_options False) (ex_client st_normal) ''now'' second_fails
                None (ex_conf 37)) \<noteq> []
   \<and> second_fails 0 = 0 \<and> second_fails 1 = 1
   \<and> outcome (handle ex_settings (ex_options False) (ex_client st_normal) ''now'' second_fails
                None (ex_conf 37)) = SystemExit 1"
  using handle_outofsync [of ex_settings "ex_conf 37" "ex_client st_modified"
      "ex_options False" "''now''" all_clean None]
    handle_outcome [of ex_settings "ex_options False" "ex_client st_normal" "''now''"
      second_fails None "ex_conf 37"]
  by (auto simp: INITIAL_REVISION_def ex_jobs_def second_fails_def)

section \<open>The first upload\<close>

text \<open>
  Claim C7. When the revision read from the configuration bucket is the initial one
  (\<open>-1\<close>), the settings are complete, the log of the media root is not empty and the
  stored url does not stop the run, the command reaches its change set with the last entry
  of the log as the revision to diff from (recorded as \<^verbatim>\<open>initial_revision\<close> too), and
  the changed files are those of the summarized diff from that revision to the current
  revision of the local repository. The client returns the log from the newest entry to
  the oldest; for a log in that order the last entry is the earliest revision.
\<close>

theorem C7_first_upload_from_earliest_revision:
  assumes "check_settings st = None"
    and "stored_revision cs = INITIAL_REVISION"
    and "client_log client (the (MEDIA_ROOT st)) \<noteq> []"
    and "url (stored cs) = [] \<or> url (stored cs) = info_url (client_info client (the (MEDIA_ROOT st)))
           \<or> ignore_url opts"
  shows "\<exists>c s3_rev changed_files.
       resolve st opts client cs =
         Inr (c, s3_rev, client_info client (the (MEDIA_ROOT st)), changed_files)
     \<and> revision s3_rev = last (client_log client (the (MEDIA_ROOT st)))
     \<and> initial_revision s3_rev = Some (last (client_log client (the (MEDIA_ROOT st))))
     \<and> (sorted (rev (client_log client (the (MEDIA_ROOT st)))) \<longrightarrow>
          revision s3_rev = Min (set (client_log client (the (MEDIA_ROOT st)))))
     \<and> changed_files =
          changed_files_of (the (AWS_BUCKET_NAME st)) (the (MEDIA_ROOT st))
            (client_diff_summarize client (the (MEDIA_ROOT st))
               (last (client_log client (the (MEDIA_ROOT st))))
               (info_url (client_info client (the (MEDIA_ROOT st))))
               (info_revision (client_info client (the (MEDIA_ROOT st)))))"
proof -
  from assms(2,3) have "stored_revision cs = INITIAL_REVISION \<longrightarrow>
      client_log client (the (MEDIA_ROOT st)) \<noteq> []" by simp
  from resolve_succeeds [OF assms(1) this assms(4)] obtain c r where
    res: "resolve st opts client cs =
            Inr (c, r, client_info client (the (MEDIA_ROOT st)), change_set st client cs)" by blast
  from resolve_Inr(3,5) [OF res] assms(2)
  have r: "revision r = last (client_log client (the (MEDIA_ROOT st)))"
    "initial_revision r = Some (last (client_log client (the (MEDIA_ROOT st))))"
    by (simp_all add: from_revision_def)
  from assms(2) have cs: "change_set st client cs =
      changed_files_of (the (AWS_BUCKET_NAME st)) (the (MEDIA_ROOT st))
            (client_diff_summarize client (the (MEDIA_ROOT st))
               (last (client_log client (the (MEDIA_ROOT st))))
               (info_url (client_info client (the (MEDIA_ROOT st))))
               (info_revision (client_info client (the (MEDIA_ROOT st)))))"
    by (simp add: change_set_def from_revision_def)
  from res r cs last_Min_descending [OF assms(3)] show ?thesis by auto
qed

text \<open>
  The theorem in the scenario with no revision file in the configuration bucket: the diff
  starts from revision 12, the earliest of the log, and the change set has the file added
  since then in front of the three files of the diff from revision 37.
\<close>

theorem C7_first_upload_from_earliest_revision_witness:
  "check_settings ex_settings = None
   \<and> stored_revision ex_new_conf = INITIAL_REVISION
   \<and> client_log (ex_client st_normal) (the (MEDIA_ROOT ex_settings)) = [40, 38, 37, 12]
   \<and> url (stored ex_new_conf) = []
   \<and> sorted (rev [40, 38, 37, 12 :: int])
   \<and> Min (set [40, 38, 37, 12 :: int]) = 12
   \<and> (case resolve ex_settings (ex_options False) (ex_client st_normal) ex_new_conf of
        Inl a \<Rightarrow> False
      | Inr (c, s3_rev, info, changed_files) \<Rightarrow>
          revision s3_rev = 12 \<and> initial_revision s3_rev = Some 12
          \<and> map file_key changed_files = [''first.css'', ''a.css'', ''b.js'', ''old/c.png''])"
  using C7_first_upload_from_earliest_revision
    [of ex_settings ex_new_conf "ex_client st_normal" "ex_options False"]
  by (auto simp: ex_changes_def path_join_def)

section \<open>The checkpoint after the workers\<close>

text \<open>
  Claim C1, as amended. Take a run that has started its workers. If some worker ends with
  an exit code other than zero, the command exits with the sum of the absolute values of
  the exit codes, which is not zero, the stored revision is what it was before the run,
  and the only write the configuration bucket may have received is the one that creates
  a missing revision file when the run began. If every worker exits with zero and the run
  is \<^emph>\<open>not a dry run\<close>, the command returns and the revision file has been written exactly
  once after the workers, as the last write, with the current revision of the local
  repository and the current time as \<^verbatim>\<open>last_update\<close>. If every worker exits with zero
  in a \<^emph>\<open>dry run\<close>, the command returns and the revision file has not been written at all.
\<close>

theorem C1_checkpoint_after_the_workers:
  assumes "started (handle st opts client ctime_now exitcode remote cs) \<noteq> []"
  shows "((\<exists>k<processes_count opts. exitcode k \<noteq> 0) \<longrightarrow>
            outcome (handle st opts client ctime_now exitcode remote cs)
              = SystemExit (process_result exitcode (processes_count opts))
          \<and> process_result exitcode (processes_count opts) \<noteq> 0
          \<and> stored_revision (conf (final (handle st opts client ctime_now exitcode remote cs)))
              = stored_revision cs
          \<and> conf_writes (conf (final (handle st opts client ctime_now exitcode remote cs)))
              = conf_writes cs @ first_writes cs (dryrun opts))
       \<and> ((\<forall>k<processes_count opts. exitcode k = 0) \<and> \<not> dryrun opts \<longrightarrow>
            outcome (handle st opts client ctime_now exitcode remote cs) = Returned
          \<and> (\<exists>s. conf_key (conf (final (handle st opts client ctime_now exitcode remote cs)))
                    = Some s
                \<and> revision s = info_revision (client_info client (the (MEDIA_ROOT st)))
                \<and> last_update s = Some ctime_now
                \<and> conf_writes (conf (final (handle st opts client ctime_now exitcode remote cs)))
                    = conf_writes cs @ first_writes cs False @ [s]))
       \<and> ((\<forall>k<processes_count opts. exitcode k = 0) \<and> dryrun opts \<longrightarrow>
            outcome (handle st opts client ctime_now exitcode remote cs) = Returned
          \<and> conf_key (conf (final (handle st opts client ctime_now exitcode remote cs)))
              = conf_key cs
          \<and> conf_writes (conf (final (handle st opts client ctime_now exitcode remote cs)))
              = conf_writes cs)"
proof -
  let ?H = "handle st opts client ctime_now exitcode remote cs"
  let ?p = "process_result exitcode (processes_count opts)"
  from handle_started [OF assms] obtain c r info changed where
    res: "resolve st opts client cs = Inr (c, r, info, changed)"
    and ok: "\<forall>f\<in>set changed. \<not> outofsync client f" "changed \<noteq> []" by blast
  note rp = resolve_Inr [OF res]
  from handle_Inr [OF res] dispatch_workers [OF ok]
  have h: "outcome ?H = fst (finish c r info ctime_now ?p)"
    "final ?H = snd (finish c r info ctime_now ?p)" by simp_all
  from rp(6) have st: "stored (conf c) = stored cs" by (rule stored_after_load)
  show ?thesis
  proof (intro conjI impI)
    assume "\<exists>k<processes_count opts. exitcode k \<noteq> 0"
    then have p: "?p \<noteq> 0" by (simp add: process_result_zero)
    with h have o: "outcome ?H = SystemExit ?p" "final ?H = c" by (simp_all add: finish_failed)
    from o(1) show "outcome ?H = SystemExit ?p" .
    from p show "?p \<noteq> 0" .
    from o(2) st show "stored_revision (conf (final ?H)) = stored_revision cs"
      by (simp add: stored_revision_def)
    from o(2) rp(7) show "conf_writes (conf (final ?H)) = conf_writes cs @ first_writes cs (dryrun opts)"
      by simp
  next
    assume a: "(\<forall>k<processes_count opts. exitcode k = 0) \<and> \<not> dryrun opts"
    then have p: "?p = 0" by (simp add: process_result_zero)
    obtain oc c' where f: "finish c r info ctime_now 0 = (oc, c')"
      by (cases "finish c r info ctime_now 0")
    note fc = finish_clean [OF f]
    from h p f fc(1) show "outcome ?H = Returned" by simp
    let ?s = "r\<lparr>revision := info_revision info, last_update := Some ctime_now\<rparr>"
    from h p f fc(2,3) rp(2,7,8) a
    have "conf_key (conf (final ?H)) = Some ?s
        \<and> revision ?s = info_revision (client_info client (the (MEDIA_ROOT st)))
        \<and> last_update ?s = Some ctime_now
        \<and> conf_writes (conf (final ?H)) = conf_writes cs @ first_writes cs False @ [?s]"
      by simp
    then show "\<exists>s. conf_key (conf (final ?H)) = Some s
                \<and> revision s = info_revision (client_info client (the (MEDIA_ROOT st)))
                \<and> last_update s = Some ctime_now
                \<and> conf_writes (conf (final ?H)) = conf_writes cs @ first_writes cs False @ [s]"
      by blast
  next
    assume a: "(\<forall>k<processes_count opts. exitcode k = 0) \<and> dryrun opts"
    then have p: "?p = 0" by (simp add: process_result_zero)
    obtain oc c' where f: "finish c r info ctime_now 0 = (oc, c')"
      by (cases "finish c r info ctime_now 0")
    note fc = finish_clean [OF f]
    from h p f fc(1) show "outcome ?H = Returned" by simp
    from h p f fc(2) rp(6,8) a show "conf_key (conf (final ?H)) = conf_key cs" by simp
    from h p f fc(3) rp(7,8) a show "conf_writes (conf (final ?H)) = conf_writes cs"
      by (simp add: first_writes_def)
  qed
qed

text \<open>
  The theorem in the scenario: with a failing second worker (exit code 1, stored revision
  still 37, no write), with clean workers (stored revision 40, one write), and with clean
  workers in a dry run (stored revision still 37).
\<close>

theorem C1_checkpoint_after_the_workers_witness:
  "started (handle ex_settings (ex_options False) (ex_client st_normal) ''now'' second_fails None
              (ex_conf 37)) \<noteq> []
   \<and> second_fails 1 \<noteq> 0
   \<and> outcome (handle ex_settings (ex_options False) (ex_client st_normal) ''now'' second_fails
                None (ex_conf 37)) = SystemExit 1
   \<and> stored_revision (conf (final (handle ex_settings (ex_options False) (ex_client st_normal)
                ''now'' second_fails None (ex_conf 37)))) = 37
   \<and> conf_writes (conf (final (handle ex_settings (ex_options False) (ex_client st_normal)
                ''now'' second_fails None (ex_conf 37)))) = []
   \<and> started (handle ex_settings (ex_options False) (ex_client st_normal) ''now'' all_clean None
              (ex_conf 37)) \<noteq> []
   \<and> outcome (handle ex_settings (ex_options False) (ex_client st_normal) ''now'' all_clean
                None (ex_conf 37)) = Returned
   \<and> stored_revision (conf (final (handle ex_settings (ex_options False) (ex_client st_normal)
                ''now'' all_clean None (ex_conf 37)))) = 40
   \<and> length (conf_writes (conf (final (handle ex_settings (ex_options False)
                (ex_client st_normal) ''now'' all_clean None (ex_conf 37))))) = 1
   \<and> outcome (handle ex_settings (ex_options True) (ex_client st_normal) ''now'' all_clean
                None (ex_conf 37)) = Returned
   \<and> stored_revision (conf (final (handle ex_settings (ex_options True) (ex_client st_normal)
                ''now'' all_clean None (ex_conf 37)))) = 37"
proof -
  have fails: "\<exists>k<processes_count (ex_options False). second_fails k \<noteq> 0"
    by (intro exI [of _ 1]) simp
  have clean: "\<forall>k<processes_count (ex_options dry). all_clean k = 0" for dry by simp
  from C1_checkpoint_after_the_workers
      [of ex_settings "ex_options False" "ex_client st_normal" "''now''" second_fails None
          "ex_conf 37"] fails
  have a: "outcome (handle ex_settings (ex_options False) (ex_client st_normal) ''now''
                second_fails None (ex_conf 37)) = SystemExit 1"
    "stored_revision (conf (final (handle ex_settings (ex_options False) (ex_client st_normal)
                ''now'' second_fails None (ex_conf 37)))) = 37"
    "conf_writes (conf (final (handle ex_settings (ex_options False) (ex_client st_normal)
                ''now'' second_fails None (ex_conf 37)))) = []"
    by (simp_all add: first_writes_def)
  from C1_checkpoint_after_the_workers
      [of ex_settings "ex_options False" "ex_client st_normal" "''now''" all_clean None
          "ex_conf 37"] clean [of False]
  have b: "outcome (handle ex_settings (ex_options False) (ex_client st_normal) ''now'' all_clean
                None (ex_conf 37)) = Returned"
    "stored_revision (conf (final (handle ex_settings (ex_options False) (ex_client st_normal)
                ''now'' all_clean None (ex_conf 37)))) = 40"
    "length (conf_writes (conf (final (handle ex_settings (ex_options False)
                (ex_client st_normal) ''now'' all_clean None (ex_conf 37))))) = 1"
    by (auto simp: first_writes_def stored_revision_def stored_def)
  from C1_checkpoint_after_the_workers
      [of ex_settings "ex_options True" "ex_client st_normal" "''now''" all_clean None
          "ex_conf 37"] clean [of True]
  have c: "outcome (handle ex_settings (ex_options True) (ex_client st_normal) ''now'' all_clean
                None (ex_conf 37)) = Returned"
    "stored_revision (conf (final (handle ex_settings (ex_options True) (ex_client st_normal)
                ''now'' all_clean None (ex_conf 37)))) = 37"
    by (simp_all add: stored_revision_def stored_def)
  from a b c show ?thesis by simp
qed

text \<open>
  Counterexample to claim C1 as stated: a dry run of the scenario in which every worker
  exits clean. The command returns, the local repository is at revision 40, and the
  revision file still holds revision 37: it has not been written.
\<close>

theorem C1_dry_run_success_leaves_checkpoint:
  "dryrun (ex_options True)
   \<and> started (handle ex_settings (ex_options True) (ex_client st_normal) ''now'' all_clean None
              (ex_conf 37)) \<noteq> []
   \<and> process_result all_clean (processes_count (ex_options True)) = 0
   \<and> outcome (handle ex_settings (ex_options True) (ex_client st_normal) ''now'' all_clean
                None (ex_conf 37)) = Returned
   \<and> info_revision (client_info (ex_client st_normal) ''/media'') = 40
   \<and> conf_key (conf (final (handle ex_settings (ex_options True) (ex_client st_normal)
                ''now'' all_clean None (ex_conf 37)))) = Some (ex_stored 37)
   \<and> revision (ex_stored 37) = 37
   \<and> conf_writes (conf (final (handle ex_settings (ex_options True) (ex_client st_normal)
                ''now'' all_clean None (ex_conf 37)))) = []"
  using handle_dry_conf [of "ex_options True" ex_settings "ex_client st_normal" "''now''"
      all_clean None "ex_conf 37"]
    handle_outcome [of ex_settings "ex_options True" "ex_client st_normal" "''now''"
      all_clean None "ex_conf 37"]
  by simp

section \<open>Dry runs\<close>

text \<open>
  Claim C9, as amended. A worker in dry-run mode sends no write and no delete, and the
  bucket stays as it is: a delete job sends nothing, an upload job sends nothing when force
  is set, and \<^emph>\<open>without force an upload job still sends the lookup of its key\<close>, which the
  timestamp check needs. Over a whole run the requests of such a worker are the lookups
  of the upload jobs it has taken from the queue, and none when force is set (as it is
  for every worker of the svn-sync command). In a dry run of the command the revision file
  of the configuration bucket is never written, however the command ends.
\<close>

theorem C9_dry_run_requests:
  "(dry_run w \<and> execute e w f = (x, w') \<longrightarrow>
       bucket w' = bucket w
     \<and> calls w' = calls w @ (if do_force w \<or> do_delete f then [] else [GetKey (file_key f)]))
   \<and> (dry_run w \<and> run e w q = (x, w', rest) \<longrightarrow>
       bucket w' = bucket w
     \<and> calls w' = calls w @
          (if do_force w then [] else lookups (take (length q - length rest) q)))
   \<and> (dryrun opts \<longrightarrow>
       conf_key (conf (final (handle st opts client ctime_now exitcode remote cs))) = conf_key cs
     \<and> conf_writes (conf (final (handle st opts client ctime_now exitcode remote cs)))
          = conf_writes cs)"
proof (intro conjI impI)
  assume a: "dry_run w \<and> execute e w f = (x, w')"
  then have "dry_run w" "execute e w f = (x, w')" by simp_all
  from execute_dry [OF this]
  show "bucket w' = bucket w" 
    and "calls w' = calls w @ (if do_force w \<or> do_delete f then [] else [GetKey (file_key f)])"
    by auto
next
  assume a: "dry_run w \<and> run e w q = (x, w', rest)"
  obtain x1 w1 r1 where rl: "run_loop e w q = (x1, w1, r1)" by (cases "run_loop e w q") auto
  from run_fields [OF rl] a have eq: "r1 = rest" "calls w' = calls w1" "bucket w' = bucket w1"
    by auto
  from a have "dry_run w" by simp
  from run_loop_dry [OF this rl] eq
  show "bucket w' = bucket w"
    and "calls w' = calls w @
          (if do_force w then [] else lookups (take (length q - length rest) q))"
    by simp_all
next
  assume "dryrun opts"
  from handle_dry_conf [OF this]
  show "conf_key (conf (final (handle st opts client ctime_now exitcode remote cs))) = conf_key cs"
    and "conf_writes (conf (final (handle st opts client ctime_now exitcode remote cs)))
          = conf_writes cs"
    by simp_all
qed

text \<open>
  The theorem at an upload job without force, at a run of an upload and a delete with
  force, and at a dry run of the scenario.
\<close>

theorem C9_dry_run_requests_witness:
  "dry_run (ex_worker False True (ex_bucket 50))
   \<and> bucket (snd (execute (ex_env 10 100 accept_all) (ex_worker False True (ex_bucket 50))
                    ex_upload)) = ex_bucket 50
   \<and> calls (snd (execute (ex_env 10 100 accept_all) (ex_worker False True (ex_bucket 50))
                    ex_upload)) = [GetBucket ''media'', GetKey ''app.css'']
   \<and> dry_run (ex_worker True True (ex_bucket 50))
   \<and> bucket (fst (snd (run (ex_env 10 100 accept_all) (ex_worker True True (ex_bucket 50))
                    [ex_upload, ex_delete]))) = ex_bucket 50
   \<and> calls (fst (snd (run (ex_env 10 100 accept_all) (ex_worker True True (ex_bucket 50))
                    [ex_upload, ex_delete]))) = [GetBucket ''media'']
   \<and> dryrun (ex_options True)
   \<and> conf_key (conf (final (handle ex_settings (ex_options True) (ex_client st_normal) ''now''
        all_clean None (ex_conf 37)))) = Some (ex_stored 37)
   \<and> conf_writes (conf (final (handle ex_settings (ex_options True) (ex_client st_normal) ''now''
        all_clean None (ex_conf 37)))) = []"
  using C9_dry_run_requests
      [where w = "ex_worker False True (ex_bucket 50)" and e = "ex_env 10 100 accept_all"
         and f = ex_upload
         and x = "fst (execute (ex_env 10 100 accept_all) (ex_worker False True (ex_bucket 50))
                    ex_upload)"
         and w' = "snd (execute (ex_env 10 100 accept_all) (ex_worker False True (ex_bucket 50))
                    ex_upload)"
         and opts = "ex_options True" and st = ex_settings and client = "ex_client st_normal"
         and ctime_now = "''now''" and exitcode = all_clean and remote = None
         and cs = "ex_conf 37"]
    C9_dry_run_requests
      [where w = "ex_worker True True (ex_bucket 50)" and e = "ex_env 10 100 accept_all"
         and q = "[ex_upload, ex_delete]"
         and x = "fst (run (ex_env 10 100 accept_all) (ex_worker True True (ex_bucket 50))
                    [ex_upload, ex_delete])"
         and w' = "fst (snd (run (ex_env 10 100 accept_all) (ex_worker True True (ex_bucket 50))
                    [ex_upload, ex_delete]))"
         and rest = "snd (snd (run (ex_env 10 100 accept_all) (ex_worker True True (ex_bucket 50))
                    [ex_upload, ex_delete]))"]
  by simp

text \<open>
  Counterexample to claim C9 as stated: a worker in dry-run mode without force executes an
  upload job. It sends \<^verbatim>\<open>get_key\<close> for the key of the job, a metadata call to the store.
\<close>

theorem C9_dry_run_upload_looks_key_up:
  "dry_run (ex_worker False True no_objects)
   \<and> \<not> do_force (ex_worker False True no_objects)
   \<and> upload_s3 (ex_env 10 100 accept_all) (ex_worker False True no_objects) ex_upload
      = (None, (ex_worker False True no_objects)
                 \<lparr>upload_count := 1, calls := [GetBucket ''media'', GetKey ''app.css''],
                  out := [PrConnected 0, PrUploading ''app.css'' 0]\<rparr>)"
  by (simp add: upload_s3_cases upload_write_present upload_try_dry upload_except_None
        call_def say_def print_expires_def)

section \<open>Force in the svn-sync command\<close>

text \<open>
  Claim C10, as amended. Every worker that the svn-sync command starts has force set,
  whatever the options are, and starts with a skip counter of zero. Whatever queue such a
  worker runs on, its skip counter is zero when \<^verbatim>\<open>run\<close> ends, and the only lookups of
  keys it has sent are those of the gzip-variant keys of delete jobs: the lookup of the
  timestamp check is never sent and no upload job is skipped. A run that raises nothing
  has emptied the queue. \<^emph>\<open>When the command is not a dry run\<close>, the worker has sent the write
  of the local file, under the key of the job, for every upload job it has taken from the
  queue whose local file can be read, whatever the bucket holds; \<^emph>\<open>in a dry run\<close> it has
  sent nothing at all and the bucket is as it was. When the local file of every upload job
  of the queue can be read and the store accepts every write (or the command is a dry
  run), the run raises nothing, empties the queue and has counted every upload job as
  uploaded and every delete job as deleted. An upload job executed after any jobs that
  raised nothing is the part of \<^verbatim>\<open>upload_s3\<close> that follows the timestamp check.
\<close>

theorem C10_svnsync_always_forces:
  assumes "w \<in> set (started (handle st opts client ctime_now exitcode remote cs))"
  shows "do_force w \<and> skip_count w = 0
     \<and> (run e w q = (x, w', rest) \<longrightarrow>
           do_force w' \<and> skip_count w' = 0
         \<and> (\<forall>k. GetKey k \<in> set (calls w') \<longrightarrow>
                (\<exists>f\<in>set q. do_delete f \<and> k = gz_file_key (file_key f)))
         \<and> (x = None \<longrightarrow> rest = [])
         \<and> (\<not> dryrun opts \<longrightarrow>
               (\<forall>f\<in>set (take (length q - length rest) q). \<not> do_delete f \<longrightarrow>
                  (\<forall>lf. files e (filename f) = Some lf \<longrightarrow>
                     SetContents (file_key f) (filedata lf) (upload_headers e w f)
                       \<in> set (calls w'))))
         \<and> (dryrun opts \<longrightarrow> calls w' = calls w \<and> bucket w' = bucket w))
     \<and> ((\<forall>f\<in>set q. \<not> do_delete f \<longrightarrow> files e (filename f) \<noteq> None)
          \<and> (dryrun opts \<or> (\<forall>k. put_fault e k = None)) \<longrightarrow>
           (\<exists>w''. run e w q = (None, w'', [])
              \<and> upload_count w'' = length (filter (\<lambda>f. \<not> do_delete f) q)
              \<and> delete_count w'' = length (filter do_delete q)
              \<and> skip_count w'' = 0))
     \<and> (run_loop e w q1 = (None, w1, []) \<and> \<not> do_delete f \<longrightarrow>
           execute e w1 f =
             upload_write e w1 f (guess_type e (filename f))
               (content_type_headers (guess_type e (filename f)))
         \<and> skip_count (snd (execute e w1 f)) = 0
         \<and> (files e (filename f) = Some lf \<and> \<not> dryrun opts \<longrightarrow>
               (\<exists>more. calls (snd (execute e w1 f)) = calls w1 @
                   SetContents (file_key f) (filedata lf) (upload_headers e w f) # more)))"
proof (intro conjI impI)
  note sw = started_worker [OF assms]
  from sw(1) show "do_force w" .
  from sw(2) show "skip_count w = 0" .
  {
    assume r: "run e w q = (x, w', rest)"
    obtain x1 w1 r1 where rl: "run_loop e w q = (x1, w1, r1)" by (cases "run_loop e w q") auto
    from run_fields [OF rl] r have eq: "x1 = x" "r1 = rest" "calls w' = calls w1"
      "bucket w' = bucket w1" "same_counts w1 w'" by auto
    from run_frame [OF r] sw(1) show "do_force w'" by (simp add: same_config_def)
    from run_loop_force [OF sw(1) rl] eq sw(2) show "skip_count w' = 0"
      by (simp add: same_counts_def)
    from run_loop_force [OF sw(1) rl] eq(3) sw(6)
    show "\<forall>k. GetKey k \<in> set (calls w') \<longrightarrow>
                (\<exists>f\<in>set q. do_delete f \<and> k = gz_file_key (file_key f))" by simp
    {
      assume "x = None"
      with rl eq(1,2) have "run_loop e w q = (None, w1, rest)" by simp
      from run_loop_returns [OF this] show "rest = []" .
    }
    {
      assume "\<not> dryrun opts"
      with sw(3) have "\<not> dry_run w" by simp
      from run_loop_force_puts [OF sw(1) this rl] eq(2,3)
      show "\<forall>f\<in>set (take (length q - length rest) q). \<not> do_delete f \<longrightarrow>
                  (\<forall>lf. files e (filename f) = Some lf \<longrightarrow>
                     SetContents (file_key f) (filedata lf) (upload_headers e w f)
                       \<in> set (calls w'))" by simp
    }
    {
      assume "dryrun opts"
      with sw(3) have "dry_run w" by simp
      from run_loop_dry [OF this rl] sw(1) eq(3,4)
      show "calls w' = calls w" and "bucket w' = bucket w" by simp_all
    }
  }
  {
    assume a: "(\<forall>f\<in>set q. \<not> do_delete f \<longrightarrow> files e (filename f) \<noteq> None)
          \<and> (dryrun opts \<or> (\<forall>k. put_fault e k = None))"
    then have fs: "\<forall>f\<in>set q. \<not> do_delete f \<longrightarrow> files e (filename f) \<noteq> None"
      and st: "dry_run w \<or> (\<forall>k. put_fault e k = None)" using sw(3) by simp_all
    from run_loop_force_clean [OF sw(1) fs st] sw(2) obtain w1 where
      rl: "run_loop e w q = (None, w1, [])"
      and c: "upload_count w1 = upload_count w + length (filter (\<lambda>f. \<not> do_delete f) q)"
        "delete_count w1 = delete_count w + length (filter do_delete q)" by blast
    from sw(7,8) c have c': "upload_count w1 = length (filter (\<lambda>f. \<not> do_delete f) q)"
      "delete_count w1 = length (filter do_delete q)" by simp_all
    from run_loop_force [OF sw(1) rl] sw(2) have sk: "skip_count w1 = 0" by simp
    from run_fields [OF rl] obtain w2 where "run e w q = (None, w2, [])" "same_counts w1 w2"
      by blast
    with c' sk show "\<exists>w''. run e w q = (None, w'', [])
              \<and> upload_count w'' = length (filter (\<lambda>f. \<not> do_delete f) q)
              \<and> delete_count w'' = length (filter do_delete q)
              \<and> skip_count w'' = 0"
      by (auto simp: same_counts_def)
  }
  {
    assume a: "run_loop e w q1 = (None, w1, []) \<and> \<not> do_delete f"
    then have rl: "run_loop e w q1 = (None, w1, [])" by simp
    from run_loop_frame [OF rl] sw(1,3)
    have cfg: "do_force w1" "dry_run w1 = dryrun opts" "do_expires w1 = do_expires w"
      by (simp_all add: same_config_def)
    from run_loop_force [OF sw(1) rl] sw(2) have sk: "skip_count w1 = 0" by simp
    from a cfg(1) show ex: "execute e w1 f =
             upload_write e w1 f (guess_type e (filename f))
               (content_type_headers (guess_type e (filename f)))"
      by (simp add: execute_def upload_s3_cases)
    obtain x2 w2 where uw: "upload_write e w1 f (guess_type e (filename f))
        (content_type_headers (guess_type e (filename f))) = (x2, w2)"
      by (cases "upload_write e w1 f (guess_type e (filename f))
                   (content_type_headers (guess_type e (filename f)))")
    from upload_write_frame [OF uw] sk ex uw show "skip_count (snd (execute e w1 f)) = 0" by simp
    {
      assume b: "files e (filename f) = Some lf \<and> \<not> dryrun opts"
      then have fl: "files e (filename f) = Some lf" and d: "\<not> dry_run w1"
        using cfg(2) by simp_all
      from upload_write_sends [OF fl d uw] cfg(3) ex uw
      show "\<exists>more. calls (snd (execute e w1 f)) = calls w1 @
                   SetContents (file_key f) (filedata lf) (upload_headers e w f) # more"
        by (auto simp: upload_headers_def)
    }
  }
qed

text \<open>
  The theorem at the first worker of the scenario, on a queue of a delete job and an
  upload job whose file can be read, with a store that accepts every write: the run
  raises nothing, empties the queue, counts one upload and one delete, skips nothing and
  has sent the write of the file.
\<close>

theorem C10_svnsync_always_forces_witness:
  "hd (started (handle ex_settings (ex_options False) (ex_client st_normal) ''now'' all_clean None (ex_conf 37))) \<in> set (started (handle ex_settings (ex_options False) (ex_client st_normal) ''now'' all_clean None (ex_conf 37)))
   \<and> do_force (hd (started (handle ex_settings (ex_options False) (ex_client st_normal) ''now'' all_clean None (ex_conf 37)))) \<and> skip_count (hd (started (handle ex_settings (ex_options False) (ex_client st_normal) ''now'' all_clean None (ex_conf 37)))) = 0
   \<and> \<not> dryrun (ex_options False)
   \<and> do_delete ex_delete \<and> \<not> do_delete ex_upload
   \<and> files (ex_env 10 100 accept_all) (filename ex_upload) = Some \<lparr>filedata = replicate 10 CHR ''a'', st_mtime = 100\<rparr>
   \<and> put_fault (ex_env 10 100 accept_all) ''app.css'' = None
   \<and> fst (run (ex_env 10 100 accept_all) (hd (started (handle ex_settings (ex_options False) (ex_client st_normal) ''now'' all_clean None (ex_conf 37)))) [ex_delete, ex_upload]) = None
   \<and> snd (snd (run (ex_env 10 100 accept_all) (hd (started (handle ex_settings (ex_options False) (ex_client st_normal) ''now'' all_clean None (ex_conf 37)))) [ex_delete, ex_upload])) = []
   \<and> upload_count (fst (snd (run (ex_env 10 100 accept_all) (hd (started (handle ex_settings (ex_options False) (ex_client st_normal) ''now'' all_clean None (ex_conf 37)))) [ex_delete, ex_upload]))) = 1
   \<and> delete_count (fst (snd (run (ex_env 10 100 accept_all) (hd (started (handle ex_settings (ex_options False) (ex_client st_normal) ''now'' all_clean None (ex_conf 37)))) [ex_delete, ex_upload]))) = 1
   \<and> skip_count (fst (snd (run (ex_env 10 100 accept_all) (hd (started (handle ex_settings (ex_options False) (ex_client st_normal) ''now'' all_clean None (ex_conf 37)))) [ex_delete, ex_upload]))) = 0
   \<and> SetContents ''app.css'' (replicate 10 CHR ''a'') [''Content-Type'' \<mapsto> ''text/css'']
        \<in> set (calls (fst (snd (run (ex_env 10 100 accept_all) (hd (started (handle ex_settings (ex_options False) (ex_client st_normal) ''now'' all_clean None (ex_conf 37)))) [ex_delete, ex_upload]))))
   \<and> run_loop (ex_env 10 100 accept_all) (hd (started (handle ex_settings (ex_options False) (ex_client st_normal) ''now'' all_clean None (ex_conf 37)))) [] = (None, (hd (started (handle ex_settings (ex_options False) (ex_client st_normal) ''now'' all_clean None (ex_conf 37)))), [])
   \<and> skip_count (snd (execute (ex_env 10 100 accept_all) (hd (started (handle ex_settings (ex_options False) (ex_client st_normal) ''now'' all_clean None (ex_conf 37)))) ex_upload)) = 0"
proof -
  have m: "hd (started (handle ex_settings (ex_options False) (ex_client st_normal) ''now'' all_clean None (ex_conf 37))) \<in> set (started (handle ex_settings (ex_options False) (ex_client st_normal) ''now'' all_clean None (ex_conf 37)))" by simp
  from started_worker(5) [OF m] have x: "\<not> do_expires (hd (started (handle ex_settings (ex_options False) (ex_client st_normal) ''now'' all_clean None (ex_conf 37))))" by simp
  note T = C10_svnsync_always_forces [OF m, where e = "(ex_env 10 100 accept_all)" and q = "[ex_delete, ex_upload]"
      and x = "fst (run (ex_env 10 100 accept_all) (hd (started (handle ex_settings (ex_options False) (ex_client st_normal) ''now'' all_clean None (ex_conf 37)))) [ex_delete, ex_upload])"
      and w' = "fst (snd (run (ex_env 10 100 accept_all) (hd (started (handle ex_settings (ex_options False) (ex_client st_normal) ''now'' all_clean None (ex_conf 37)))) [ex_delete, ex_upload]))"
      and rest = "snd (snd (run (ex_env 10 100 accept_all) (hd (started (handle ex_settings (ex_options False) (ex_client st_normal) ''now'' all_clean None (ex_conf 37)))) [ex_delete, ex_upload]))"
      and ?q1.0 = "[]" and ?w1.0 = "(hd (started (handle ex_settings (ex_options False) (ex_client st_normal) ''now'' all_clean None (ex_conf 37))))" and f = ex_upload
      and lf = "\<lparr>filedata = replicate 10 CHR ''a'', st_mtime = 100\<rparr>"]
  note T1 = T [THEN conjunct1] and T2 = T [THEN conjunct2, THEN conjunct1]
    and TR = T [THEN conjunct2, THEN conjunct2, THEN conjunct1]
    and TC = T [THEN conjunct2, THEN conjunct2, THEN conjunct2, THEN conjunct1]
    and TL = T [THEN conjunct2, THEN conjunct2, THEN conjunct2, THEN conjunct2]
  from TC have clean: "fst (run (ex_env 10 100 accept_all) (hd (started (handle ex_settings (ex_options False) (ex_client st_normal) ''now'' all_clean None (ex_conf 37)))) [ex_delete, ex_upload]) = None"
    "snd (snd (run (ex_env 10 100 accept_all) (hd (started (handle ex_settings (ex_options False) (ex_client st_normal) ''now'' all_clean None (ex_conf 37)))) [ex_delete, ex_upload])) = []"
    "upload_count (fst (snd (run (ex_env 10 100 accept_all) (hd (started (handle ex_settings (ex_options False) (ex_client st_normal) ''now'' all_clean None (ex_conf 37)))) [ex_delete, ex_upload]))) = 1"
    "delete_count (fst (snd (run (ex_env 10 100 accept_all) (hd (started (handle ex_settings (ex_options False) (ex_client st_normal) ''now'' all_clean None (ex_conf 37)))) [ex_delete, ex_upload]))) = 1"
    "skip_count (fst (snd (run (ex_env 10 100 accept_all) (hd (started (handle ex_settings (ex_options False) (ex_client st_normal) ''now'' all_clean None (ex_conf 37)))) [ex_delete, ex_upload]))) = 0"
    by auto
  from clean(2) have pr: "run (ex_env 10 100 accept_all) (hd (started (handle ex_settings (ex_options False) (ex_client st_normal) ''now'' all_clean None (ex_conf 37)))) [ex_delete, ex_upload] =
      (fst (run (ex_env 10 100 accept_all) (hd (started (handle ex_settings (ex_options False) (ex_client st_normal) ''now'' all_clean None (ex_conf 37)))) [ex_delete, ex_upload]), fst (snd (run (ex_env 10 100 accept_all) (hd (started (handle ex_settings (ex_options False) (ex_client st_normal) ''now'' all_clean None (ex_conf 37)))) [ex_delete, ex_upload])), [])"
    by (simp add: prod_eq_iff)
  from TR pr clean(2) x
  have put: "SetContents ''app.css'' (replicate 10 CHR ''a'') [''Content-Type'' \<mapsto> ''text/css'']
        \<in> set (calls (fst (snd (run (ex_env 10 100 accept_all) (hd (started (handle ex_settings (ex_options False) (ex_client st_normal) ''now'' all_clean None (ex_conf 37)))) [ex_delete, ex_upload]))))"
    by (simp add: upload_headers_def add_expires_def)
  from TL have "skip_count (snd (execute (ex_env 10 100 accept_all) (hd (started (handle ex_settings (ex_options False) (ex_client st_normal) ''now'' all_clean None (ex_conf 37)))) ex_upload)) = 0" by auto
  with T1 T2 m clean put show ?thesis by simp
qed

text \<open>
  Counterexample to claim C10 as stated: a dry run of the scenario. The first worker that
  the command starts runs on a queue of one upload job whose local file can be read. When
  its run ends it has sent nothing but the requests of its construction: the file has
  not been uploaded, and the bucket is as it was.
\<close>

theorem C10_dry_run_uploads_nothing:
  "dryrun (ex_options True)
   \<and> hd (started (handle ex_settings (ex_options True) (ex_client st_normal) ''now'' all_clean None (ex_conf 37))) \<in> set (started (handle ex_settings (ex_options True) (ex_client st_normal) ''now'' all_clean None (ex_conf 37)))
   \<and> \<not> do_delete ex_upload
   \<and> files (ex_env 10 100 accept_all) (filename ex_upload) = Some \<lparr>filedata = replicate 10 CHR ''a'', st_mtime = 100\<rparr>
   \<and> calls (fst (snd (run (ex_env 10 100 accept_all) (hd (started (handle ex_settings (ex_options True) (ex_client st_normal) ''now'' all_clean None (ex_conf 37)))) [ex_upload]))) = [GetBucket ''media'', CreateBucket ''media'']
   \<and> bucket (fst (snd (run (ex_env 10 100 accept_all) (hd (started (handle ex_settings (ex_options True) (ex_client st_normal) ''now'' all_clean None (ex_conf 37)))) [ex_upload]))) = bucket (hd (started (handle ex_settings (ex_options True) (ex_client st_normal) ''now'' all_clean None (ex_conf 37))))"
proof -
  have m: "hd (started (handle ex_settings (ex_options True) (ex_client st_normal) ''now'' all_clean None (ex_conf 37))) \<in> set (started (handle ex_settings (ex_options True) (ex_client st_normal) ''now'' all_clean None (ex_conf 37)))" by simp
  from started_worker(1,3) [OF m] have "dry_run (hd (started (handle ex_settings (ex_options True) (ex_client st_normal) ''now'' all_clean None (ex_conf 37))))" "do_force (hd (started (handle ex_settings (ex_options True) (ex_client st_normal) ''now'' all_clean None (ex_conf 37))))" by simp_all
  from run_dry_force [OF this, of "(ex_env 10 100 accept_all)" "[ex_upload]"]
    started_first [of ex_settings "ex_options True" "ex_client st_normal" "''now''" all_clean
      None "ex_conf 37"] m
  show ?thesis by simp
qed

end
